(* ===== verification/Prelude.thy ===== *)
theory Prelude
  imports Complex_Main
begin

text \<open>
  Shared vocabulary of the development: decimal digits over Isabelle's \<open>char\<close>
  (the source's strings are JavaScript strings; every string this screen handles is
  ASCII, so one \<open>char\<close> per UTF-16 code unit), the numeric value of a digit string,
  and the collection \<open>model_simps\<close> of characteristic equations the component
  theories add to and their proofs use.
\<close>

named_theorems model_simps "characteristic equations of the model's operations"

subsection \<open>Decimal digits\<close>

definition is_digit :: "char \<Rightarrow> bool" where
  "is_digit c \<longleftrightarrow> c \<in> set ''0123456789''"

definition digit_val :: "char \<Rightarrow> nat" where
  "digit_val c = of_char c - 48"

text \<open>The value of a string of decimal digits, most significant digit first.\<close>

definition digits_val :: "string \<Rightarrow> nat" where
  "digits_val ds = foldl (\<lambda>n c. 10 * n + digit_val c) 0 ds"

definition all_digits :: "string \<Rightarrow> bool" where
  "all_digits ds \<longleftrightarrow> list_all is_digit ds"

lemma digits_val_Nil [simp, model_simps]: "digits_val [] = 0"
  by (simp add: digits_val_def)

lemma foldl_digits_shift:
  "foldl (\<lambda>n c. 10 * n + digit_val c) a ds =
   a * 10 ^ length ds + foldl (\<lambda>n c. 10 * n + digit_val c) 0 ds"
proof (induction ds arbitrary: a)
  case Nil
  then show ?case by simp
next
  case (Cons c ds)
  have "foldl (\<lambda>n c. 10 * n + digit_val c) (10 * a + digit_val c) ds =
        (10 * a + digit_val c) * 10 ^ length ds + foldl (\<lambda>n c. 10 * n + digit_val c) 0 ds"
    by (rule Cons.IH)
  moreover have "foldl (\<lambda>n c. 10 * n + digit_val c) (digit_val c) ds =
        digit_val c * 10 ^ length ds + foldl (\<lambda>n c. 10 * n + digit_val c) 0 ds"
    by (rule Cons.IH)
  ultimately show ?case by (simp add: algebra_simps)
qed

lemma digits_val_append [model_simps]:
  "digits_val (xs @ ys) = digits_val xs * 10 ^ length ys + digits_val ys"
  unfolding digits_val_def foldl_append by (rule foldl_digits_shift)

lemma digits_val_snoc [simp, model_simps]:
  "digits_val (xs @ [c]) = 10 * digits_val xs + digit_val c"
  by (simp add: digits_val_def)

lemma digits_val_Cons [model_simps]:
  "digits_val (c # ds) = digit_val c * 10 ^ length ds + digits_val ds"
  using digits_val_append [of "[c]" ds] by (simp add: digits_val_def)

lemma digit_val_lt: "is_digit c \<Longrightarrow> digit_val c < 10"
  by (auto simp: is_digit_def digit_val_def)

lemma digits_val_lt: "all_digits ds \<Longrightarrow> digits_val ds < 10 ^ length ds"
proof (induction ds rule: rev_induct)
  case Nil
  then show ?case by simp
next
  case (snoc c ds)
  then have "digits_val ds < 10 ^ length ds" and "digit_val c < 10"
    by (simp_all add: all_digits_def digit_val_lt)
  then have "10 * digits_val ds + digit_val c < 10 * 10 ^ length ds"
    by linarith
  then show ?case by simp
qed

lemma all_digits_simps [simp, model_simps]:
  "all_digits []"
  "all_digits (c # ds) \<longleftrightarrow> is_digit c \<and> all_digits ds"
  "all_digits (xs @ ys) \<longleftrightarrow> all_digits xs \<and> all_digits ys"
  by (simp_all add: all_digits_def)

lemma not_digit_punct [simp]:
  "\<not> is_digit CHR ''.''" "\<not> is_digit CHR '',''" "\<not> is_digit CHR ''e''"
  "\<not> is_digit CHR ''E''" "\<not> is_digit CHR ''x''" "\<not> is_digit CHR ''X''"
  by (simp_all add: is_digit_def)

lemma takeWhile_digits: "all_digits i \<Longrightarrow> takeWhile is_digit (i @ r) = i @ takeWhile is_digit r"
  by (rule takeWhile_append2) (simp add: all_digits_def list_all_iff)

lemma dropWhile_digits: "all_digits i \<Longrightarrow> dropWhile is_digit (i @ r) = dropWhile is_digit r"
  by (rule dropWhile_append2) (simp add: all_digits_def list_all_iff)

lemma takeWhile_all_digits: "all_digits f \<Longrightarrow> takeWhile is_digit f = f"
  by (simp add: all_digits_def list_all_iff)

lemma dropWhile_all_digits: "all_digits f \<Longrightarrow> dropWhile is_digit f = []"
  by (simp add: all_digits_def list_all_iff)

lemma all_digits_no_punct: "all_digits s \<Longrightarrow> CHR '','' \<notin> set s"
  by (auto simp: all_digits_def list_all_iff)

lemmas digit_scan_simps = takeWhile_digits dropWhile_digits takeWhile_all_digits dropWhile_all_digits

end
