(* ===== verification/Regex.thy ===== *)
theory Regex
  imports Prelude
begin

text \<open>
  The regular expressions of the validation rules (\<open>pattern: /^[0-9]+([,.][0-9]+)?$/\<close>
  in \<open>src/src/app/index.tsx\<close>) and the JavaScript \<open>RegExp.prototype.test\<close> that
  react-hook-form calls on them. The engine is not code of the repository: it is
  modelled from the ECMAScript semantics of the constructs the source uses (character
  classes, concatenation, grouping, \<open>?\<close>, \<open>+\<close>, and the anchors \<open>^\<close> and \<open>$\<close>
  around the whole pattern, which make \<open>test\<close> a whole-string match). A pattern is a
  \<open>rexp\<close>; its meaning is the language \<open>lang\<close>; the executable matcher
  \<open>matches\<close> works by Brzozowski derivatives and is proved to decide \<open>lang\<close>.
\<close>

datatype rexp =
    Zero
  | One
  | Cls "char list"    \<comment> \<open>a character class \<open>[...]\<close>, by its members\<close>
  | Seq rexp rexp
  | Alt rexp rexp
  | Star rexp

definition Plus :: "rexp \<Rightarrow> rexp" where
  "Plus r = Seq r (Star r)"

definition Opt :: "rexp \<Rightarrow> rexp" where
  "Opt r = Alt One r"

subsection \<open>Languages\<close>

definition conc :: "string set \<Rightarrow> string set \<Rightarrow> string set" where
  "conc A B = {u @ v | u v. u \<in> A \<and> v \<in> B}"

inductive_set star_lang :: "string set \<Rightarrow> string set" for A where
  star_nil: "[] \<in> star_lang A"
| star_app: "u \<in> A \<Longrightarrow> v \<in> star_lang A \<Longrightarrow> u @ v \<in> star_lang A"

primrec lang :: "rexp \<Rightarrow> string set" where
  "lang Zero = {}"
| "lang One = {[]}"
| "lang (Cls cs) = {[c] | c. c \<in> set cs}"
| "lang (Seq r s) = conc (lang r) (lang s)"
| "lang (Alt r s) = lang r \<union> lang s"
| "lang (Star r) = star_lang (lang r)"

definition Deriv :: "char \<Rightarrow> string set \<Rightarrow> string set" where
  "Deriv c A = {w. c # w \<in> A}"

subsection \<open>The derivative matcher\<close>

primrec nullable :: "rexp \<Rightarrow> bool" where
  "nullable Zero = False"
| "nullable One = True"
| "nullable (Cls cs) = False"
| "nullable (Seq r s) = (nullable r \<and> nullable s)"
| "nullable (Alt r s) = (nullable r \<or> nullable s)"
| "nullable (Star r) = True"

primrec deriv :: "char \<Rightarrow> rexp \<Rightarrow> rexp" where
  "deriv c Zero = Zero"
| "deriv c One = Zero"
| "deriv c (Cls cs) = (if c \<in> set cs then One else Zero)"
| "deriv c (Seq r s) =
     (if nullable r then Alt (Seq (deriv c r) s) (deriv c s) else Seq (deriv c r) s)"
| "deriv c (Alt r s) = Alt (deriv c r) (deriv c s)"
| "deriv c (Star r) = Seq (deriv c r) (Star r)"

fun derivs :: "string \<Rightarrow> rexp \<Rightarrow> rexp" where
  "derivs [] r = r"
| "derivs (c # w) r = derivs w (deriv c r)"

text \<open>\<open>/^r$/.test(s)\<close>: the anchored pattern matches the whole string.\<close>

definition matches :: "rexp \<Rightarrow> string \<Rightarrow> bool" where
  "matches r s = nullable (derivs s r)"

subsection \<open>Facts about languages\<close>

lemma conc_iff: "w \<in> conc A B \<longleftrightarrow> (\<exists>u v. w = u @ v \<and> u \<in> A \<and> v \<in> B)"
  by (auto simp: conc_def)

lemma Nil_in_conc [simp]: "[] \<in> conc A B \<longleftrightarrow> [] \<in> A \<and> [] \<in> B"
  by (auto simp: conc_def)

lemma conc_singletons: "conc {[c] | c. P c} B = {c # w | c w. P c \<and> w \<in> B}"
  unfolding conc_def by (auto, metis append_Cons append_Nil)

lemma conc_Un_right: "conc A (B \<union> C) = conc A B \<union> conc A C"
  by (auto simp: conc_def)

lemma conc_Nil_right [simp]: "conc A {[]} = A"
  by (simp add: conc_def)

lemma in_star_lang_single: "u \<in> A \<Longrightarrow> u \<in> star_lang A"
  using star_lang.star_app [OF _ star_lang.star_nil] by simp

lemma star_lang_append:
  "u \<in> star_lang A \<Longrightarrow> v \<in> star_lang A \<Longrightarrow> u @ v \<in> star_lang A"
  by (induction rule: star_lang.induct) (auto intro: star_lang.star_app)

lemma Deriv_conc:
  "Deriv c (conc A B) = conc (Deriv c A) B \<union> (if [] \<in> A then Deriv c B else {})"
  by (auto simp: Deriv_def conc_def Cons_eq_append_conv)

lemma star_lang_Cons_split:
  assumes "w \<in> star_lang A"
  shows "w = c # x \<Longrightarrow> x \<in> conc (Deriv c A) (star_lang A)"
  using assms
proof (induction arbitrary: x rule: star_lang.induct)
  case star_nil
  then show ?case by simp
next
  case (star_app u v)
  show ?case
  proof (cases u)
    case Nil
    with star_app show ?thesis by simp
  next
    case (Cons d u')
    with star_app.prems have "d = c" and "x = u' @ v" by simp_all
    with Cons star_app.hyps show ?thesis
      by (auto simp: conc_def Deriv_def)
  qed
qed

lemma Deriv_star_lang: "Deriv c (star_lang A) = conc (Deriv c A) (star_lang A)"
proof
  show "Deriv c (star_lang A) \<subseteq> conc (Deriv c A) (star_lang A)"
    using star_lang_Cons_split by (auto simp: Deriv_def)
next
  show "conc (Deriv c A) (star_lang A) \<subseteq> Deriv c (star_lang A)"
    by (auto simp: Deriv_def conc_def intro: star_lang.star_app [of "c # _", simplified])
qed

subsection \<open>Correctness of the matcher\<close>

lemma nullable_iff: "nullable r \<longleftrightarrow> [] \<in> lang r"
  by (induction r) (auto intro: star_lang.star_nil)

lemma lang_deriv: "lang (deriv c r) = Deriv c (lang r)"
proof (induction r)
  case (Seq r s)
  then show ?case by (simp add: Deriv_conc nullable_iff)
next
  case (Star r)
  then show ?case by (simp add: Deriv_star_lang)
qed (auto simp: Deriv_def)

lemma lang_derivs: "lang (derivs w r) = {v. w @ v \<in> lang r}"
  by (induction w arbitrary: r) (simp_all add: lang_deriv Deriv_def)

lemmas matcher_lang = matches_def nullable_iff lang_derivs

text \<open>The matcher decides the language: \<open>test\<close> answers exactly membership.\<close>

theorem matches_correct: "matches r s \<longleftrightarrow> s \<in> lang r"
  by (simp add: matches_def nullable_iff lang_derivs)

end
