(* ===== verification/Form.thy ===== *)
theory Form
  imports Regex
begin

text \<open>
  The form of \<open>HomeScreen\<close> (\<open>src/src/app/index.tsx\<close>): its nine fields, their
  default values (\<open>useForm({defaultValues})\<close>, lines 7--19), the widget each
  \<open>Controller\<close> renders (a \<open>Picker\<close> with its items or a \<open>TextInput\<close>), the
  validation rules each \<open>Controller\<close> registers, and the error text rendered below a
  field whose entry in \<open>formState.errors\<close> is set. Validation of one field follows
  react-hook-form's \<open>validateField\<close> for the two rule kinds the source uses:
  \<open>required\<close> fails on the empty string, \<open>pattern\<close> is tested only on a non-empty
  value.
\<close>

datatype field =
    Gender | Age | Hypertension | HeartDisease | SmokingHistory
  | Weight | Height | HbA1cLevel | BloodGlucoseLevel

text \<open>The fields in the order of \<open>defaultValues\<close> and of the rendered controllers.\<close>

definition all_fields :: "field list" where
  "all_fields = [Gender, Age, Hypertension, HeartDisease, SmokingHistory,
                 Weight, Height, HbA1cLevel, BloodGlucoseLevel]"

text \<open>Fields form a finite type: quantifiers over them evaluate through \<open>all_fields\<close>.\<close>

instantiation field :: enum
begin

definition enum_field :: "field list" where
  "enum_field = all_fields"

definition enum_all_field :: "(field \<Rightarrow> bool) \<Rightarrow> bool" where
  "enum_all_field P = list_all P all_fields"

definition enum_ex_field :: "(field \<Rightarrow> bool) \<Rightarrow> bool" where
  "enum_ex_field P = list_ex P all_fields"

instance
proof
  have all: "f \<in> set all_fields" for f
    by (cases f) (simp_all add: all_fields_def)
  show "(UNIV :: field set) = set enum_class.enum"
    using all by (auto simp: enum_field_def)
  show "distinct (enum_class.enum :: field list)"
    by (simp add: enum_field_def all_fields_def)
  show "enum_class.enum_all P \<longleftrightarrow> Ball (UNIV :: field set) P" for P
    using all by (auto simp: enum_all_field_def list_all_iff)
  show "enum_class.enum_ex P \<longleftrightarrow> Bex (UNIV :: field set) P" for P
    using all by (auto simp: enum_ex_field_def list_ex_iff)
qed

end

fun field_name :: "field \<Rightarrow> string" where
  "field_name Gender = ''gender''"
| "field_name Age = ''age''"
| "field_name Hypertension = ''hypertension''"
| "field_name HeartDisease = ''heart_disease''"
| "field_name SmokingHistory = ''smoking_history''"
| "field_name Weight = ''weight''"
| "field_name Height = ''height''"
| "field_name HbA1cLevel = ''HbA1c_level''"
| "field_name BloodGlucoseLevel = ''blood_glucose_level''"

type_synonym form_values = "field \<Rightarrow> string"

definition default_values :: form_values where
  "default_values = (\<lambda>f. '''')"

subsection \<open>Widgets\<close>

text \<open>
  A \<open>Picker\<close> lists its items as (label, value); a \<open>TextInput\<close> has its placeholder.
  Non-ASCII letters of the Portuguese labels are single UTF-16 code units, written as
  their code: \<open>CHR 0xE3\<close> is the a with tilde, \<open>CHR 0xE9\<close> the e with acute,
  \<open>CHR 0xED\<close> the i with acute, \<open>CHR 0xF3\<close> the o with acute.
\<close>

datatype widget = Picker "(string \<times> string) list" | TextInput string

definition nao :: string where
  "nao = ''N'' @ [CHR 0xE3] @ ''o''"

fun field_widget :: "field \<Rightarrow> widget" where
  "field_widget Gender =
     Picker [(''Selecione'', ''''), (''Masculino'', ''Male''), (''Feminino'', ''Female'')]"
| "field_widget Age = TextInput ''Idade''"
| "field_widget Hypertension = Picker [(''Selecione'', ''''), (nao, ''0''), (''Sim'', ''1'')]"
| "field_widget HeartDisease = Picker [(''Selecione'', ''''), (nao, ''0''), (''Sim'', ''1'')]"
| "field_widget SmokingHistory =
     Picker [(''Selecione'', ''''), (''Nunca'', ''never''), (''Atualmente'', ''current''),
             (''Ex-Fumante'', ''ex''), (''Ocasional'', ''occasional''),
             (nao @ '' Informado'', ''No Info'')]"
| "field_widget Weight = TextInput ''Peso''"
| "field_widget Height = TextInput ''Altura''"
| "field_widget HbA1cLevel = TextInput ''HbA1c''"
| "field_widget BloodGlucoseLevel = TextInput (''N'' @ [CHR 0xED] @ ''vel de Glicose'')"

text \<open>The values a field's widget can deliver to \<open>field.onChange\<close>.\<close>

fun widget_accepts :: "widget \<Rightarrow> string \<Rightarrow> bool" where
  "widget_accepts (Picker items) v \<longleftrightarrow> v \<in> snd ` set items"
| "widget_accepts (TextInput ph) v \<longleftrightarrow> True"

subsection \<open>Rules\<close>

record rule =
  required :: bool
  pattern :: "rexp option"

text \<open>\<open>/^[0-9]+([,.][0-9]+)?$/\<close>\<close>

definition digit_class :: rexp where
  "digit_class = Cls ''0123456789''"

definition decimal_pattern :: rexp where
  "decimal_pattern = Seq (Plus digit_class) (Opt (Seq (Cls '',.'') (Plus digit_class)))"

fun rules :: "field \<Rightarrow> rule" where
  "rules Gender = \<lparr>required = True, pattern = None\<rparr>"
| "rules Age = \<lparr>required = True, pattern = Some decimal_pattern\<rparr>"
| "rules Hypertension = \<lparr>required = True, pattern = None\<rparr>"
| "rules HeartDisease = \<lparr>required = True, pattern = None\<rparr>"
| "rules SmokingHistory = \<lparr>required = True, pattern = None\<rparr>"
| "rules Weight = \<lparr>required = True, pattern = Some decimal_pattern\<rparr>"
| "rules Height = \<lparr>required = True, pattern = Some decimal_pattern\<rparr>"
| "rules HbA1cLevel = \<lparr>required = True, pattern = Some decimal_pattern\<rparr>"
| "rules BloodGlucoseLevel = \<lparr>required = True, pattern = Some decimal_pattern\<rparr>"

definition obrigatorio :: string where
  "obrigatorio = ''Este campo '' @ [CHR 0xE9] @ '' obrigat'' @ [CHR 0xF3] @ ''rio''"

fun error_text :: "field \<Rightarrow> string" where
  "error_text Gender = obrigatorio @ ''.''"
| "error_text Age = obrigatorio @ '' e deve ser num'' @ [CHR 0xE9] @ ''rico.''"
| "error_text Hypertension = obrigatorio @ ''.''"
| "error_text HeartDisease = obrigatorio @ ''.''"
| "error_text SmokingHistory = obrigatorio @ ''.''"
| "error_text Weight = obrigatorio @ '' e deve ser num'' @ [CHR 0xE9] @ ''rico.''"
| "error_text Height = obrigatorio @ '' e deve ser num'' @ [CHR 0xE9] @ ''rico.''"
| "error_text HbA1cLevel = obrigatorio @ '' e deve ser num'' @ [CHR 0xE9] @ ''rico.''"
| "error_text BloodGlucoseLevel = obrigatorio @ '' e deve ser num'' @ [CHR 0xE9] @ ''rico.''"

subsection \<open>Validation\<close>

text \<open>react-hook-form's \<open>validateField\<close> for one value: \<open>True\<close> when no rule fails.\<close>

definition validate_field :: "field \<Rightarrow> string \<Rightarrow> bool" where
  "validate_field f v =
     (let r = rules f
      in \<not> (required r \<and> v = []) \<and>
         (case pattern r of None \<Rightarrow> True | Some p \<Rightarrow> v = [] \<or> matches p v))"

text \<open>\<open>formState.errors\<close> after validating every field: the fields whose rules fail.\<close>

definition field_errors :: "form_values \<Rightarrow> field \<Rightarrow> bool" where
  "field_errors vals f = (\<not> validate_field f (vals f))"

definition form_valid :: "form_values \<Rightarrow> bool" where
  "form_valid vals = list_all (\<lambda>f. validate_field f (vals f)) all_fields"

text \<open>The fields rendered as a \<open>TextInput\<close> (the numeric ones).\<close>

definition text_field :: "field \<Rightarrow> bool" where
  "text_field f = (case field_widget f of TextInput _ \<Rightarrow> True | Picker _ \<Rightarrow> False)"

text \<open>Every field holds a value its widget can deliver (any string for a text field).\<close>

definition inputs_ok :: "form_values \<Rightarrow> bool" where
  "inputs_ok vals = list_all (\<lambda>f. widget_accepts (field_widget f) (vals f)) all_fields"

subsection \<open>The language of the pattern\<close>

text \<open>
  What the spec asks of a numeric field: one or more digits, optionally followed by a
  \<open>.\<close> or \<open>,\<close> and one or more digits.
\<close>

definition decimal_literal :: "string \<Rightarrow> bool" where
  "decimal_literal s \<longleftrightarrow>
     (s \<noteq> [] \<and> all_digits s) \<or>
     (\<exists>i c f. s = i @ c # f \<and> i \<noteq> [] \<and> all_digits i \<and> c \<in> set '',.'' \<and> f \<noteq> [] \<and> all_digits f)"

lemma lang_digit_class: "lang digit_class = {[c] | c. is_digit c}"
  by (simp add: digit_class_def is_digit_def)

lemma star_digits: "star_lang (lang digit_class) = {i. all_digits i}"
proof
  show "star_lang (lang digit_class) \<subseteq> {i. all_digits i}"
  proof
    fix w assume "w \<in> star_lang (lang digit_class)"
    then show "w \<in> {i. all_digits i}"
    proof (induction rule: star_lang.induct)
      case star_nil then show ?case by simp
    next
      case (star_app u v)
      then obtain c where "u = [c]" "is_digit c" by (auto simp: lang_digit_class)
      with star_app.IH show ?case by simp
    qed
  qed
next
  show "{i. all_digits i} \<subseteq> star_lang (lang digit_class)"
  proof
    fix w assume "w \<in> {i. all_digits i}"
    then have "all_digits w" by simp
    then show "w \<in> star_lang (lang digit_class)"
    proof (induction w)
      case Nil show ?case by (rule star_lang.star_nil)
    next
      case (Cons c w)
      then have c: "[c] \<in> lang digit_class" by (simp add: lang_digit_class)
      from Cons have "w \<in> star_lang (lang digit_class)" by simp
      with c have "[c] @ w \<in> star_lang (lang digit_class)" by (rule star_lang.star_app)
      then show ?case by simp
    qed
  qed
qed

lemma lang_Plus_digits: "lang (Plus digit_class) = {i. i \<noteq> [] \<and> all_digits i}"
  unfolding Plus_def lang.simps(4,6) star_digits
  unfolding lang_digit_class conc_singletons
  by (auto simp: neq_Nil_conv)

lemma lang_sep_digits:
  "lang (Seq (Cls '',.'') (Plus digit_class)) = {c # f | c f. c \<in> set '',.'' \<and> f \<noteq> [] \<and> all_digits f}"
proof -
  have "lang (Cls '',.'') = {[c] | c. c \<in> set '',.''}" by simp
  then show ?thesis by (simp only: lang.simps(4) conc_singletons lang_Plus_digits) blast
qed

theorem lang_decimal_pattern: "lang decimal_pattern = {s. decimal_literal s}"
proof -
  let ?A = "{i. i \<noteq> [] \<and> all_digits i}"
  let ?F = "{c # f | c f. c \<in> set '',.'' \<and> f \<noteq> [] \<and> all_digits f}"
  have "lang decimal_pattern = conc ?A ({[]} \<union> ?F)"
    unfolding decimal_pattern_def Opt_def lang.simps(4) [of "Plus digit_class"] lang.simps(2,5)
      lang_sep_digits lang_Plus_digits ..
  also have "\<dots> = ?A \<union> {i @ c # f | i c f. i \<in> ?A \<and> c \<in> set '',.'' \<and> f \<noteq> [] \<and> all_digits f}"
    unfolding conc_Un_right conc_Nil_right by (auto simp: conc_def)
  also have "\<dots> = {s. decimal_literal s}"
    unfolding decimal_literal_def by blast
  finally show ?thesis .
qed

subsection \<open>Validation lemmas\<close>

lemma all_fields_complete [simp]: "f \<in> set all_fields"
  by (cases f) (simp_all add: all_fields_def)

lemma form_valid_iff: "form_valid vals \<longleftrightarrow> (\<forall>f. validate_field f (vals f))"
  by (auto simp: form_valid_def list_all_iff)

lemma validate_field_iff:
  "validate_field f v \<longleftrightarrow> v \<noteq> [] \<and> (text_field f \<longrightarrow> decimal_literal v)"
  by (cases f) (auto simp: validate_field_def text_field_def matcher_lang lang_decimal_pattern)

lemma text_fields [simp]:
  "text_field Age" "text_field Weight" "text_field Height" "text_field HbA1cLevel"
  "text_field BloodGlucoseLevel"
  "\<not> text_field Gender" "\<not> text_field Hypertension" "\<not> text_field HeartDisease"
  "\<not> text_field SmokingHistory"
  by (simp_all add: text_field_def)

lemma valid_text_field: "form_valid v \<Longrightarrow> text_field f \<Longrightarrow> decimal_literal (v f)"
  by (simp add: form_valid_iff validate_field_iff)

lemma valid_picker_value:
  assumes "form_valid v" "inputs_ok v" "field_widget f = Picker items"
  shows "v f \<in> snd ` set items - {[]}"
proof -
  have "widget_accepts (field_widget f) (v f)"
    using assms(2) by (simp add: inputs_ok_def list_all_iff)
  moreover have "v f \<noteq> []"
    using assms(1) by (simp add: form_valid_iff validate_field_iff)
  ultimately show ?thesis using assms(3) by simp
qed

lemma decimal_literal_cases:
  assumes "decimal_literal s"
  obtains (int) "all_digits s" "s \<noteq> []"
    | (frac) i c f where "s = i @ c # f" "all_digits i" "i \<noteq> []" "c \<in> set '',.''"
        "all_digits f" "f \<noteq> []"
  using assms unfolding decimal_literal_def by blast

text \<open>With \<open>pattern_eval\<close>, \<open>simp\<close> runs the matcher on a concrete entry.\<close>

lemmas pattern_eval = matches_def decimal_pattern_def Plus_def Opt_def digit_class_def

text \<open>
  C5. The source's pattern, run by \<open>RegExp.prototype.test\<close>, accepts exactly the
  decimal literals of the spec: digits, optionally a \<open>.\<close> or \<open>,\<close> and digits.
\<close>

theorem pattern_test_correct: "matches decimal_pattern s \<longleftrightarrow> decimal_literal s"
  by (simp add: matcher_lang lang_decimal_pattern)

text \<open>
  C4. The form is submittable exactly when every field is non-empty and every text
  field holds a decimal literal.
\<close>

theorem form_valid_spec:
  "form_valid vals \<longleftrightarrow> (\<forall>f. vals f \<noteq> [] \<and> (text_field f \<longrightarrow> decimal_literal (vals f)))"
  by (simp add: form_valid_iff validate_field_iff)

lemma decimal_literal_chars:
  "decimal_literal s \<Longrightarrow> c \<in> set s \<Longrightarrow> is_digit c \<or> c \<in> set '',.''"
  unfolding decimal_literal_def by (auto simp: all_digits_def list_all_iff)

text \<open>
  C6. A numeric field rejects every entry containing a character other than a digit,
  \<open>.\<close> or \<open>,\<close> (a letter, a sign, a space).
\<close>

theorem non_numeric_rejected:
  assumes "text_field f" "c \<in> set v" "\<not> is_digit c" "c \<notin> set '',.''"
  shows "\<not> validate_field f v"
  using assms decimal_literal_chars [of v c] by (auto simp: validate_field_iff)

end
