(* ===== verification/JsNum.thy ===== *)
theory JsNum
  imports Prelude
begin

text \<open>
  JavaScript numbers as the screen's \<open>onSubmit\<close> computes with them, and the two
  global parsers it calls, \<open>parseFloat\<close> and \<open>parseInt\<close>. Neither parser is code of
  the repository: both are modelled from ECMA-262 (sections \<open>parseFloat (string)\<close>
  and \<open>parseInt (string, radix)\<close> with \<open>radix\<close> undefined).

  A finite number is kept as an exact rational (\<open>Num\<close>); the three non-finite values
  are constructors of their own, so that the division by zero of line 26 and its
  results are values of the model. Two simplifications, both stated here once:
  IEEE-754 rounding (and with it overflow to Infinity of huge literals) is not modelled,
  and the two zeros are one value, with \<open>x / 0\<close> read as division by \<open>+0\<close>.
  On every path of this screen the operands come from validated, sign-free digit
  strings, so no \<open>-0\<close> arises there (\<open>Request.thy\<close> proves the parsed values
  non-negative).
\<close>

datatype jsnum = Num rat | PosInf | NegInf | NaN

fun js_neg :: "jsnum \<Rightarrow> jsnum" where
  "js_neg (Num a) = Num (- a)"
| "js_neg PosInf = NegInf"
| "js_neg NegInf = PosInf"
| "js_neg NaN = NaN"

fun js_is_finite :: "jsnum \<Rightarrow> bool" where
  "js_is_finite (Num a) = True"
| "js_is_finite _ = False"

text \<open>\<open>Number::multiply\<close>: NaN absorbs, \<open>Infinity * 0\<close> is NaN, signs multiply.\<close>

fun js_mul :: "jsnum \<Rightarrow> jsnum \<Rightarrow> jsnum" where
  "js_mul (Num a) (Num b) = Num (a * b)"
| "js_mul NaN y = NaN"
| "js_mul x NaN = NaN"
| "js_mul (Num a) y = (if a = 0 then NaN else if 0 < a then y else js_neg y)"
| "js_mul x (Num b) = (if b = 0 then NaN else if 0 < b then x else js_neg x)"
| "js_mul PosInf y = y"
| "js_mul NegInf y = js_neg y"

text \<open>
  \<open>Number::divide\<close>: \<open>0 / 0\<close> and \<open>Infinity / Infinity\<close> are NaN, a non-zero
  finite number over zero is an infinity of its sign, a finite number over an infinity
  is zero.
\<close>

fun js_div :: "jsnum \<Rightarrow> jsnum \<Rightarrow> jsnum" where
  "js_div NaN y = NaN"
| "js_div x NaN = NaN"
| "js_div (Num a) (Num b) =
     (if b = 0 then (if a = 0 then NaN else if 0 < a then PosInf else NegInf)
      else Num (a / b))"
| "js_div (Num a) y = Num 0"
| "js_div x (Num b) = (if 0 \<le> b then x else js_neg x)"
| "js_div x y = NaN"

subsection \<open>String to number\<close>

text \<open>
  \<open>TrimString(_, start)\<close>: the white space and line terminators among the code units
  a \<open>char\<close> represents (tab, line feed, vertical tab, form feed, carriage return,
  space, no-break space); U+FEFF, U+2028, U+2029 and the other space separators lie
  outside the Latin-1 range of the model.
\<close>

definition js_space :: "char \<Rightarrow> bool" where
  "js_space c \<longleftrightarrow> of_char c \<in> {9, 10, 11, 12, 13, 32, 160 :: nat}"

text \<open>The exponent part \<open>[eE][+-]?digits\<close> of a \<open>StrDecimalLiteral\<close>, if present.\<close>

definition scan_exponent :: "string \<Rightarrow> int" where
  "scan_exponent r =
     (case r of
        e # r' \<Rightarrow>
          if e = CHR ''e'' \<or> e = CHR ''E'' then
            (let (sg, r'') = (case r' of
                                s # t \<Rightarrow> if s = CHR ''-'' then (-1, t)
                                         else if s = CHR ''+'' then (1, t) else (1, r')
                              | [] \<Rightarrow> (1, r'));
                 ds = takeWhile is_digit r''
             in if ds = [] then 0 else sg * int (digits_val ds))
          else 0
      | [] \<Rightarrow> 0)"

definition scale10 :: "rat \<Rightarrow> int \<Rightarrow> rat" where
  "scale10 q e = (if 0 \<le> e then q * 10 ^ nat e else q / 10 ^ nat (- e))"

text \<open>
  The longest prefix that is an unsigned \<open>StrDecimalLiteral\<close> other than
  \<open>Infinity\<close>: digits, an optional \<open>.\<close> with digits, at least one digit in all,
  then an optional exponent. \<open>None\<close> when no prefix qualifies.
\<close>

definition scan_decimal :: "string \<Rightarrow> rat option" where
  "scan_decimal u =
     (let ip = takeWhile is_digit u; r1 = dropWhile is_digit u;
          (fp, r2) = (case r1 of
                        d # r \<Rightarrow> if d = CHR ''.'' then (takeWhile is_digit r, dropWhile is_digit r)
                                 else ([], r1)
                      | [] \<Rightarrow> ([], r1))
      in if ip = [] \<and> fp = [] then None
         else Some (scale10 (of_nat (digits_val (ip @ fp)) / 10 ^ length fp) (scan_exponent r2)))"

text \<open>\<open>parseFloat(string)\<close>.\<close>

definition parseFloat :: "string \<Rightarrow> jsnum" where
  "parseFloat s =
     (let t = dropWhile js_space s;
          (neg, u) = (case t of
                        c # r \<Rightarrow> if c = CHR ''-'' then (True, r)
                                 else if c = CHR ''+'' then (False, r) else (False, t)
                      | [] \<Rightarrow> (False, t))
      in if take 8 u = ''Infinity'' then (if neg then NegInf else PosInf)
         else (case scan_decimal u of
                 None \<Rightarrow> NaN
               | Some q \<Rightarrow> Num (if neg then - q else q)))"

text \<open>Digits of radix 10 and 16 with their values.\<close>

definition radix_digit :: "nat \<Rightarrow> char \<Rightarrow> bool" where
  "radix_digit R c \<longleftrightarrow>
     is_digit c \<or> (R = 16 \<and> (c \<in> set ''abcdef'' \<or> c \<in> set ''ABCDEF''))"

definition hex_val :: "char \<Rightarrow> nat" where
  "hex_val c = (if is_digit c then digit_val c
                else if c \<in> set ''abcdef'' then of_char c - 87 else of_char c - 55)"

definition radix_val :: "nat \<Rightarrow> string \<Rightarrow> nat" where
  "radix_val R z = foldl (\<lambda>n c. R * n + hex_val c) 0 z"

text \<open>\<open>parseInt(string)\<close>, radix undefined: sign, optional \<open>0x\<close> prefix, digits.\<close>

definition parseInt :: "string \<Rightarrow> jsnum" where
  "parseInt s =
     (let t = dropWhile js_space s;
          neg = (case t of c # r \<Rightarrow> c = CHR ''-'' | [] \<Rightarrow> False);
          u = (case t of c # r \<Rightarrow> if c = CHR ''-'' \<or> c = CHR ''+'' then r else t | [] \<Rightarrow> t);
          (R, v) = (if take 2 u = ''0x'' \<or> take 2 u = ''0X'' then (16, drop 2 u) else (10, u));
          z = takeWhile (radix_digit R) v
      in if z = [] then NaN
         else Num (of_int ((if neg then -1 else 1) * int (radix_val R z))))"

subsection \<open>The parsers on digit strings\<close>

lemma digit_not_space: "is_digit c \<Longrightarrow> \<not> js_space c"
  by (auto simp: is_digit_def js_space_def)

lemma digit_not_sign: "is_digit c \<Longrightarrow> c \<noteq> CHR ''-'' \<and> c \<noteq> CHR ''+'' \<and> c \<noteq> CHR ''I''"
  by (auto simp: is_digit_def)

text \<open>A string that starts with a digit is parsed by \<open>scan_decimal\<close> alone.\<close>

lemma parseFloat_unsigned:
  assumes "all_digits i" "i \<noteq> []"
  shows "parseFloat (i @ r) = (case scan_decimal (i @ r) of None \<Rightarrow> NaN | Some q \<Rightarrow> Num q)"
proof -
  obtain d i' where i: "i = d # i'" using assms(2) by (cases i) auto
  with assms(1) have d: "is_digit d" by simp
  then show ?thesis
    using digit_not_space [OF d] digit_not_sign [OF d]
    by (simp add: parseFloat_def i split: option.split)
qed

lemma scan_decimal_digits:
  "all_digits i \<Longrightarrow> i \<noteq> [] \<Longrightarrow> scan_decimal i = Some (of_nat (digits_val i))"
  by (simp add: scan_decimal_def scan_exponent_def scale10_def digit_scan_simps)

lemma scan_decimal_dot:
  assumes "all_digits i" "i \<noteq> []" "all_digits f"
  shows "scan_decimal (i @ CHR ''.'' # f) = Some (of_nat (digits_val (i @ f)) / 10 ^ length f)"
  using assms by (simp add: scan_decimal_def scan_exponent_def scale10_def digit_scan_simps)

lemma scan_decimal_stop:
  assumes "all_digits i" "i \<noteq> []" "\<not> is_digit c" "c \<notin> set ''.eE''"
  shows "scan_decimal (i @ c # r) = Some (of_nat (digits_val i))"
  using assms by (simp add: scan_decimal_def scan_exponent_def scale10_def digit_scan_simps)

lemma parseFloat_digits:
  "all_digits i \<Longrightarrow> i \<noteq> [] \<Longrightarrow> parseFloat i = Num (of_nat (digits_val i))"
  using parseFloat_unsigned [of i "[]"] by (simp add: scan_decimal_digits)

lemma parseFloat_dot:
  assumes "all_digits i" "i \<noteq> []" "all_digits f"
  shows "parseFloat (i @ CHR ''.'' # f) = Num (of_nat (digits_val (i @ f)) / 10 ^ length f)"
  using assms by (simp add: parseFloat_unsigned scan_decimal_dot)

text \<open>Parsing stops at the first character that cannot continue the literal.\<close>

lemma parseFloat_stop:
  assumes "all_digits i" "i \<noteq> []" "\<not> is_digit c" "c \<notin> set ''.eE''"
  shows "parseFloat (i @ c # r) = Num (of_nat (digits_val i))"
  using assms by (simp add: parseFloat_unsigned scan_decimal_stop)

lemma radix_digit_10 [simp]: "radix_digit 10 = is_digit"
  by (simp add: radix_digit_def fun_eq_iff)

lemma radix_val_10: "all_digits z \<Longrightarrow> radix_val 10 z = digits_val z"
  by (simp add: radix_val_def digits_val_def hex_val_def all_digits_def list_all_iff cong: foldl_cong)

lemma take2_not_hex:
  assumes "all_digits i" "i \<noteq> []" "r = [] \<or> (\<exists>c r'. r = c # r' \<and> c \<noteq> CHR ''x'' \<and> c \<noteq> CHR ''X'')"
  shows "take 2 (i @ r) \<noteq> ''0x'' \<and> take 2 (i @ r) \<noteq> ''0X''"
proof (cases i)
  case Nil with assms show ?thesis by simp
next
  case (Cons d i')
  show ?thesis
  proof (cases i')
    case Nil with Cons assms(3) show ?thesis by auto
  next
    case (Cons e i'')
    with \<open>i = d # i'\<close> assms(1) have "is_digit e" by simp
    then have "e \<noteq> CHR ''x'' \<and> e \<noteq> CHR ''X''" by (auto simp: is_digit_def)
    with Cons \<open>i = d # i'\<close> show ?thesis by simp
  qed
qed

text \<open>\<open>parseInt\<close> of a digit string followed by a non-digit reads the digits only.\<close>

lemma parseInt_unsigned:
  assumes "all_digits i" "i \<noteq> []"
    and "r = [] \<or> (\<exists>c r'. r = c # r' \<and> \<not> is_digit c \<and> c \<noteq> CHR ''x'' \<and> c \<noteq> CHR ''X'')"
  shows "parseInt (i @ r) = Num (of_nat (digits_val i))"
proof -
  obtain d i' where i: "i = d # i'" using assms(2) by (cases i) auto
  with assms(1) have d: "is_digit d" by simp
  have sp: "dropWhile js_space (i @ r) = i @ r"
    using digit_not_space [OF d] by (simp add: i)
  have neg: "(case i @ r of c # r \<Rightarrow> c = CHR ''-'' | [] \<Rightarrow> False) = False"
    using digit_not_sign [OF d] by (simp add: i)
  have u: "(case i @ r of c # r' \<Rightarrow> if c = CHR ''-'' \<or> c = CHR ''+'' then r' else i @ r
            | [] \<Rightarrow> i @ r) = i @ r"
    using digit_not_sign [OF d] by (simp add: i)
  have hex: "take 2 (i @ r) \<noteq> ''0x'' \<and> take 2 (i @ r) \<noteq> ''0X''"
    using assms by (intro take2_not_hex) auto
  have tw: "takeWhile is_digit (i @ r) = i"
    using assms(3) by (auto simp: takeWhile_digits [OF assms(1)])
  show ?thesis
    unfolding parseInt_def Let_def sp neg u
    using hex tw assms(2) by (simp add: radix_val_10 [OF assms(1)])
qed

end
