(* ===== verification/Json.thy ===== *)
theory Json
  imports JsNum
begin

text \<open>
  The JavaScript values that cross the network boundary of the screen: the JSON value
  that \<open>JSON.stringify(requestData)\<close> serialises (line 44), the value
  \<open>response.json()\<close> yields (line 48), and the property read
  \<open>responseData.message\<close> (line 49). JSON numbers are finite, so a \<open>JNumber\<close> holds a
  rational; the serialiser maps the non-finite numbers to \<open>null\<close>, as
  \<open>SerializeJSONProperty\<close> does. An object keeps its members in order, duplicates
  included, as \<open>JSON.parse\<close> reads them; the last duplicate wins on lookup.
  Exceptions the screen's \<open>try\<close> block can catch are values of \<open>js_error\<close>.
\<close>

datatype json =
    JNull
  | JBool bool
  | JNumber rat
  | JString string
  | JArray "json list"
  | JObject "(string \<times> json) list"

text \<open>A JavaScript value as the screen stores it in its \<open>message\<close> state.\<close>

datatype jsval = Undefined | JsonVal json

datatype js_error = TypeError | SyntaxError

text \<open>\<open>SerializeJSONProperty\<close> on a number: finite numbers as such, others as \<open>null\<close>.\<close>

fun number_json :: "jsnum \<Rightarrow> json" where
  "number_json (Num q) = JNumber q"
| "number_json _ = JNull"

text \<open>
  \<open>GetV(v, key)\<close> on a value produced by \<open>JSON.parse\<close>: reading a property of
  \<open>null\<close> throws a \<open>TypeError\<close>; an object yields its own member (the last one of that
  name) or \<open>undefined\<close>; every other value has no such property (\<open>message\<close> is not a
  property of the prototypes of strings, numbers, booleans or arrays).
\<close>

fun get_property :: "json \<Rightarrow> string \<Rightarrow> js_error + jsval" where
  "get_property JNull k = Inl TypeError"
| "get_property (JObject kvs) k =
     Inr (case map_of (rev kvs) k of Some v \<Rightarrow> JsonVal v | None \<Rightarrow> Undefined)"
| "get_property _ k = Inr Undefined"

lemma get_property_object_last:
  "k \<notin> fst ` set kvs' \<Longrightarrow> get_property (JObject (kvs @ (k, v) # kvs')) k = Inr (JsonVal v)"
proof -
  assume "k \<notin> fst ` set kvs'"
  then have "map_of (rev kvs') k = None" by (simp add: map_of_eq_None_iff)
  then have "((map_of (rev kvs))(k \<mapsto> v) ++ map_of (rev kvs')) k = Some v"
    by (simp add: map_add_def)
  then show ?thesis by simp
qed

end
