(* ===== verification/Request.thy ===== *)
theory Request
  imports Form Json
begin

text \<open>
  The payload \<open>onSubmit\<close> builds from the submitted form values
  (\<open>src/src/app/index.tsx\<close>, lines 24--37) and its serialisation by
  \<open>JSON.stringify\<close> (line 44). \<open>build_request\<close> is the whole computation before the
  \<open>fetch\<close>: it parses \<open>weight\<close> and \<open>height\<close> with \<open>parseFloat\<close>, computes
  \<open>bmi = weight / (height * height)\<close> with no guard, parses \<open>age\<close> and
  \<open>HbA1c_level\<close> with \<open>parseFloat\<close> and \<open>hypertension\<close>, \<open>heart_disease\<close> and
  \<open>blood_glucose_level\<close> with \<open>parseInt\<close>, and copies the two string fields.
  \<open>decimal_value\<close> is the reference reading of a validated numeric entry, the number
  the spec says the user typed, with either separator. The numbers here are the exact
  mathematical values of the code's expressions, before any rounding or overflow; the
  screen sends the binary64 payload \<open>build_request_dbl\<close> of \<open>RequestDouble\<close>, which
  rounds each of them and is bounded against this one.
\<close>

record prediction_request =
  gender :: string
  age :: jsnum
  hypertension :: jsnum
  heart_disease :: jsnum
  smoking_history :: string
  bmi :: jsnum
  HbA1c_level :: jsnum
  blood_glucose_level :: jsnum

text \<open>Line 26.\<close>

definition compute_bmi :: "jsnum \<Rightarrow> jsnum \<Rightarrow> jsnum" where
  "compute_bmi weight height = js_div weight (js_mul height height)"

text \<open>Lines 24--37.\<close>

definition build_request :: "form_values \<Rightarrow> prediction_request" where
  "build_request data =
     (let weight = parseFloat (data Weight);
          height = parseFloat (data Height)
      in \<lparr>gender = data Gender,
          age = parseFloat (data Age),
          hypertension = parseInt (data Hypertension),
          heart_disease = parseInt (data HeartDisease),
          smoking_history = data SmokingHistory,
          bmi = compute_bmi weight height,
          HbA1c_level = parseFloat (data HbA1cLevel),
          blood_glucose_level = parseInt (data BloodGlucoseLevel)\<rparr>)"

text \<open>Line 44: \<open>JSON.stringify(requestData)\<close>, members in the literal's order.\<close>

definition request_json :: "prediction_request \<Rightarrow> json" where
  "request_json r =
     JObject [(''gender'', JString (gender r)),
              (''age'', number_json (age r)),
              (''hypertension'', number_json (hypertension r)),
              (''heart_disease'', number_json (heart_disease r)),
              (''smoking_history'', JString (smoking_history r)),
              (''bmi'', number_json (bmi r)),
              (''HbA1c_level'', number_json (HbA1c_level r)),
              (''blood_glucose_level'', number_json (blood_glucose_level r))]"

text \<open>The number a validated entry denotes, reading \<open>,\<close> and \<open>.\<close> alike.\<close>

definition decimal_value :: "string \<Rightarrow> rat" where
  "decimal_value s =
     (let i = takeWhile is_digit s
      in case dropWhile is_digit s of
           [] \<Rightarrow> of_nat (digits_val i)
         | c # f \<Rightarrow> of_nat (digits_val (i @ f)) / 10 ^ length f)"

definition nonneg_num :: "jsnum \<Rightarrow> bool" where
  "nonneg_num x = (case x of Num q \<Rightarrow> 0 \<le> q | _ \<Rightarrow> False)"

text \<open>The shape of a payload the server is promised (spec, section 3).\<close>

definition request_ok :: "prediction_request \<Rightarrow> bool" where
  "request_ok r \<longleftrightarrow>
     gender r \<in> {''Male'', ''Female''} \<and>
     hypertension r \<in> {Num 0, Num 1} \<and> heart_disease r \<in> {Num 0, Num 1} \<and>
     smoking_history r \<in> {''never'', ''current'', ''ex'', ''occasional'', ''No Info''} \<and>
     nonneg_num (age r) \<and> nonneg_num (HbA1c_level r) \<and> nonneg_num (blood_glucose_level r) \<and>
     (nonneg_num (bmi r) \<or> bmi r = PosInf \<or> bmi r = NaN)"

text \<open>A filled-in form used by the witnesses: every entry valid, decimal points.\<close>

definition sample_values :: form_values where
  "sample_values =
     default_values(Gender := ''Male'', Age := ''45'', Hypertension := ''0'',
       HeartDisease := ''0'', SmokingHistory := ''never'', Weight := ''70'',
       Height := ''1.75'', HbA1cLevel := ''5.5'', BloodGlucoseLevel := ''140'')"

subsection \<open>Parsing validated entries\<close>

lemma decimal_value_int: "all_digits s \<Longrightarrow> decimal_value s = of_nat (digits_val s)"
  by (simp add: decimal_value_def digit_scan_simps)

lemma decimal_value_frac:
  "all_digits i \<Longrightarrow> \<not> is_digit c \<Longrightarrow> all_digits f \<Longrightarrow>
   decimal_value (i @ c # f) = of_nat (digits_val (i @ f)) / 10 ^ length f"
  by (simp add: decimal_value_def digit_scan_simps)

lemma floor_digits_frac:
  assumes "all_digits f"
  shows "\<lfloor>(of_nat (digits_val (i @ f)) :: rat) / 10 ^ length f\<rfloor> = int (digits_val i)"
proof -
  have lt: "digits_val f < 10 ^ length f" using assms by (rule digits_val_lt)
  have "(of_nat (digits_val (i @ f)) :: rat) / 10 ^ length f =
        of_int (int (digits_val i)) + of_nat (digits_val f) / 10 ^ length f"
    by (simp add: digits_val_append field_simps)
  moreover have "\<lfloor>(of_nat (digits_val f) :: rat) / 10 ^ length f\<rfloor> = 0"
  proof -
    have "(of_nat (digits_val f) :: rat) < of_nat (10 ^ length f)" using lt by (simp only: of_nat_less_iff)
    then have "(of_nat (digits_val f) :: rat) / 10 ^ length f < 1" by simp
    then show ?thesis by (simp add: floor_eq_iff)
  qed
  ultimately show ?thesis by simp
qed


theorem parseFloat_literal:
  assumes "decimal_literal s" "CHR '','' \<notin> set s"
  shows "parseFloat s = Num (decimal_value s)"
  using assms(1)
proof (cases rule: decimal_literal_cases)
  case int
  then show ?thesis by (simp add: parseFloat_digits decimal_value_int)
next
  case (frac i c f)
  with assms(2) have "c = CHR ''.''" by auto
  with frac show ?thesis by (simp add: parseFloat_dot decimal_value_frac)
qed

theorem parseFloat_comma:
  assumes "all_digits i" "i \<noteq> []"
  shows "parseFloat (i @ CHR '','' # f) = Num (of_nat (digits_val i))"
  using assms by (rule parseFloat_stop) simp_all

theorem parseInt_literal:
  assumes "decimal_literal s"
  shows "parseInt s = Num (of_int \<lfloor>decimal_value s\<rfloor>)"
  using assms
proof (cases rule: decimal_literal_cases)
  case int
  then show ?thesis using parseInt_unsigned [of s "[]"] by (simp add: decimal_value_int)
next
  case (frac i c f)
  then have "c \<noteq> CHR ''x'' \<and> c \<noteq> CHR ''X'' \<and> \<not> is_digit c" by auto
  with frac have "parseInt s = Num (of_nat (digits_val i))"
    by (auto intro!: parseInt_unsigned)
  with frac show ?thesis by (auto simp: decimal_value_frac floor_digits_frac)
qed

lemma parseFloat_literal_nonneg:
  assumes "decimal_literal s"
  shows "nonneg_num (parseFloat s)"
  using assms
proof (cases rule: decimal_literal_cases)
  case int
  then show ?thesis by (simp add: parseFloat_digits nonneg_num_def)
next
  case (frac i c f)
  then have "c = CHR ''.'' \<or> c = CHR '',''" by auto
  with frac show ?thesis
    by (auto simp: parseFloat_dot parseFloat_comma nonneg_num_def)
qed

lemma parseInt_literal_nonneg: "decimal_literal s \<Longrightarrow> nonneg_num (parseInt s)"
  by (simp add: parseInt_literal nonneg_num_def decimal_value_def Let_def split: list.split)

lemma compute_bmi_Num:
  "compute_bmi (Num w) (Num h) =
   (if h = 0 then (if w = 0 then NaN else if 0 < w then PosInf else NegInf) else Num (w / (h * h)))"
  by (simp add: compute_bmi_def)


theorem parseFloat_validated:
  assumes "decimal_literal s"
  shows "parseFloat s = Num (if CHR '','' \<in> set s then of_int \<lfloor>decimal_value s\<rfloor> else decimal_value s)"
  using assms
proof (cases rule: decimal_literal_cases)
  case int
  then have "CHR '','' \<notin> set s" by (simp add: all_digits_no_punct)
  with assms show ?thesis by (simp add: parseFloat_literal)
next
  case (frac i c f)
  then have nd: "CHR '','' \<notin> set i" "CHR '','' \<notin> set f"
    by (simp_all add: all_digits_no_punct)
  show ?thesis
  proof (cases "c = CHR '',''")
    case True
    with frac have "parseFloat s = Num (of_nat (digits_val i))"
      by (simp add: parseFloat_comma)
    moreover from True frac have "decimal_value s = of_nat (digits_val (i @ f)) / 10 ^ length f"
      by (simp add: decimal_value_frac)
    ultimately show ?thesis using True frac by (simp add: floor_digits_frac)
  next
    case False
    with nd frac(1) have "CHR '','' \<notin> set s" by auto
    with assms show ?thesis by (simp add: parseFloat_literal)
  qed
qed

lemma parseInt_flag: "parseInt ''0'' = Num 0" "parseInt ''1'' = Num 1"
  using parseInt_unsigned [of "''0''" "[]"] parseInt_unsigned [of "''1''" "[]"]
  by (simp_all add: is_digit_def digits_val_def digit_val_def)

lemma compute_bmi_nonneg:
  assumes "nonneg_num w" "nonneg_num h"
  shows "nonneg_num (compute_bmi w h) \<or> compute_bmi w h = PosInf \<or> compute_bmi w h = NaN"
  using assms by (cases w; cases h) (auto simp: nonneg_num_def compute_bmi_def)

theorem build_request_ok:
  assumes "form_valid v" "inputs_ok v"
  shows "request_ok (build_request v)"
proof -
  have g: "v Gender \<in> {''Male'', ''Female''}"
    using valid_picker_value [OF assms, of Gender] by auto
  have h: "v Hypertension \<in> {''0'', ''1''}"
    using valid_picker_value [OF assms, of Hypertension] by auto
  have d: "v HeartDisease \<in> {''0'', ''1''}"
    using valid_picker_value [OF assms, of HeartDisease] by auto
  have s: "v SmokingHistory \<in> {''never'', ''current'', ''ex'', ''occasional'', ''No Info''}"
    using valid_picker_value [OF assms, of SmokingHistory] by auto
  have nums: "nonneg_num (parseFloat (v f)) \<and> nonneg_num (parseInt (v f))" if "text_field f" for f
    using valid_text_field [OF assms(1) that]
    by (simp add: parseFloat_literal_nonneg parseInt_literal_nonneg)
  show ?thesis
    using g h d s nums [of Age] nums [of HbA1cLevel] nums [of BloodGlucoseLevel]
      compute_bmi_nonneg [of "parseFloat (v Weight)" "parseFloat (v Height)"] nums [of Weight] nums [of Height]
    by (auto simp: request_ok_def build_request_def parseInt_flag)
qed

text \<open>
  C9. A height whose value is zero is not guarded: \<open>bmi\<close> is \<open>Infinity\<close> (or
  \<open>NaN\<close> when the weight is zero too), and \<open>JSON.stringify\<close> sends it as \<open>null\<close>.
\<close>

theorem bmi_height_zero:
  assumes "form_valid v" "decimal_value (v Height) = 0"
  shows "bmi (build_request v) \<in> {PosInf, NaN} \<and>
         get_property (request_json (build_request v)) ''bmi'' = Inr (JsonVal JNull)"
proof -
  have "parseFloat (v Height) = Num 0"
    using assms by (simp add: parseFloat_validated valid_text_field)
  moreover obtain w where "parseFloat (v Weight) = Num w" "0 \<le> w"
    using parseFloat_literal_nonneg [OF valid_text_field [OF assms(1), of Weight]]
    by (cases "parseFloat (v Weight)") (auto simp: nonneg_num_def)
  ultimately show ?thesis
    by (simp add: build_request_def compute_bmi_Num request_json_def)
qed

subsection \<open>Witnesses\<close>

lemmas sample_eval = sample_values_def default_values_def decimal_value_def
  is_digit_def digits_val_def digit_val_def

lemma sample_values_valid: "form_valid sample_values"
  by (simp add: form_valid_def all_fields_def validate_field_def pattern_eval sample_values_def
      default_values_def)

theorem bmi_height_zero_witness:
  "form_valid (sample_values(Height := ''0'')) \<and>
   decimal_value ((sample_values(Height := ''0'')) Height) = 0 \<and>
   bmi (build_request (sample_values(Height := ''0''))) \<in> {PosInf, NaN}"
proof -
  have v: "form_valid (sample_values(Height := ''0''))"
    by (simp add: form_valid_def all_fields_def validate_field_def pattern_eval sample_values_def
        default_values_def)
  have z: "decimal_value ((sample_values(Height := ''0'')) Height) = 0"
    by (simp add: sample_eval)
  show ?thesis using bmi_height_zero [OF v z] v z by blast
qed

end
