(* ===== verification/Submit.thy ===== *)
theory Submit
  imports Request
begin

text \<open>
  The network half of \<open>onSubmit\<close> (\<open>src/src/app/index.tsx\<close>, lines 39--55). The
  handler suspends twice: at \<open>await fetch(...)\<close> (line 39) and at
  \<open>await response.json()\<close> (line 48). Each continuation is a function here, from what
  the awaited promise settled with to either an entry of the diagnostic log (the
  \<open>else\<close> branch of line 51 or the \<open>catch\<close> of line 54: \<open>Inl\<close>) or the value the
  handler goes on with (\<open>Inr\<close>). The POST itself (method, header, JSON body) is
  \<open>post_request\<close>. What the endpoint answers is not determined by the program: a
  settled \<open>fetch\<close> is any \<open>fetch_result\<close>, a settled \<open>response.json()\<close> any
  \<open>json option\<close> (\<open>None\<close> for a body that is not JSON text).
\<close>

datatype fetch_result =
    Rejected js_error      \<comment> \<open>the promise rejects: network failure (a \<open>TypeError\<close>)\<close>
  | Response nat string    \<comment> \<open>HTTP status and \<open>statusText\<close>\<close>

datatype log_entry = LogStatusText string | LogException js_error

record http_post =
  url :: string
  http_method :: string
  headers :: "(string \<times> string) list"
  body :: json

text \<open>Lines 39--45.\<close>

definition post_request :: "prediction_request \<Rightarrow> http_post" where
  "post_request r =
     \<lparr>url = ''http://127.0.0.1:5000/predict'', http_method = ''POST'',
      headers = [(''Content-Type'', ''application/json'')], body = request_json r\<rparr>"

text \<open>\<open>response.ok\<close>: a status in the range 200 to 299.\<close>

definition response_ok :: "nat \<Rightarrow> bool" where
  "response_ok st \<longleftrightarrow> 200 \<le> st \<and> st \<le> 299"

text \<open>After \<open>await fetch\<close> (lines 39, 47, 50--51, 53--54).\<close>

fun after_fetch :: "fetch_result \<Rightarrow> log_entry + unit" where
  "after_fetch (Rejected e) = Inl (LogException e)"
| "after_fetch (Response st txt) = (if response_ok st then Inr () else Inl (LogStatusText txt))"

text \<open>
  After \<open>await response.json()\<close> (lines 48--49, 53--54): the value passed to
  \<open>setMessage\<close>, or the exception the \<open>catch\<close> logs.
\<close>

fun after_body :: "json option \<Rightarrow> log_entry + jsval" where
  "after_body None = Inl (LogException SyntaxError)"
| "after_body (Some j) =
     (case get_property j ''message'' of
        Inl e \<Rightarrow> Inl (LogException e)
      | Inr m \<Rightarrow> Inr m)"

lemma after_fetch_cases:
  "after_fetch r = Inr () \<longleftrightarrow> (\<exists>st txt. r = Response st txt \<and> response_ok st)"
  by (cases r) auto

end
