(* ===== verification/Double.thy ===== *)
theory Double
  imports JsNum "HOL-Library.Log_Nat"
begin

text \<open>
  IEEE-754 binary64 rounding of the numbers the screen computes. ECMAScript gives
  every finite result of \<open>parseFloat\<close>, \<open>*\<close> and \<open>/\<close> as ``the Number value for''
  the exact result: the double nearest to it, ties to the even significand, where
  \<open>2^1024\<close> counts as a candidate that becomes \<open>Infinity\<close>. A finite double is
  \<open>m * 2^e\<close> with \<open>|m| < 2^53\<close> and \<open>-1074 \<le> e \<le> 971\<close>; the spacing of the doubles
  around a positive \<open>q\<close> is \<open>2^ulp_exp q\<close>. The rounding is executable: the exponent
  comes from the numbers of binary digits of numerator and denominator
  (\<open>floor_log\<close>, through \<open>floorlog\<close>).
\<close>

definition round_even :: "rat \<Rightarrow> int" where
  "round_even x =
     (let f = \<lfloor>x\<rfloor>; d = x - of_int f in
      if d < 1/2 then f else if 1/2 < d then f + 1 else if even f then f else f + 1)"

text \<open>
  \<open>floor_log B q\<close> is \<open>\<lfloor>log B q\<rfloor>\<close> for a positive rational, from the numbers of base-\<open>B\<close>
  digits of its numerator and denominator (\<open>floorlog\<close>).
\<close>

definition floor_log :: "nat \<Rightarrow> rat \<Rightarrow> int" where
  "floor_log B q =
     (let (a, b) = quotient_of q;
          k = int (floorlog B (nat a)) - int (floorlog B (nat b))
      in if power_int (of_nat B) k \<le> q then k else k - 1)"

abbreviation floor_log2 :: "rat \<Rightarrow> int" where
  "floor_log2 \<equiv> floor_log 2"

definition ulp_exp :: "rat \<Rightarrow> int" where
  "ulp_exp q = max (-1074) (floor_log2 q - 52)"

definition to_double :: "rat \<Rightarrow> jsnum" where
  "to_double q =
     (if q = 0 then Num 0
      else
        let a = \<bar>q\<bar>; e = ulp_exp a;
            v = of_int (round_even (a / power_int 2 e)) * power_int 2 e
        in if 2 ^ 1024 \<le> v then (if 0 < q then PosInf else NegInf) else Num (sgn q * v))"

text \<open>
  The finite results of the screen's number operations, rounded: \<open>parseFloat\<close>
  returns the Number value for the decimal it reads, and \<open>*\<close> and \<open>/\<close> on finite
  operands the Number value for the exact product and quotient. The non-finite cases
  are those of \<open>js_mul\<close> and \<open>js_div\<close>.
\<close>

fun round_num :: "jsnum \<Rightarrow> jsnum" where
  "round_num (Num q) = to_double q"
| "round_num x = x"

definition dbl_mul :: "jsnum \<Rightarrow> jsnum \<Rightarrow> jsnum" where
  "dbl_mul x y = round_num (js_mul x y)"

definition dbl_div :: "jsnum \<Rightarrow> jsnum \<Rightarrow> jsnum" where
  "dbl_div x y = round_num (js_div x y)"

definition parseFloat_dbl :: "string \<Rightarrow> jsnum" where
  "parseFloat_dbl s = round_num (parseFloat s)"

definition parseInt_dbl :: "string \<Rightarrow> jsnum" where
  "parseInt_dbl s = round_num (parseInt s)"

lemma round_even_err: "\<bar>of_int (round_even x) - x\<bar> \<le> 1/2"
proof -
  have "of_int \<lfloor>x\<rfloor> \<le> x" "x < of_int \<lfloor>x\<rfloor> + 1" by linarith+
  then show ?thesis by (auto simp: round_even_def Let_def)
qed

lemma pow2_pos [simp]: "0 < power_int (2::rat) k"
  by simp

lemma pow2_add: "power_int (2::rat) (m + n) = power_int 2 m * power_int 2 n"
  by (simp add: power_int_add)

lemma pow2_nat: "0 \<le> k \<Longrightarrow> power_int (2::rat) k = of_int (2 ^ nat k)"
  by (metis nat_0_le of_int_numeral of_int_power power_int_of_nat)

lemma pow2_less_iff [simp]: "power_int (2::rat) m < power_int 2 n \<longleftrightarrow> m < n"
  using power_int_strict_increasing [of m n "2::rat"] power_int_increasing [of n m "2::rat"]
  by (cases "m < n") auto

lemma pow2_le_iff [simp]: "power_int (2::rat) m \<le> power_int 2 n \<longleftrightarrow> m \<le> n"
  using pow2_less_iff [of n m] by linarith

lemma powb_less_iff [simp]:
  "1 < B \<Longrightarrow> power_int (of_nat B :: rat) m < power_int (of_nat B) n \<longleftrightarrow> m < n"
  using power_int_strict_increasing [of m n "of_nat B :: rat"]
    power_int_increasing [of n m "of_nat B :: rat"]
  by (cases "m < n") auto

lemma powb_le_iff [simp]:
  "1 < B \<Longrightarrow> power_int (of_nat B :: rat) m \<le> power_int (of_nat B) n \<longleftrightarrow> m \<le> n"
  using powb_less_iff [of B n m] by linarith

lemma powb_add: "0 < B \<Longrightarrow> power_int (of_nat B :: rat) (m + n) = power_int (of_nat B) m * power_int (of_nat B) n"
  by (simp add: power_int_add)

lemma floorlog_pow_bounds:
  assumes "0 < x" "1 < B"
  shows "power_int (of_nat B :: rat) (int (floorlog B (nat x)) - 1) \<le> of_int x \<and>
         of_int x < power_int (of_nat B :: rat) (int (floorlog B (nat x)))"
proof -
  let ?f = "floorlog B (nat x)"
  have f1: "1 \<le> ?f" using assms by (simp add: floorlog_def)
  have "B ^ (?f - 1) \<le> nat x \<and> nat x < B ^ ?f" using floorlog_bounds [of "nat x" B] assms by simp
  then have "(of_nat (B ^ (?f - 1)) :: rat) \<le> of_nat (nat x) \<and> (of_nat (nat x) :: rat) < of_nat (B ^ ?f)"
    by (simp only: of_nat_le_iff of_nat_less_iff)
  moreover have "int ?f - 1 = int (?f - 1)" using f1 by simp
  ultimately show ?thesis using assms(1)
    by (metis of_int_of_nat_eq of_nat_power power_int_of_nat zero_less_imp_eq_int nat_int)
qed

lemma floor_log_bounds:
  assumes "0 < q" "1 < B"
  shows "power_int (of_nat B) (floor_log B q) \<le> q \<and> q < power_int (of_nat B) (floor_log B q + 1)"
proof -
  obtain a b where qa: "quotient_of q = (a, b)" by (cases "quotient_of q")
  have b0: "0 < b" by (rule quotient_of_denom_pos [OF qa])
  have q: "q = of_int a / of_int b" by (rule quotient_of_div [OF qa])
  have a0: "0 < a" using assms b0 by (simp add: q zero_less_divide_iff)
  have B0: "0 < B" using assms(2) by simp
  let ?la = "int (floorlog B (nat a))" and ?lb = "int (floorlog B (nat b))"
  let ?k = "?la - ?lb" and ?P = "power_int (of_nat B :: rat)"
  note A = floorlog_pow_bounds [OF a0 assms(2)] and Bb = floorlog_pow_bounds [OF b0 assms(2)]
  have lo: "?P (?k - 1) < q"
  proof -
    have "?P (?k - 1) * of_int b < ?P (?k - 1) * ?P ?lb" using Bb B0 by simp
    also have "\<dots> = ?P (?la - 1)" using powb_add [OF B0, of "?k - 1" ?lb] by simp
    also have "\<dots> \<le> of_int a" using A by simp
    finally show ?thesis using b0 by (simp add: q pos_less_divide_eq)
  qed
  have hi: "q < ?P (?k + 1)"
  proof -
    have "of_int a < ?P ?la" using A by simp
    also have "\<dots> = ?P (?k + 1) * ?P (?lb - 1)" using powb_add [OF B0, of "?k + 1" "?lb - 1"] by simp
    also have "\<dots> \<le> ?P (?k + 1) * of_int b" using Bb B0 by simp
    finally show ?thesis using b0 by (simp add: q divide_less_eq)
  qed
  show ?thesis
  proof (cases "?P ?k \<le> q")
    case True
    then show ?thesis using hi by (simp add: floor_log_def qa)
  next
    case False
    then show ?thesis using lo by (simp add: floor_log_def qa)
  qed
qed

lemma floor_log_eqI:
  assumes "1 < B" "power_int (of_nat B) k \<le> q" "q < power_int (of_nat B) (k + 1)"
  shows "floor_log B q = k"
proof -
  have "0 < power_int (of_nat B :: rat) k" using assms(1) by simp
  then have "0 < q" using assms(2) by linarith
  note L = floor_log_bounds [OF this assms(1)]
  have "power_int (of_nat B) k < power_int (of_nat B :: rat) (floor_log B q + 1)"
    using L assms(2) by linarith
  moreover have "power_int (of_nat B) (floor_log B q) < power_int (of_nat B :: rat) (k + 1)"
    using L assms(3) by linarith
  ultimately show ?thesis using assms(1) by simp
qed

lemma floor_log2_bounds:
  "0 < q \<Longrightarrow> power_int 2 (floor_log2 q) \<le> q \<and> q < power_int 2 (floor_log2 q + 1)"
  using floor_log_bounds [of q 2] by simp

lemma floor_log2_eqI: "power_int 2 k \<le> q \<Longrightarrow> q < power_int 2 (k + 1) \<Longrightarrow> floor_log2 q = k"
  using floor_log_eqI [of 2 k q] by simp

lemma round_scaled_err:
  "\<bar>of_int (round_even (a / power_int 2 e)) * power_int 2 e - a\<bar> \<le> power_int (2::rat) e / 2"
proof -
  let ?P = "power_int (2::rat) e"
  have "of_int (round_even (a / ?P)) * ?P - a = (of_int (round_even (a / ?P)) - a / ?P) * ?P"
    by (simp add: algebra_simps)
  then have "\<bar>of_int (round_even (a / ?P)) * ?P - a\<bar> = \<bar>of_int (round_even (a / ?P)) - a / ?P\<bar> * ?P"
    by (simp add: abs_mult)
  also have "\<dots> \<le> 1/2 * ?P" by (rule mult_right_mono [OF round_even_err]) simp
  finally show ?thesis by simp
qed

lemma to_double_normal:
  assumes "power_int 2 (-1022) \<le> \<bar>q\<bar>" "\<bar>q\<bar> < 2 ^ 1023"
  shows "\<exists>r. to_double q = Num r \<and> \<bar>r - q\<bar> \<le> \<bar>q\<bar> / 2 ^ 53"
proof -
  let ?a = "\<bar>q\<bar>"
  define L where "L = floor_log2 ?a"
  have q0: "q \<noteq> 0" using assms(1) pow2_pos [of "-1022"] by auto
  then have aL: "power_int 2 L \<le> ?a" "?a < power_int 2 (L + 1)"
    using floor_log2_bounds [of ?a] by (simp_all add: L_def)
  have "power_int 2 (-1022) < power_int (2::rat) (L + 1)" using assms(1) aL(2) by linarith
  then have Llo: "-1022 \<le> L" by (simp only: pow2_less_iff)
  have "power_int 2 L < power_int (2::rat) 1023" using assms(2) aL(1) by simp
  then have Lhi: "L < 1023" by (simp only: pow2_less_iff)
  define e where "e = L - 52"
  have ue: "ulp_exp ?a = e" using Llo by (simp add: ulp_exp_def e_def L_def)
  define v :: rat where "v = of_int (round_even (?a / power_int 2 e)) * power_int 2 e"
  have PL: "power_int (2::rat) L = power_int 2 e * 2 ^ 52"
    using pow2_add [of e 52] by (simp add: e_def)
  have "\<bar>v - ?a\<bar> \<le> power_int 2 e / 2" unfolding v_def by (rule round_scaled_err)
  also have "\<dots> = power_int 2 L / 2 ^ 53" by (simp add: PL)
  also have "\<dots> \<le> ?a / 2 ^ 53" using aL(1) by (simp add: divide_right_mono)
  finally have err: "\<bar>v - ?a\<bar> \<le> ?a / 2 ^ 53" .
  have d: "v - ?a \<le> ?a / 2 ^ 53" by (rule abs_le_D1 [OF err])
  have "(2::rat) ^ 1024 = 2 * 2 ^ 1023" by simp
  moreover have "?a / 2 ^ 53 \<le> ?a / 1" by (rule divide_left_mono) simp_all
  ultimately have "v < 2 ^ 1024" using d assms(2) by linarith
  then have "to_double q = Num (sgn q * v)"
    using q0 ue by (simp add: to_double_def v_def Let_def)
  moreover have "\<bar>sgn q * v - q\<bar> = \<bar>v - ?a\<bar>"
    using q0 by (cases "0 < q") (simp_all add: abs_if algebra_simps)
  ultimately show ?thesis using err by auto
qed

lemma rel_mul:
  fixes a b a' b' :: rat
  assumes "0 \<le> a" "0 \<le> b" "\<bar>a' - a\<bar> \<le> \<epsilon> * a" "\<bar>b' - b\<bar> \<le> \<delta> * b" "0 \<le> \<epsilon>"
  shows "\<bar>a' * b' - a * b\<bar> \<le> (\<epsilon> + \<delta> + \<epsilon> * \<delta>) * (a * b)"
proof -
  have "a' * b' - a * b = (a' - a) * b' + a * (b' - b)" by (simp add: algebra_simps)
  then have "\<bar>a' * b' - a * b\<bar> \<le> \<bar>a' - a\<bar> * \<bar>b'\<bar> + a * \<bar>b' - b\<bar>"
    using assms(1) by (metis abs_mult abs_of_nonneg abs_triangle_ineq)
  also have "\<dots> \<le> (\<epsilon> * a) * ((1 + \<delta>) * b) + a * (\<delta> * b)"
  proof (intro add_mono mult_mono mult_left_mono)
    show "\<bar>b'\<bar> \<le> (1 + \<delta>) * b" using assms(2,4) by (simp add: algebra_simps abs_le_iff)
  qed (use assms in auto)
  also have "\<dots> = (\<epsilon> + \<delta> + \<epsilon> * \<delta>) * (a * b)" by (simp add: algebra_simps)
  finally show ?thesis .
qed

lemma rel_div:
  fixes a b a' b' :: rat
  assumes "0 \<le> a" "0 < b" "\<bar>a' - a\<bar> \<le> \<epsilon> * a" "\<bar>b' - b\<bar> \<le> \<delta> * b" "\<delta> < 1" "0 \<le> \<epsilon>"
  shows "\<bar>a' / b' - a / b\<bar> \<le> (\<epsilon> + \<delta>) / (1 - \<delta>) * (a / b)"
proof -
  have bl: "(1 - \<delta>) * b \<le> b'" using assms(4) by (simp add: algebra_simps abs_le_iff)
  have "0 < (1 - \<delta>) * b" using assms(2,5) by simp
  with bl have b'0: "0 < b'" by linarith
  have "a' / b' - a / b = ((a' - a) * b - a * (b' - b)) / (b * b')"
    using assms(2) b'0 by (simp add: field_simps)
  then have "\<bar>a' / b' - a / b\<bar> = \<bar>(a' - a) * b - a * (b' - b)\<bar> / (b * b')"
    using assms(2) b'0 by simp
  also have "\<dots> \<le> (\<epsilon> * a * b + a * (\<delta> * b)) / (b * b')"
  proof (rule divide_right_mono)
    have "\<bar>(a' - a) * b - a * (b' - b)\<bar> \<le> \<bar>a' - a\<bar> * b + a * \<bar>b' - b\<bar>"
      using assms(1,2) by (metis abs_mult abs_of_nonneg abs_of_pos abs_triangle_ineq4)
    also have "\<dots> \<le> \<epsilon> * a * b + a * (\<delta> * b)"
      using assms by (intro add_mono mult_right_mono mult_left_mono) auto
    finally show "\<bar>(a' - a) * b - a * (b' - b)\<bar> \<le> \<epsilon> * a * b + a * (\<delta> * b)" .
  qed (use assms(2) b'0 in simp)
  also have "\<dots> = (\<epsilon> + \<delta>) * a / b'" using assms(2) b'0 by (simp add: field_simps)
  also have "\<dots> \<le> (\<epsilon> + \<delta>) * a / ((1 - \<delta>) * b)"
  proof (rule divide_left_mono [OF bl])
    have "0 \<le> \<delta> * b" using assms(4) abs_ge_zero [of "b' - b"] by linarith
    then have "0 \<le> \<delta>" using assms(2) by (simp add: zero_le_mult_iff)
    then show "0 \<le> (\<epsilon> + \<delta>) * a" using assms(1,6) by simp
  qed (use assms(2,5) b'0 in simp)
  also have "\<dots> = (\<epsilon> + \<delta>) / (1 - \<delta>) * (a / b)" by simp
  finally show ?thesis .
qed

lemma rel_chain:
  fixes x x' x'' :: rat
  assumes "0 \<le> x" "\<bar>x' - x\<bar> \<le> \<epsilon> * x" "\<bar>x'' - x'\<bar> \<le> \<delta> * x'" "0 \<le> \<delta>"
  shows "\<bar>x'' - x\<bar> \<le> (\<epsilon> + \<delta> + \<epsilon> * \<delta>) * x"
proof -
  have "x' \<le> (1 + \<epsilon>) * x" using assms(2) by (simp add: abs_le_iff algebra_simps)
  then have "\<delta> * x' \<le> \<delta> * ((1 + \<epsilon>) * x)" using assms(4) by (rule mult_left_mono)
  then have "\<bar>x'' - x'\<bar> \<le> \<delta> * ((1 + \<epsilon>) * x)" using assms(3) by linarith
  then show ?thesis using assms(2) by (simp add: abs_le_iff algebra_simps)
qed

text \<open>In the normal range a positive result is rounded with relative error \<open>2^-53\<close>.\<close>

lemma rnd_close:
  fixes q :: rat
  assumes "1 / 2 ^ 1022 \<le> q" "q < 2 ^ 1023"
  shows "\<exists>r. to_double q = Num r \<and> \<bar>r - q\<bar> \<le> 1 / 2 ^ 53 * q \<and> q / 2 \<le> r \<and> r \<le> 2 * q"
proof -
  have "(0::rat) < 1 / 2 ^ 1022" by simp
  with assms(1) have q0: "0 < q" by linarith
  have "power_int 2 (-1022) \<le> \<bar>q\<bar>" "\<bar>q\<bar> < 2 ^ 1023"
    using assms q0 by (simp_all add: power_int_minus_divide)
  from to_double_normal [OF this] obtain r where r: "to_double q = Num r" "\<bar>r - q\<bar> \<le> q / 2 ^ 53"
    using q0 by auto
  moreover have "\<bar>r - q\<bar> \<le> 1 / 2 ^ 53 * q" using r(2) by simp
  moreover have "q / 2 \<le> r \<and> r \<le> 2 * q"
  proof -
    have "q / 2 ^ 53 \<le> q / 2" using q0 by (intro divide_left_mono) simp_all
    then show ?thesis using r(2) q0 by (simp only: abs_le_iff) linarith
  qed
  ultimately show ?thesis by blast
qed

lemma round_even_int [simp]: "round_even (of_int k) = k"
  by (simp add: round_even_def)

text \<open>A double is rounded to itself.\<close>

lemma to_double_exact:
  assumes "0 < m" "m < 2 ^ 53" "-1074 \<le> e" "e \<le> 971"
  shows "to_double (of_int m * power_int 2 e) = Num (of_int m * power_int 2 e)"
proof -
  define q :: rat where "q = of_int m * power_int 2 e"
  have q0: "0 < q" using assms(1) by (simp add: q_def)
  have mr: "(of_int m :: rat) < power_int 2 53" using assms(2)
    by (metis of_int_less_iff of_int_numeral of_int_power power_int_numeral)
  have "q < power_int 2 53 * power_int 2 e" unfolding q_def using mr by simp
  also have "\<dots> = power_int 2 (e + 53)" by (simp add: pow2_add)
  finally have qhi: "q < power_int 2 (e + 53)" .
  then have "power_int 2 (floor_log2 q) < power_int (2::rat) (e + 53)"
    using floor_log2_bounds [OF q0] by linarith
  then have "floor_log2 q \<le> e + 52" by simp
  then have ue: "ulp_exp q \<le> e" using assms(3) by (simp add: ulp_exp_def)
  define k where "k = m * 2 ^ nat (e - ulp_exp q)"
  have "q / power_int 2 (ulp_exp q) = of_int m * power_int 2 (e - ulp_exp q)"
    by (simp add: q_def power_int_diff)
  also have "\<dots> = of_int k" using ue by (simp add: k_def pow2_nat)
  finally have qk: "q / power_int 2 (ulp_exp q) = of_int k" .
  have v: "of_int k * power_int 2 (ulp_exp q) = q" using qk by (simp add: field_simps)
  have "power_int 2 (e + 53) \<le> power_int (2::rat) 1024"
    by (subst pow2_le_iff) (use assms(4) in linarith)
  then have "\<not> 2 ^ 1024 \<le> q" using qhi by simp
  then show ?thesis using q0 qk v by (simp add: to_double_def Let_def q_def [symmetric])
qed


lemma round_even_le: "x \<le> of_int n \<Longrightarrow> round_even x \<le> n"
proof -
  assume x: "x \<le> of_int n"
  have f: "of_int \<lfloor>x\<rfloor> \<le> x" "\<lfloor>x\<rfloor> \<le> n" using x by linarith+
  show ?thesis
  proof (cases "\<lfloor>x\<rfloor> = n")
    case True
    then have "x = of_int n" using f x by linarith
    then show ?thesis by simp
  next
    case False
    then show ?thesis using f by (auto simp: round_even_def Let_def)
  qed
qed

lemma round_even_ge: "of_int n \<le> x \<Longrightarrow> n \<le> round_even x"
proof -
  assume "of_int n \<le> x"
  then have "n \<le> \<lfloor>x\<rfloor>" by linarith
  then show ?thesis by (auto simp: round_even_def Let_def)
qed

lemma to_double_minus:
  "to_double (- q) = (case to_double q of Num r \<Rightarrow> Num (- r) | PosInf \<Rightarrow> NegInf
     | NegInf \<Rightarrow> PosInf | NaN \<Rightarrow> NaN)"
  by (cases "0 < q") (auto simp: to_double_def Let_def)

lemma to_double_exact_int:
  assumes "\<bar>m\<bar> < 2 ^ 53" "-1074 \<le> e" "e \<le> 971"
  shows "to_double (of_int m * power_int 2 e) = Num (of_int m * power_int 2 e)"
proof -
  consider "0 < m" | "m = 0" | "0 < - m" by linarith
  then show ?thesis
  proof cases
    case 3
    have "to_double (of_int (- m) * power_int 2 e) = Num (of_int (- m) * power_int 2 e)"
      using 3 assms by (intro to_double_exact) simp_all
    then show ?thesis using to_double_minus [of "of_int (- m) * power_int 2 e"] by simp
  qed (use assms to_double_exact [of m e] in \<open>simp_all add: to_double_def\<close>)
qed

lemma to_double_fix_sgn: "to_double x = Num x \<Longrightarrow> to_double (sgn q * x) = Num (sgn q * x)"
  unfolding sgn_if by (auto simp: to_double_minus to_double_def [of 0])

text \<open>Rounding is idempotent: every finite result of \<open>to_double\<close> is a double.\<close>

lemma to_double_idem:
  assumes "to_double q = Num r"
  shows "to_double r = Num r"
proof (cases "q = 0")
  case True
  then show ?thesis using assms by (simp add: to_double_def)
next
  case q0: False
  define a where "a = \<bar>q\<bar>"
  define L where "L = floor_log2 a"
  define e where "e = ulp_exp a"
  define m where "m = round_even (a / power_int 2 e)"
  have a0: "0 < a" using q0 by (simp add: a_def)
  have aL: "power_int 2 L \<le> a" "a < power_int 2 (L + 1)"
    using floor_log2_bounds [OF a0] by (simp_all add: L_def)
  have v: "\<not> 2 ^ 1024 \<le> of_int m * power_int (2::rat) e" "r = sgn q * (of_int m * power_int 2 e)"
    using assms q0 by (simp_all add: to_double_def Let_def a_def [symmetric] e_def m_def split: if_splits)
  have eL: "L - 52 \<le> e" "-1074 \<le> e" by (simp_all add: e_def ulp_exp_def L_def)
  have "a / power_int 2 e \<le> a / power_int 2 (L - 52)"
    using a0 eL(1) by (intro divide_left_mono) simp_all
  also have "\<dots> < power_int 2 (L + 1) / power_int 2 (L - 52)"
    using aL(2) by (intro divide_strict_right_mono) simp_all
  also have "\<dots> = of_int (2 ^ 53)" by (simp add: power_int_diff [symmetric] pow2_nat)
  finally have m53: "m \<le> 2 ^ 53" unfolding m_def by (intro round_even_le) simp
  have m0: "0 \<le> m" unfolding m_def using a0 by (intro round_even_ge) simp
  have e_hi: "e \<le> 971" if "0 < m"
  proof (cases "e = -1074")
    case False
    then have e: "e = L - 52" using eL by (simp add: e_def ulp_exp_def L_def)
    have "power_int (2::rat) L = of_int (2 ^ 52) * power_int 2 e"
      using pow2_add [of 52 e] by (simp add: e pow2_nat)
    then have "of_int (2 ^ 52) \<le> a / power_int 2 e"
      using aL(1) by (simp add: le_divide_eq)
    then have "2 ^ 52 \<le> m" unfolding m_def by (rule round_even_ge)
    then have "power_int (2::rat) 52 * power_int 2 e \<le> of_int m * power_int 2 e"
      by (simp add: pow2_nat)
    moreover have "power_int (2::rat) (e + 52) = power_int 2 52 * power_int 2 e"
      by (simp add: power_int_add)
    moreover have "of_int m * power_int 2 e < power_int (2::rat) 1024"
      using v(1) by (simp add: power_int_numeral)
    ultimately have "power_int (2::rat) (e + 52) < power_int 2 1024" by linarith
    then show ?thesis by (simp only: pow2_less_iff)
  qed simp
  consider "m = 0" | "0 < m" "m < 2 ^ 53" | "m = 2 ^ 53" using m0 m53 by linarith
  then show ?thesis
  proof cases
    case 1
    then show ?thesis using v(2) by (simp add: to_double_def)
  next
    case 2
    then show ?thesis using v(2) to_double_exact_int [of m e] eL(2) e_hi
      by (simp add: to_double_fix_sgn)
  next
    case 3
    have "power_int (2::rat) (e + 53) = of_int m * power_int 2 e"
      using 3 by (simp add: power_int_add power_int_numeral)
    moreover have "of_int m * power_int 2 e < power_int (2::rat) 1024"
      using v(1) by (simp add: power_int_numeral)
    ultimately have "power_int (2::rat) (e + 53) < power_int 2 1024" by linarith
    then have e1: "e + 1 \<le> 971" by (simp only: pow2_less_iff)
    have r: "of_int m * power_int 2 e = of_int (2 ^ 52) * power_int (2::rat) (e + 1)"
      using 3 by (simp add: pow2_add)
    show ?thesis using v(2) to_double_exact_int [of "2 ^ 52" "e + 1"] eL(2) e1
      unfolding r by (simp add: to_double_fix_sgn)
  qed
qed


text \<open>Every finite result of \<open>to_double\<close> is an integer multiple of \<open>2^-1074\<close>.\<close>

lemma to_double_repr:
  assumes "to_double q = Num r"
  shows "\<exists>m. r = of_int m * power_int 2 (-1074)"
proof (cases "q = 0")
  case True
  then show ?thesis using assms by (simp add: to_double_def)
next
  case False
  define e where "e = ulp_exp \<bar>q\<bar>"
  define m where "m = round_even (\<bar>q\<bar> / power_int 2 e)"
  have r: "r = sgn q * (of_int m * power_int 2 e)"
    using assms False by (simp add: to_double_def Let_def e_def m_def split: if_splits)
  have e: "-1074 \<le> e" by (simp add: e_def ulp_exp_def)
  have "power_int (2::rat) e = of_int (2 ^ nat (e + 1074)) * power_int 2 (-1074)"
    using pow2_add [of "e + 1074" "-1074"] e by (simp add: pow2_nat)
  then have "r = of_int ((if 0 < q then 1 else -1) * m * 2 ^ nat (e + 1074)) * power_int 2 (-1074)"
    using False by (auto simp: r sgn_if)
  then show ?thesis by blast
qed


text \<open>A non-negative number rounds to a non-negative double or overflows to \<open>Infinity\<close>.\<close>

lemma to_double_nonneg:
  assumes "0 \<le> q"
  shows "(\<exists>r. to_double q = Num r \<and> 0 \<le> r) \<or> to_double q = PosInf"
proof (cases "q = 0")
  case True
  then show ?thesis by (simp add: to_double_def)
next
  case False
  with assms have q: "0 < q" by simp
  define e where "e = ulp_exp q"
  have "0 \<le> round_even (q / power_int 2 e)" using q by (intro round_even_ge) simp
  then have "0 \<le> of_int (round_even (q / power_int 2 e)) * power_int (2::rat) e" by simp
  then show ?thesis using q by (auto simp: to_double_def Let_def e_def)
qed

end
