(* ===== verification/RequestDouble.thy ===== *)
theory RequestDouble
  imports Double Request
begin

text \<open>
  Lines 22--37 of \<open>onSubmit\<close> under binary64 arithmetic: every number of the request
  is the double JavaScript computes, \<open>bmi\<close> rounded once per operation. The theory
  relates it to \<open>build_request\<close> of \<open>Request\<close>, which computes with exact
  rationals: the fields are the rounded exact values, and the double \<open>bmi\<close> is
  within six units of \<open>2^-53\<close>, relative, of the exact one.
\<close>

definition compute_bmi_dbl :: "jsnum \<Rightarrow> jsnum \<Rightarrow> jsnum" where
  "compute_bmi_dbl weight height = dbl_div weight (dbl_mul height height)"

definition build_request_dbl :: "form_values \<Rightarrow> prediction_request" where
  "build_request_dbl data =
     (let weight = parseFloat_dbl (data Weight);
          height = parseFloat_dbl (data Height)
      in \<lparr>gender = data Gender,
          age = parseFloat_dbl (data Age),
          hypertension = parseInt_dbl (data Hypertension),
          heart_disease = parseInt_dbl (data HeartDisease),
          smoking_history = data SmokingHistory,
          bmi = compute_bmi_dbl weight height,
          HbA1c_level = parseFloat_dbl (data HbA1cLevel),
          blood_glucose_level = parseInt_dbl (data BloodGlucoseLevel)\<rparr>)"

text \<open>
  A number as the screen can send it: non-negative, or \<open>Infinity\<close> when the typed
  entry is beyond the binary64 range (a valid entry of 310 digits). \<open>request_ok_dbl\<close>
  is the shape of every payload of a valid form, as JavaScript computes it.
\<close>

definition sent_num :: "jsnum \<Rightarrow> bool" where
  "sent_num x \<longleftrightarrow> nonneg_num x \<or> x = PosInf"

definition request_ok_dbl :: "prediction_request \<Rightarrow> bool" where
  "request_ok_dbl r \<longleftrightarrow>
     gender r \<in> {''Male'', ''Female''} \<and>
     hypertension r \<in> {Num 0, Num 1} \<and> heart_disease r \<in> {Num 0, Num 1} \<and>
     smoking_history r \<in> {''never'', ''current'', ''ex'', ''occasional'', ''No Info''} \<and>
     sent_num (age r) \<and> sent_num (HbA1c_level r) \<and> sent_num (blood_glucose_level r) \<and>
     (sent_num (bmi r) \<or> bmi r = NaN)"

lemma sq_bounds:
  fixes x lo hi :: rat
  assumes "0 \<le> lo" "lo \<le> x" "x \<le> hi"
  shows "lo * lo \<le> x * x \<and> x * x \<le> hi * hi"
  using assms by (auto intro: mult_mono)

lemma bmi_dbl_close:
  fixes w h :: rat
  assumes "1 / 2 ^ 200 \<le> w" "w \<le> 2 ^ 200" "1 / 2 ^ 200 \<le> h" "h \<le> 2 ^ 200"
  shows "\<exists>B. compute_bmi_dbl (to_double w) (to_double h) = Num B \<and>
             \<bar>B - w / (h * h)\<bar> \<le> 6 / 2 ^ 53 * (w / (h * h))"
proof -
  define u :: rat where "u = 1 / 2 ^ 53"
  have u0: "0 \<le> u" by (simp add: u_def)
  obtain W where W: "to_double w = Num W" "\<bar>W - w\<bar> \<le> u * w" "w / 2 \<le> W" "W \<le> 2 * w"
    using rnd_close [of w] assms(1,2) unfolding u_def by fastforce
  obtain H where H: "to_double h = Num H" "\<bar>H - h\<bar> \<le> u * h" "h / 2 \<le> H" "H \<le> 2 * h"
    using rnd_close [of h] assms(3,4) unfolding u_def by fastforce
  have h0: "0 < h" "0 \<le> w" using assms(1,3) by (simp_all add: order_less_le_trans [OF _ assms(3)])
  define e1 where "e1 = u + u + u * u"
  have HH: "\<bar>H * H - h * h\<bar> \<le> e1 * (h * h)"
    unfolding e1_def using h0 H(2) u0 by (intro rel_mul) simp_all
  have "1 / 2 ^ 201 \<le> H" "H \<le> 2 ^ 201" using H(3,4) assms(3,4) by simp_all
  then have HHr: "1 / 2 ^ 402 \<le> H * H" "H * H \<le> 2 ^ 402"
    using sq_bounds [of "1 / 2 ^ 201" H "2 ^ 201"] by simp_all
  obtain P where P: "to_double (H * H) = Num P" "\<bar>P - H * H\<bar> \<le> u * (H * H)"
    "H * H / 2 \<le> P" "P \<le> 2 * (H * H)"
    using rnd_close [of "H * H"] HHr unfolding u_def by fastforce
  define e2 where "e2 = e1 + u + e1 * u"
  have P2: "\<bar>P - h * h\<bar> \<le> e2 * (h * h)"
    unfolding e2_def by (rule rel_chain [OF _ HH P(2) u0]) simp
  have e2_1: "e2 < 1" by (simp add: e2_def e1_def u_def)
  define e3 where "e3 = (u + e2) / (1 - e2)"
  have Q: "\<bar>W / P - w / (h * h)\<bar> \<le> e3 * (w / (h * h))"
    unfolding e3_def using h0 W(2) P2 e2_1 u0 by (intro rel_div) simp_all
  have Pr: "1 / 2 ^ 403 \<le> P" "P \<le> 2 ^ 403" using P(3,4) HHr by simp_all
  have Wr: "1 / 2 ^ 201 \<le> W" "W \<le> 2 ^ 201" using W(3,4) assms(1,2) by simp_all
  have lo: "(1 / 2 ^ 201) / 2 ^ 403 \<le> W / P" by (rule frac_le) (use Pr Wr in simp_all)
  have hi: "W / P \<le> 2 ^ 201 / (1 / 2 ^ 403)" by (rule frac_le) (use Pr Wr in simp_all)
  have c1: "1 / 2 ^ 1022 \<le> (1 / 2 ^ 201) / (2 ^ 403 :: rat)" by simp
  have c2: "2 ^ 201 / (1 / 2 ^ 403) < (2 ^ 1023 :: rat)" by simp
  have Qr: "1 / 2 ^ 1022 \<le> W / P" "W / P < 2 ^ 1023"
    using order_trans [OF c1 lo] le_less_trans [OF hi c2] by simp_all
  obtain B where B: "to_double (W / P) = Num B" "\<bar>B - W / P\<bar> \<le> u * (W / P)"
    using rnd_close [OF Qr] unfolding u_def by fastforce
  have "(0::rat) < 1 / 2 ^ 403" by simp
  with Pr have "0 < P" by linarith
  then have bmi: "compute_bmi_dbl (to_double w) (to_double h) = Num B"
    using W(1) H(1) P(1) B(1) by (simp add: compute_bmi_dbl_def dbl_mul_def dbl_div_def)
  have "\<bar>B - w / (h * h)\<bar> \<le> (e3 + u + e3 * u) * (w / (h * h))"
    by (rule rel_chain [OF _ Q B(2) u0]) (use h0 in simp)
  also have "\<dots> \<le> 6 / 2 ^ 53 * (w / (h * h))"
  proof (rule mult_right_mono)
    show "e3 + u + e3 * u \<le> 6 / 2 ^ 53" by (simp add: e3_def e2_def e1_def u_def)
  qed (use h0 in simp)
  finally show ?thesis using bmi by blast
qed

lemma parse_dbl_validated:
  assumes "form_valid v" "text_field f" "CHR '','' \<notin> set (v f)"
  shows "parseFloat_dbl (v f) = to_double (decimal_value (v f))"
  using parseFloat_literal [OF valid_text_field [OF assms(1,2)] assms(3)]
  by (simp add: parseFloat_dbl_def)

text \<open>
  C22. Rounding does not matter for the screen's \<open>bmi\<close>: for entries between
  \<open>2^-200\<close> and \<open>2^200\<close>, the double JavaScript computes is within \<open>6 * 2^-53\<close>,
  relative, of the exact quotient that \<open>build_request\<close> yields.
\<close>

theorem bmi_double_close:
  assumes "form_valid v" "CHR '','' \<notin> set (v Weight)" "CHR '','' \<notin> set (v Height)"
    and "1 / 2 ^ 200 \<le> decimal_value (v Weight)" "decimal_value (v Weight) \<le> 2 ^ 200"
    and "1 / 2 ^ 200 \<le> decimal_value (v Height)" "decimal_value (v Height) \<le> 2 ^ 200"
  shows "bmi (build_request v) = Num (decimal_value (v Weight) / decimal_value (v Height) ^ 2) \<and>
         (\<exists>B. bmi (build_request_dbl v) = Num B \<and>
              \<bar>B - decimal_value (v Weight) / decimal_value (v Height) ^ 2\<bar> \<le>
                6 / 2 ^ 53 * (decimal_value (v Weight) / decimal_value (v Height) ^ 2))"
proof -
  let ?w = "decimal_value (v Weight)" and ?h = "decimal_value (v Height)"
  have "(0::rat) < 1 / 2 ^ 200" by simp
  with assms(6) have h0: "0 < ?h" by linarith
  have exact: "bmi (build_request v) = Num (?w / ?h ^ 2)"
    using assms(1-3) h0
    by (simp add: build_request_def parseFloat_literal valid_text_field compute_bmi_Num power2_eq_square)
  have "bmi (build_request_dbl v) = compute_bmi_dbl (to_double ?w) (to_double ?h)"
    using assms(1-3) by (simp add: build_request_dbl_def parse_dbl_validated)
  then show ?thesis
    using exact bmi_dbl_close [OF assms(4-7)] by (simp add: power2_eq_square)
qed

theorem bmi_double_close_witness:
  "form_valid sample_values \<and> CHR '','' \<notin> set (sample_values Weight) \<and>
   CHR '','' \<notin> set (sample_values Height) \<and>
   1 / 2 ^ 200 \<le> decimal_value (sample_values Weight) \<and> decimal_value (sample_values Weight) \<le> 2 ^ 200 \<and>
   1 / 2 ^ 200 \<le> decimal_value (sample_values Height) \<and> decimal_value (sample_values Height) \<le> 2 ^ 200 \<and>
   bmi (build_request sample_values) = Num (160 / 7) \<and>
   (\<exists>B. bmi (build_request_dbl sample_values) = Num B \<and> \<bar>B - 160 / 7\<bar> \<le> 6 / 2 ^ 53 * (160 / 7))"
proof -
  have c: "CHR '','' \<notin> set (sample_values Weight)" "CHR '','' \<notin> set (sample_values Height)"
    by (simp_all add: sample_values_def)
  have w: "decimal_value (sample_values Weight) = 70" "decimal_value (sample_values Height) = 7 / 4"
    by (simp_all add: sample_eval)
  have r: "1 / 2 ^ 200 \<le> decimal_value (sample_values Weight)"
    "decimal_value (sample_values Weight) \<le> 2 ^ 200"
    "1 / 2 ^ 200 \<le> decimal_value (sample_values Height)"
    "decimal_value (sample_values Height) \<le> 2 ^ 200"
    by (simp_all add: w)
  show ?thesis
    using bmi_double_close [OF sample_values_valid c r] sample_values_valid c r w
    by (simp add: power2_eq_square)
qed


subsection \<open>The shape of the binary64 payload\<close>

lemma sent_num_simps [simp]:
  "sent_num (Num q) \<longleftrightarrow> 0 \<le> q" "sent_num PosInf" "\<not> sent_num NegInf" "\<not> sent_num NaN"
  by (simp_all add: sent_num_def nonneg_num_def)

lemma to_double_sent: "0 \<le> q \<Longrightarrow> sent_num (to_double q)"
  using to_double_nonneg [of q] by auto

lemma round_sent: "nonneg_num x \<Longrightarrow> sent_num (round_num x)"
  by (cases x) (simp_all add: nonneg_num_def to_double_sent)

lemma dbl_square_sent: "sent_num h \<Longrightarrow> sent_num (dbl_mul h h)"
  by (cases h) (auto simp: dbl_mul_def intro: to_double_sent)

lemma dbl_div_sent: "sent_num w \<Longrightarrow> sent_num p \<Longrightarrow> sent_num (dbl_div w p) \<or> dbl_div w p = NaN"
  by (cases w; cases p) (auto simp: dbl_div_def intro: to_double_sent)

lemma parse_dbl_sent:
  assumes "decimal_literal s"
  shows "sent_num (parseFloat_dbl s) \<and> sent_num (parseInt_dbl s)"
  using round_sent parseFloat_literal_nonneg [OF assms] parseInt_literal_nonneg [OF assms]
  by (simp add: parseFloat_dbl_def parseInt_dbl_def)

lemma parseInt_dbl_flag: "parseInt_dbl ''0'' = Num 0" "parseInt_dbl ''1'' = Num 1"
  using to_double_exact [of 1 0] by (simp_all add: parseInt_dbl_def parseInt_flag to_double_def)

lemma build_request_dbl_ok:
  assumes "form_valid v" "inputs_ok v"
  shows "request_ok_dbl (build_request_dbl v)"
proof -
  have g: "v Gender \<in> {''Male'', ''Female''}"
    using valid_picker_value [OF assms, of Gender] by auto
  have h: "v Hypertension \<in> {''0'', ''1''}"
    using valid_picker_value [OF assms, of Hypertension] by auto
  have d: "v HeartDisease \<in> {''0'', ''1''}"
    using valid_picker_value [OF assms, of HeartDisease] by auto
  have s: "v SmokingHistory \<in> {''never'', ''current'', ''ex'', ''occasional'', ''No Info''}"
    using valid_picker_value [OF assms, of SmokingHistory] by auto
  have nums: "sent_num (parseFloat_dbl (v f)) \<and> sent_num (parseInt_dbl (v f))" if "text_field f" for f
    using parse_dbl_sent [OF valid_text_field [OF assms(1) that]] .
  have "sent_num (compute_bmi_dbl (parseFloat_dbl (v Weight)) (parseFloat_dbl (v Height))) \<or>
        compute_bmi_dbl (parseFloat_dbl (v Weight)) (parseFloat_dbl (v Height)) = NaN"
    unfolding compute_bmi_dbl_def using nums [of Weight] nums [of Height]
    by (intro dbl_div_sent dbl_square_sent) simp_all
  then show ?thesis
    using g h d s nums [of Age] nums [of HbA1cLevel] nums [of BloodGlucoseLevel]
    by (auto simp: request_ok_dbl_def build_request_dbl_def parseInt_dbl_flag)
qed

end
