(* ===== verification/Screen.thy ===== *)
theory Screen
  imports Submit RequestDouble
begin

text \<open>
  The screen as a state machine: the state react-hook-form's \<open>useForm\<close> keeps for
  it (field values, \<open>formState.errors\<close>, \<open>isSubmitted\<close>), the \<open>message\<close> state of
  \<open>useState\<close> (line 20), the requests \<open>onSubmit\<close> has issued and those still
  suspended at one of its two \<open>await\<close>s, and the diagnostic log. The events are the
  UI's (a widget's \<open>field.onChange\<close>, the \<open>Pressable\<close>'s \<open>onPress\<close> =
  \<open>handleSubmit(onSubmit)\<close>, line 240) and the settling of a pending promise, in any
  order the network chooses: this is the interleaving of section 5 of the spec.
  react-hook-form is a library; its behaviour here is modelled from its documented
  defaults: \<open>mode: onSubmit\<close> (no validation before the first submit),
  \<open>reValidateMode: onChange\<close> (once \<open>isSubmitted\<close> holds, every change revalidates the
  changed field), and \<open>handleSubmit\<close> validating all fields and calling the handler only
  when no rule fails. \<open>handleSubmit\<close> sets \<open>isSubmitted\<close> when it finishes: at once
  after a failed validation, but after a successful one only when \<open>await onValid\<close>
  returns, that is when \<open>onSubmit\<close> has finished its request (logged a failure, or set
  the message). The payload is the binary64 one of \<open>RequestDouble\<close>, as JavaScript
  computes it.
\<close>

datatype req_stage = AwaitFetch | AwaitBody

record screen =
  field_values :: form_values
  errors :: "field \<Rightarrow> bool"
  submitted :: bool
  message :: jsval
  sent :: "prediction_request list"
  pending :: "(nat \<times> req_stage) list"
  log :: "log_entry list"

datatype event =
    Change field string
  | Press
  | FetchSettled nat fetch_result
  | BodySettled nat "json option"

text \<open>The screen as mounted: default values, no errors, \<open>useState(null)\<close>.\<close>

definition init_screen :: screen where
  "init_screen =
     \<lparr>field_values = default_values, errors = (\<lambda>f. False), submitted = False,
      message = JsonVal JNull, sent = [], pending = [], log = []\<rparr>"

text \<open>\<open>field.onChange(v)\<close> through the \<open>Controller\<close>.\<close>

definition change_field :: "screen \<Rightarrow> field \<Rightarrow> string \<Rightarrow> screen" where
  "change_field s f v =
     s\<lparr>field_values := (field_values s)(f := v),
       errors := (if submitted s then (errors s)(f := \<not> validate_field f v) else errors s)\<rparr>"

text \<open>
  \<open>handleSubmit(onSubmit)\<close>: validate every field; on success run \<open>onSubmit\<close> up to
  its first \<open>await\<close>, which builds the payload and issues the POST (\<open>isSubmitted\<close> is
  set when that run ends); on failure record the errors and set \<open>isSubmitted\<close>.
\<close>

definition press :: "screen \<Rightarrow> screen" where
  "press s =
     (if form_valid (field_values s) then
        s\<lparr>errors := (\<lambda>f. False),
          sent := sent s @ [build_request_dbl (field_values s)],
          pending := pending s @ [(length (sent s), AwaitFetch)]\<rparr>
      else s\<lparr>errors := field_errors (field_values s), submitted := True\<rparr>)"

definition drop_pending :: "nat \<Rightarrow> (nat \<times> req_stage) list \<Rightarrow> (nat \<times> req_stage) list" where
  "drop_pending n ps = filter (\<lambda>p. fst p \<noteq> n) ps"

text \<open>
  The \<open>fetch\<close> of request \<open>n\<close> settles: continue at line 47. When \<open>onSubmit\<close> ends
  here (a failure is logged), \<open>handleSubmit\<close> finishes and sets \<open>isSubmitted\<close>.
\<close>

definition fetch_settled :: "screen \<Rightarrow> nat \<Rightarrow> fetch_result \<Rightarrow> screen" where
  "fetch_settled s n r =
     (if (n, AwaitFetch) \<in> set (pending s) then
        (case after_fetch r of
           Inr u \<Rightarrow> s\<lparr>pending := map (\<lambda>p. if fst p = n then (n, AwaitBody) else p) (pending s)\<rparr>
         | Inl e \<Rightarrow> s\<lparr>pending := drop_pending n (pending s), log := log s @ [e], submitted := True\<rparr>)
      else s)"

text \<open>
  The \<open>response.json()\<close> of request \<open>n\<close> settles: continue at line 49; \<open>onSubmit\<close>
  ends and \<open>handleSubmit\<close> sets \<open>isSubmitted\<close>.
\<close>

definition body_settled :: "screen \<Rightarrow> nat \<Rightarrow> json option \<Rightarrow> screen" where
  "body_settled s n b =
     (if (n, AwaitBody) \<in> set (pending s) then
        (case after_body b of
           Inr m \<Rightarrow> s\<lparr>message := m, pending := drop_pending n (pending s), submitted := True\<rparr>
         | Inl e \<Rightarrow> s\<lparr>pending := drop_pending n (pending s), log := log s @ [e], submitted := True\<rparr>)
      else s)"

fun screen_step :: "screen \<Rightarrow> event \<Rightarrow> screen" where
  "screen_step s (Change f v) = change_field s f v"
| "screen_step s Press = press s"
| "screen_step s (FetchSettled n r) = fetch_settled s n r"
| "screen_step s (BodySettled n b) = body_settled s n b"

fun run :: "screen \<Rightarrow> event list \<Rightarrow> screen" where
  "run s [] = s"
| "run s (e # es) = run (screen_step s e) es"

text \<open>Events the environment can produce: a picker only delivers one of its items.\<close>

fun event_ok :: "event \<Rightarrow> bool" where
  "event_ok (Change f v) = widget_accepts (field_widget f) v"
| "event_ok _ = True"

inductive reachable :: "screen \<Rightarrow> bool" where
  init: "reachable init_screen"
| step: "reachable s \<Longrightarrow> event_ok e \<Longrightarrow> reachable (screen_step s e)"

text \<open>What the screen renders below the button (lines 243--245).\<close>

datatype result_view = NoResult | ResultText json | RenderError

fun text_child_ok :: "json \<Rightarrow> bool" where
  "text_child_ok (JObject kvs) = False"
| "text_child_ok (JArray xs) = list_all text_child_ok xs"
| "text_child_ok _ = True"

text \<open>
  \<open>{message && <Text>{message}</Text>}\<close>: a falsy \<open>message\<close> is itself the child.
  React renders \<open>undefined\<close>, \<open>null\<close>, \<open>false\<close> and \<open>''''\<close> as nothing; the
  number \<open>0\<close> becomes a bare text child of the \<open>View\<close>, which React Native rejects
  ("Text strings must be rendered within a Text component"). A truthy value is the
  child of \<open>Text\<close>, where an object is not a valid React child.
\<close>

fun render_result :: "jsval \<Rightarrow> result_view" where
  "render_result Undefined = NoResult"
| "render_result (JsonVal JNull) = NoResult"
| "render_result (JsonVal (JBool b)) = (if b then ResultText (JBool b) else NoResult)"
| "render_result (JsonVal (JString t)) = (if t = [] then NoResult else ResultText (JString t))"
| "render_result (JsonVal (JNumber q)) = (if q = 0 then RenderError else ResultText (JNumber q))"
| "render_result (JsonVal j) = (if text_child_ok j then ResultText j else RenderError)"

text \<open>The error texts rendered under the fields, in screen order (lines 80--238).\<close>

definition rendered_errors :: "screen \<Rightarrow> string list" where
  "rendered_errors s = map error_text (filter (errors s) all_fields)"

text \<open>In-flight requests name issued requests, each at most once.\<close>

definition pending_wf :: "screen \<Rightarrow> bool" where
  "pending_wf s \<longleftrightarrow>
     distinct (map fst (pending s)) \<and> (\<forall>p \<in> set (pending s). fst p < length (sent s))"

text \<open>The invariant of the reachable states.\<close>

definition screen_inv :: "screen \<Rightarrow> bool" where
  "screen_inv s \<longleftrightarrow> inputs_ok (field_values s) \<and> list_all request_ok_dbl (sent s) \<and> pending_wf s"

text \<open>The user fills in the form of \<open>sample_values\<close>, field by field.\<close>

definition filled_form :: "event list" where
  "filled_form =
     [Change Gender ''Male'', Change Age ''45'', Change Hypertension ''0'',
      Change HeartDisease ''0'', Change SmokingHistory ''never'', Change Weight ''70'',
      Change Height ''1.75'', Change HbA1cLevel ''5.5'', Change BloodGlucoseLevel ''140'']"

definition submitted_screen :: screen where
  "submitted_screen = run init_screen (filled_form @ [Press])"

definition fetched_screen :: screen where
  "fetched_screen = screen_step submitted_screen (FetchSettled 0 (Response 200 ''OK''))"

subsection \<open>Invariant of the reachable states\<close>

lemma inputs_ok_init: "inputs_ok default_values"
  by (simp add: inputs_ok_def all_fields_def default_values_def)

lemma inputs_ok_update:
  "inputs_ok vals \<Longrightarrow> widget_accepts (field_widget f) v \<Longrightarrow> inputs_ok (vals(f := v))"
  by (simp add: inputs_ok_def list_all_iff)

lemma fst_set_stage: "fst \<circ> (\<lambda>p. if fst p = n then (n, st) else p) = fst"
  by auto

lemma pending_wf_drop: "pending_wf s \<Longrightarrow> sent t = sent s \<Longrightarrow> pending t = drop_pending n (pending s) \<Longrightarrow> pending_wf t"
  by (auto simp: pending_wf_def drop_pending_def distinct_map_filter)

lemma pending_wf_set_stage: "pending_wf s \<Longrightarrow> sent t = sent s \<Longrightarrow>
   pending t = map (\<lambda>p. if fst p = n then (n, st) else p) (pending s) \<Longrightarrow> pending_wf t"
  unfolding pending_wf_def by (auto simp: fst_set_stage)

lemma inv_init: "screen_inv init_screen"
  by (simp add: screen_inv_def init_screen_def inputs_ok_init pending_wf_def)

lemma inv_change: "screen_inv s \<Longrightarrow> widget_accepts (field_widget f) v \<Longrightarrow> screen_inv (change_field s f v)"
  by (simp add: screen_inv_def change_field_def inputs_ok_update pending_wf_def)

lemma inv_press: "screen_inv s \<Longrightarrow> screen_inv (press s)"
proof (cases "form_valid (field_values s)")
  case True
  assume inv: "screen_inv s"
  then have ok: "request_ok_dbl (build_request_dbl (field_values s))"
    using True by (simp add: screen_inv_def build_request_dbl_ok)
  have fresh: "length (sent s) \<notin> fst ` set (pending s)"
    using inv by (auto simp: screen_inv_def pending_wf_def)
  have "pending_wf (press s)"
    using inv fresh True unfolding screen_inv_def pending_wf_def press_def by auto
  moreover have "list_all request_ok_dbl (sent (press s))"
    using inv ok True unfolding screen_inv_def press_def by simp
  moreover have "inputs_ok (field_values (press s))"
    using inv True unfolding screen_inv_def press_def by simp
  ultimately show ?thesis by (simp add: screen_inv_def)
next
  case False
  assume "screen_inv s"
  with False show ?thesis by (simp add: screen_inv_def press_def pending_wf_def)
qed

lemma fetch_settled_frame [simp]:
  "sent (fetch_settled s n r) = sent s"
  "field_values (fetch_settled s n r) = field_values s"
  "message (fetch_settled s n r) = message s"
  by (simp_all add: fetch_settled_def split: sum.split)

lemma body_settled_frame [simp]:
  "sent (body_settled s n b) = sent s"
  "field_values (body_settled s n b) = field_values s"
  by (simp_all add: body_settled_def split: sum.split)

lemma pending_fetch_settled:
  "pending (fetch_settled s n r) = pending s \<or>
   pending (fetch_settled s n r) = drop_pending n (pending s) \<or>
   pending (fetch_settled s n r) = map (\<lambda>p. if fst p = n then (n, AwaitBody) else p) (pending s)"
  by (simp add: fetch_settled_def split: sum.split)

lemma pending_body_settled:
  "pending (body_settled s n b) = pending s \<or>
   pending (body_settled s n b) = drop_pending n (pending s)"
  by (simp add: body_settled_def split: sum.split)

lemma pending_wf_same: "pending_wf s \<Longrightarrow> sent t = sent s \<Longrightarrow> pending t = pending s \<Longrightarrow> pending_wf t"
  by (simp add: pending_wf_def)

lemma inv_fetch: "screen_inv s \<Longrightarrow> screen_inv (fetch_settled s n r)"
  using pending_fetch_settled [of s n r]
  by (auto simp: screen_inv_def intro: pending_wf_same pending_wf_drop pending_wf_set_stage)

lemma inv_body: "screen_inv s \<Longrightarrow> screen_inv (body_settled s n b)"
  using pending_body_settled [of s n b]
  by (auto simp: screen_inv_def intro: pending_wf_same pending_wf_drop)

lemma inv_step: "screen_inv s \<Longrightarrow> event_ok e \<Longrightarrow> screen_inv (screen_step s e)"
  by (cases e) (simp_all add: inv_change inv_press inv_fetch inv_body)

lemma reachable_inv: "reachable s \<Longrightarrow> screen_inv s"
  by (induction rule: reachable.induct) (simp_all add: inv_init inv_step)

lemma reachable_run: "reachable s \<Longrightarrow> list_all event_ok es \<Longrightarrow> reachable (run s es)"
  by (induction es arbitrary: s) (auto intro: reachable.step)

text \<open>
  C1. Every request the screen ever issues has the shape of the binary64 payload: a
  gender of the picker, 0/1 flags, a smoking history of the picker, numbers that are
  non-negative or \<open>Infinity\<close> (an entry beyond the binary64 range), and a \<open>bmi\<close> that
  may moreover be \<open>NaN\<close> (a zero weight over a zero height).
\<close>

theorem sent_requests_ok: "reachable s \<Longrightarrow> r \<in> set (sent s) \<Longrightarrow> request_ok_dbl r"
  using reachable_inv by (auto simp: screen_inv_def list_all_iff)

subsection \<open>Behaviour of the handlers\<close>

text \<open>
  C18. Pressing the button on an invalid form issues no request, leaves the result
  message alone and renders the error text of exactly the failing fields.
\<close>

theorem press_invalid:
  assumes "\<not> form_valid (field_values s)"
  shows "sent (press s) = sent s \<and> pending (press s) = pending s \<and> message (press s) = message s \<and>
         rendered_errors (press s) = map error_text (filter (field_errors (field_values s)) all_fields)"
  using assms by (simp add: press_def rendered_errors_def)

text \<open>
  C2. If any field is empty, pressing the button sends nothing and shows that
  field's error text.
\<close>

theorem empty_field_blocks_submit:
  assumes "field_values s f = []"
  shows "sent (press s) = sent s \<and> error_text f \<in> set (rendered_errors (press s))"
proof -
  have "\<not> validate_field f (field_values s f)" using assms by (simp add: validate_field_iff)
  then have "\<not> form_valid (field_values s)" by (auto simp: form_valid_iff)
  with assms show ?thesis by (simp add: press_def rendered_errors_def field_errors_def validate_field_iff)
qed

text \<open>
  C3. Pressing the button on a valid form issues exactly one POST, of the binary64
  payload built from the current values, suspends it at its first \<open>await\<close>, and
  clears the error texts.
\<close>

theorem press_valid:
  assumes "form_valid (field_values s)"
  shows "sent (press s) = sent s @ [build_request_dbl (field_values s)] \<and>
         pending (press s) = pending s @ [(length (sent s), AwaitFetch)] \<and>
         rendered_errors (press s) = [] \<and> message (press s) = message s"
  using assms by (simp add: press_def rendered_errors_def)

lemma message_change_field [simp]: "message (change_field s f v) = message s"
  by (simp add: change_field_def)

lemma message_press [simp]: "message (press s) = message s"
  by (simp add: press_def)

text \<open>
  C13. The displayed message changes only when the body of a successful response of
  an in-flight request is read, and then it is that body's \<open>message\<close> member.
\<close>

theorem message_only_from_body:
  assumes "message (screen_step s e) \<noteq> message s"
  shows "\<exists>n j. e = BodySettled n (Some j) \<and> (n, AwaitBody) \<in> set (pending s) \<and>
               get_property j ''message'' = Inr (message (screen_step s e))"
proof (cases e)
  case (BodySettled n b)
  with assms have pend: "(n, AwaitBody) \<in> set (pending s)"
    by (auto simp: body_settled_def split: if_splits)
  show ?thesis
  proof (cases b)
    case None
    with BodySettled assms show ?thesis by (simp add: body_settled_def split: if_splits)
  next
    case (Some j)
    with BodySettled assms pend show ?thesis
      by (cases "get_property j ''message''") (auto simp: body_settled_def)
  qed
qed (use assms in simp_all)

text \<open>
  C10. A non-2xx response leaves the displayed message unchanged and only logs the
  status text.
\<close>

theorem failed_fetch_keeps_message:
  assumes "\<not> response_ok st"
  shows "message (fetch_settled s n (Response st txt)) = message s \<and>
         log (fetch_settled s n (Response st txt)) =
           (if (n, AwaitFetch) \<in> set (pending s) then log s @ [LogStatusText txt] else log s)"
  using assms by (simp add: fetch_settled_def)

text \<open>
  C12. A successful response \<open>{"message": m}\<close> shows exactly \<open>m\<close>.
\<close>

theorem success_sets_message:
  assumes "(n, AwaitBody) \<in> set (pending s)" "m \<noteq> []"
  shows "message (body_settled s n (Some (JObject [(''message'', JString m)]))) = JsonVal (JString m) \<and>
         render_result (message (body_settled s n (Some (JObject [(''message'', JString m)])))) =
           ResultText (JString m)"
  using assms by (simp add: body_settled_def)

text \<open>
  C15. When revalidation starts. After a first press on an invalid form, a change
  revalidates the changed field at once (\<open>reValidateMode: onChange\<close>). After a first
  press on a valid form, \<open>isSubmitted\<close> waits for \<open>onSubmit\<close> to finish, so a change
  made while that request is in flight is not validated and shows no error.
\<close>

theorem revalidate_after_submit:
  assumes "\<not> submitted s"
  shows "errors (change_field (press s) f v) f =
           (if form_valid (field_values s) then False else \<not> validate_field f v)"
  using assms by (simp add: change_field_def press_def)

text \<open>
  C16. A successful response whose \<open>message\<close> is the number 0 makes the result
  expression render a bare \<open>0\<close> outside a \<open>Text\<close>, an error in React Native.
\<close>

theorem zero_message_render_error:
  assumes "(n, AwaitBody) \<in> set (pending s)"
  shows "render_result (message (body_settled s n (Some (JObject [(''message'', JNumber 0)])))) = RenderError"
  using assms by (simp add: body_settled_def)

text \<open>
  C17. A successful response without a \<open>message\<close> member sets the message to
  \<open>undefined\<close>: the previous result disappears.
\<close>

theorem missing_message_clears:
  assumes "(n, AwaitBody) \<in> set (pending s)"
  shows "message (body_settled s n (Some (JObject []))) = Undefined \<and>
         render_result (message (body_settled s n (Some (JObject [])))) = NoResult"
  using assms by (simp add: body_settled_def)


text \<open>C11. A rejected \<open>fetch\<close> (network failure) leaves the displayed message unchanged.\<close>

theorem rejected_fetch_keeps_message:
  "message (fetch_settled s n (Rejected e)) = message s \<and>
   log (fetch_settled s n (Rejected e)) =
     (if (n, AwaitFetch) \<in> set (pending s) then log s @ [LogException e] else log s)"
  by (simp add: fetch_settled_def)

subsection \<open>Witnesses\<close>

lemma run_append: "run s (es @ es') = run (run s es) es'"
  by (induction es arbitrary: s) simp_all

lemma filled_screen: "run init_screen filled_form = init_screen\<lparr>field_values := sample_values\<rparr>"
  by (simp add: filled_form_def init_screen_def change_field_def sample_values_def)

lemma submitted_screen_eq:
  "submitted_screen =
   init_screen\<lparr>field_values := sample_values,
     sent := [build_request_dbl sample_values], pending := [(0, AwaitFetch)]\<rparr>"
  unfolding submitted_screen_def run_append filled_screen
  using sample_values_valid by (simp add: press_def init_screen_def)

lemma fetched_screen_eq: "fetched_screen = submitted_screen\<lparr>pending := [(0, AwaitBody)]\<rparr>"
  by (simp add: fetched_screen_def fetch_settled_def submitted_screen_eq response_ok_def)

lemma filled_form_ok: "list_all event_ok (filled_form @ [Press])"
  by (simp add: filled_form_def)

lemma reachable_submitted: "reachable submitted_screen"
  unfolding submitted_screen_def by (rule reachable_run [OF reachable.init filled_form_ok])

lemma reachable_fetched: "reachable fetched_screen"
  unfolding fetched_screen_def by (rule reachable.step [OF reachable_submitted]) simp

theorem sent_requests_ok_witness:
  "reachable submitted_screen \<and> build_request_dbl sample_values \<in> set (sent submitted_screen) \<and>
   request_ok_dbl (build_request_dbl sample_values)"
proof -
  have m: "build_request_dbl sample_values \<in> set (sent submitted_screen)"
    by (simp add: submitted_screen_eq)
  show ?thesis using sent_requests_ok [OF reachable_submitted m] reachable_submitted m by simp
qed

theorem press_invalid_witness:
  "\<not> form_valid (field_values init_screen) \<and> sent (press init_screen) = [] \<and>
   message (press init_screen) = JsonVal JNull"
proof -
  have v: "\<not> form_valid (field_values init_screen)"
    by (simp add: init_screen_def form_valid_def all_fields_def validate_field_def default_values_def)
  show ?thesis using press_invalid [OF v] v by (simp add: init_screen_def)
qed

theorem empty_field_blocks_submit_witness:
  "field_values init_screen Gender = [] \<and> sent (press init_screen) = [] \<and>
   error_text Gender \<in> set (rendered_errors (press init_screen))"
proof -
  have e: "field_values init_screen Gender = []" by (simp add: init_screen_def default_values_def)
  show ?thesis using empty_field_blocks_submit [OF e] e by (simp add: init_screen_def)
qed

theorem press_valid_witness:
  "form_valid (field_values (run init_screen filled_form)) \<and>
   sent (press (run init_screen filled_form)) = [build_request_dbl sample_values]"
proof -
  have v: "form_valid (field_values (run init_screen filled_form))"
    by (simp add: filled_screen sample_values_valid)
  show ?thesis
    using press_valid [OF v, unfolded filled_screen] v unfolding filled_screen
    by (simp add: init_screen_def)
qed

theorem failed_fetch_keeps_message_witness:
  "\<not> response_ok 500 \<and>
   message (fetch_settled submitted_screen 0 (Response 500 ''Internal Server Error'')) = JsonVal JNull \<and>
   log (fetch_settled submitted_screen 0 (Response 500 ''Internal Server Error'')) =
     [LogStatusText ''Internal Server Error'']"
proof -
  have n: "\<not> response_ok 500" by (simp add: response_ok_def)
  show ?thesis using failed_fetch_keeps_message [OF n, of submitted_screen 0] n
    by (simp add: submitted_screen_eq init_screen_def)
qed

theorem success_sets_message_witness:
  "(0, AwaitBody) \<in> set (pending fetched_screen) \<and> ''Low risk'' \<noteq> [] \<and>
   message (body_settled fetched_screen 0 (Some (JObject [(''message'', JString ''Low risk'')]))) =
     JsonVal (JString ''Low risk'')"
proof -
  have p: "(0, AwaitBody) \<in> set (pending fetched_screen)" by (simp add: fetched_screen_eq)
  show ?thesis using success_sets_message [OF p, of "''Low risk''"] p by simp
qed

theorem message_only_from_body_witness:
  "message (screen_step fetched_screen (BodySettled 0 (Some (JObject [(''message'', JString ''Low risk'')]))))
     \<noteq> message fetched_screen \<and>
   (\<exists>n j. BodySettled 0 (Some (JObject [(''message'', JString ''Low risk'')])) = BodySettled n (Some j) \<and>
      (n, AwaitBody) \<in> set (pending fetched_screen))"
proof -
  have c: "message (screen_step fetched_screen (BodySettled 0 (Some (JObject [(''message'', JString ''Low risk'')]))))
     \<noteq> message fetched_screen"
    by (simp add: fetched_screen_eq submitted_screen_eq init_screen_def body_settled_def)
  show ?thesis using message_only_from_body [OF c] c by blast
qed

theorem revalidate_after_submit_witness:
  "\<not> submitted init_screen \<and> \<not> submitted (run init_screen filled_form) \<and>
   errors (change_field (press init_screen) Weight ''7a'') Weight \<and>
   \<not> errors (change_field (press (run init_screen filled_form)) Weight ''7a'') Weight"
proof -
  have s: "\<not> submitted init_screen" by (simp add: init_screen_def)
  have s': "\<not> submitted (run init_screen filled_form)" unfolding filled_screen by (simp add: init_screen_def)
  have i: "\<not> form_valid (field_values init_screen)"
    by (simp add: init_screen_def form_valid_def all_fields_def validate_field_def default_values_def)
  have v: "form_valid (field_values (run init_screen filled_form))"
    by (simp add: filled_screen sample_values_valid)
  have "\<not> validate_field Weight ''7a''" by (simp add: validate_field_def pattern_eval)
  then show ?thesis
    using revalidate_after_submit [OF s, of Weight "''7a''"]
      revalidate_after_submit [OF s', of Weight "''7a''"] s s' i v by simp
qed

theorem zero_message_render_error_witness:
  "(0, AwaitBody) \<in> set (pending fetched_screen) \<and>
   render_result (message (body_settled fetched_screen 0 (Some (JObject [(''message'', JNumber 0)])))) =
     RenderError"
proof -
  have p: "(0, AwaitBody) \<in> set (pending fetched_screen)" by (simp add: fetched_screen_eq)
  show ?thesis using zero_message_render_error [OF p] p by simp
qed

theorem missing_message_clears_witness:
  "(0, AwaitBody) \<in> set (pending fetched_screen) \<and>
   message (body_settled fetched_screen 0 (Some (JObject []))) = Undefined"
proof -
  have p: "(0, AwaitBody) \<in> set (pending fetched_screen)" by (simp add: fetched_screen_eq)
  show ?thesis using missing_message_clears [OF p] p by simp
qed

end
