(* ===== verification/Controller.thy ===== *)
theory Controller
  imports Screen
begin

text \<open>
  The abstract contract of the form controller (spec, section 4.1), and the refinement
  of the screen (\<open>Screen\<close>) to it. The controller's observable state is the form's
  values, the displayed message, and the requests it has sent. Its transitions: a field
  takes a value its widget can deliver; a submission sends the payload of the values
  when all nine rules hold and sends nothing otherwise; once a request has been sent,
  a reply may replace the message; and any other event changes nothing observable. The
  abstract machine is nondeterministic in what the server answers and when.
  \<open>abstract_screen\<close> forgets the screen's error flags, submission flag, in-flight
  bookkeeping and log. The payload sent is the binary64 one, \<open>build_request_dbl\<close>.
\<close>

record controller =
  c_values :: form_values
  c_message :: jsval
  c_outbox :: "prediction_request list"

definition ctrl_init :: controller where
  "ctrl_init = \<lparr>c_values = default_values, c_message = JsonVal JNull, c_outbox = []\<rparr>"

inductive ctrl_step :: "controller \<Rightarrow> controller \<Rightarrow> bool" where
  set_field: "widget_accepts (field_widget f) v \<Longrightarrow>
    c' = c\<lparr>c_values := (c_values c)(f := v)\<rparr> \<Longrightarrow> ctrl_step c c'"
| submit_ok: "form_valid (c_values c) \<Longrightarrow>
    c' = c\<lparr>c_outbox := c_outbox c @ [build_request_dbl (c_values c)]\<rparr> \<Longrightarrow> ctrl_step c c'"
| reply: "c_outbox c \<noteq> [] \<Longrightarrow> c' = c\<lparr>c_message := m\<rparr> \<Longrightarrow> ctrl_step c c'"
| stutter: "ctrl_step c c"

inductive ctrl_reachable :: "controller \<Rightarrow> bool" where
  init: "ctrl_reachable ctrl_init"
| step: "ctrl_reachable c \<Longrightarrow> ctrl_step c c' \<Longrightarrow> ctrl_reachable c'"

definition abstract_screen :: "screen \<Rightarrow> controller" where
  "abstract_screen s = \<lparr>c_values = field_values s, c_message = message s, c_outbox = sent s\<rparr>"

subsection \<open>The contract's own guarantees\<close>

text \<open>
  In every state of the contract the sent requests are payloads of valid forms, and
  a message other than the initial \<open>null\<close> is shown only once a request was sent.
\<close>

definition ctrl_inv :: "controller \<Rightarrow> bool" where
  "ctrl_inv c \<longleftrightarrow> inputs_ok (c_values c) \<and> list_all request_ok_dbl (c_outbox c) \<and>
     (c_outbox c = [] \<longrightarrow> c_message c = JsonVal JNull)"

inductive_cases ctrl_stepE: "ctrl_step c c'"

lemma ctrl_inv_step: "ctrl_inv c \<Longrightarrow> ctrl_step c c' \<Longrightarrow> ctrl_inv c'"
  by (erule ctrl_stepE)
     (auto simp: ctrl_inv_def inputs_ok_update build_request_dbl_ok)

lemma ctrl_reachable_inv: "ctrl_reachable c \<Longrightarrow> ctrl_inv c"
proof (induction rule: ctrl_reachable.induct)
  case init
  then show ?case by (simp add: ctrl_inv_def ctrl_init_def inputs_ok_init)
next
  case (step c c')
  then show ?case using ctrl_inv_step by blast
qed

subsection \<open>Simulation\<close>

lemma abstract_init: "abstract_screen init_screen = ctrl_init"
  by (simp add: abstract_screen_def init_screen_def ctrl_init_def)

lemma abstract_change:
  "widget_accepts (field_widget f) v \<Longrightarrow>
   ctrl_step (abstract_screen s) (abstract_screen (change_field s f v))"
  by (rule ctrl_step.set_field) (simp_all add: abstract_screen_def change_field_def)

lemma abstract_press: "ctrl_step (abstract_screen s) (abstract_screen (press s))"
proof (cases "form_valid (field_values s)")
  case True
  then show ?thesis
    by (intro ctrl_step.submit_ok) (simp_all add: abstract_screen_def press_def)
next
  case False
  then have "abstract_screen (press s) = abstract_screen s"
    by (simp add: abstract_screen_def press_def)
  then show ?thesis by (simp add: ctrl_step.stutter)
qed

lemma abstract_fetch: "abstract_screen (fetch_settled s n r) = abstract_screen s"
  by (simp add: abstract_screen_def)

lemma abstract_body:
  assumes "pending_wf s"
  shows "ctrl_step (abstract_screen s) (abstract_screen (body_settled s n b))"
proof (cases "(n, AwaitBody) \<in> set (pending s)")
  case True
  with assms have "sent s \<noteq> []" by (auto simp: pending_wf_def)
  moreover have "abstract_screen (body_settled s n b) =
      (abstract_screen s)\<lparr>c_message := message (body_settled s n b)\<rparr>"
    by (simp add: abstract_screen_def)
  ultimately show ?thesis
    by (intro ctrl_step.reply) (simp_all add: abstract_screen_def)
next
  case False
  then show ?thesis by (simp add: body_settled_def ctrl_step.stutter)
qed

lemma abstract_step:
  "screen_inv s \<Longrightarrow> event_ok e \<Longrightarrow>
   ctrl_step (abstract_screen s) (abstract_screen (screen_step s e))"
  by (cases e)
     (auto simp: screen_inv_def abstract_change abstract_press abstract_fetch
                 abstract_body ctrl_step.stutter)

lemma abstract_reachable: "reachable s \<Longrightarrow> ctrl_reachable (abstract_screen s)"
proof (induction rule: reachable.induct)
  case init
  then show ?case by (simp add: abstract_init ctrl_reachable.init)
next
  case (step s e)
  then show ?case
    using abstract_step reachable_inv ctrl_reachable.step by blast
qed

text \<open>
  C20. Refinement: every state the screen reaches, seen through \<open>abstract_screen\<close>, is
  a state the controller contract reaches, and so satisfies the contract's invariant;
  each step of the screen is a step of the contract or leaves the observable state
  unchanged.
\<close>

theorem screen_refines_controller:
  "reachable s \<Longrightarrow> ctrl_reachable (abstract_screen s) \<and> ctrl_inv (abstract_screen s)"
  using abstract_reachable ctrl_reachable_inv by blast

theorem screen_refines_controller_witness:
  "reachable fetched_screen \<and> ctrl_reachable (abstract_screen fetched_screen) \<and>
   ctrl_inv (abstract_screen fetched_screen)"
  using reachable_fetched screen_refines_controller [OF reachable_fetched] by simp

text \<open>
  C21. The screen shows a result other than its initial \<open>null\<close> only after it has
  sent a request: the message is never set by anything but a reply.
\<close>

theorem message_after_request:
  "reachable s \<Longrightarrow> message s \<noteq> JsonVal JNull \<Longrightarrow> sent s \<noteq> []"
proof -
  assume r: "reachable s" and m: "message s \<noteq> JsonVal JNull"
  from r have "ctrl_inv (abstract_screen s)"
    using abstract_reachable ctrl_reachable_inv by blast
  with m show "sent s \<noteq> []" by (auto simp: ctrl_inv_def abstract_screen_def)
qed

lemma reachable_replied:
  "reachable (screen_step fetched_screen
     (BodySettled 0 (Some (JObject [(''message'', JString ''Low risk'')]))))"
  by (rule reachable.step [OF reachable_fetched]) simp

theorem message_after_request_witness:
  "message (screen_step fetched_screen
     (BodySettled 0 (Some (JObject [(''message'', JString ''Low risk'')])))) \<noteq> JsonVal JNull \<and>
   sent (screen_step fetched_screen
     (BodySettled 0 (Some (JObject [(''message'', JString ''Low risk'')])))) \<noteq> []"
proof -
  have m: "message (screen_step fetched_screen
     (BodySettled 0 (Some (JObject [(''message'', JString ''Low risk'')])))) \<noteq> JsonVal JNull"
    by (simp add: fetched_screen_eq body_settled_def drop_pending_def)
  show ?thesis using message_after_request [OF reachable_replied m] m by simp
qed

end
