(* ===== verification/JsonText.thy ===== *)
theory JsonText
  imports Json
begin

text \<open>
  The text of a JSON string as \<open>JSON.stringify\<close> writes it (\<open>QuoteJSONString\<close>) and as
  \<open>JSON.parse\<close> reads it back (the string production of the JSON grammar). The
  request body of line 44 carries the two picker values \<open>gender\<close> and
  \<open>smoking_history\<close> and the member names as such strings. Characters of the model
  are the code units 0 to 255, so a \<open>\u\<close> escape above 255 is outside the model and
  is read as a failure.
\<close>

definition short_escapes :: "(char \<times> char) list" where
  "short_escapes =
     [(CHR 0x08, CHR ''b''), (CHR 0x09, CHR ''t''), (CHR 0x0A, CHR ''n''),
      (CHR 0x0C, CHR ''f''), (CHR 0x0D, CHR ''r''), (CHR 0x22, CHR 0x22),
      (CHR 0x5C, CHR 0x5C)]"

definition hex_digit :: "nat \<Rightarrow> char" where
  "hex_digit n = ''0123456789abcdef'' ! n"

definition unicode_escape :: "char \<Rightarrow> string" where
  "unicode_escape c =
     [CHR 0x5C, CHR ''u'', CHR ''0'', CHR ''0'',
      hex_digit (of_char c div 16), hex_digit (of_char c mod 16)]"

definition quote_char :: "char \<Rightarrow> string" where
  "quote_char c =
     (case map_of short_escapes c of
        Some e \<Rightarrow> [CHR 0x5C, e]
      | None \<Rightarrow> if of_char c < (32::nat) then unicode_escape c else [c])"

definition quote_json_string :: "string \<Rightarrow> string" where
  "quote_json_string s = CHR 0x22 # concat (map quote_char s) @ [CHR 0x22]"

definition escape_char :: "char \<Rightarrow> char option" where
  "escape_char e = map_of ((CHR ''/'', CHR ''/'') # map (\<lambda>(c, d). (d, c)) short_escapes) e"

fun parse_str :: "string \<Rightarrow> (string \<times> string) option" where
  "parse_str [] = None"
| "parse_str (c # cs) =
     (if c = CHR 0x22 then Some ([], cs)
      else if c = CHR 0x5C then
        (case cs of
           [] \<Rightarrow> None
         | e # cs' \<Rightarrow>
             if e = CHR ''u'' then
               (let h = take 4 cs' in
                if length h = 4 \<and> list_all (radix_digit 16) h \<and> radix_val 16 h < 256 then
                  map_option (\<lambda>(s, r). (char_of (radix_val 16 h) # s, r)) (parse_str (drop 4 cs'))
                else None)
             else
               (case escape_char e of
                  None \<Rightarrow> None
                | Some d \<Rightarrow> map_option (\<lambda>(s, r). (d # s, r)) (parse_str cs')))
      else if of_char c < (32::nat) then None
      else map_option (\<lambda>(s, r). (c # s, r)) (parse_str cs))"

definition json_ws :: "char \<Rightarrow> bool" where
  "json_ws c \<longleftrightarrow> c \<in> {CHR 0x09, CHR 0x0A, CHR 0x0D, CHR 0x20}"

definition json_parse_string :: "string \<Rightarrow> string option" where
  "json_parse_string t =
     (case dropWhile json_ws t of
        c # cs \<Rightarrow>
          if c = CHR 0x22 then
            (case parse_str cs of
               Some (s, r) \<Rightarrow> if list_all json_ws r then Some s else None
             | None \<Rightarrow> None)
          else None
      | [] \<Rightarrow> None)"

lemma hex_digit_ok:
  assumes "n < 16"
  shows "radix_digit 16 (hex_digit n) \<and> hex_val (hex_digit n) = n"
proof -
  have "\<forall>n \<in> set [0..<16]. radix_digit 16 (hex_digit n) \<and> hex_val (hex_digit n) = n"
    by (simp add: upt_rec hex_digit_def radix_digit_def hex_val_def is_digit_def digit_val_def)
  then show ?thesis using assms by simp
qed

lemma radix_val_unicode:
  assumes "of_char c < (32::nat)"
  shows "radix_val 16 [CHR ''0'', CHR ''0'', hex_digit (of_char c div 16), hex_digit (of_char c mod 16)] =
         of_char c"
proof -
  have "of_char c div 16 < (16::nat)" using assms by simp
  then show ?thesis
    using hex_digit_ok [of "of_char c div 16"] hex_digit_ok [of "of_char c mod 16"]
    by (simp add: radix_val_def hex_val_def is_digit_def digit_val_def)
qed

lemma parse_unicode_escape:
  assumes "of_char c < (32::nat)"
  shows "parse_str (unicode_escape c @ xs) = map_option (\<lambda>(s, r). (c # s, r)) (parse_str xs)"
proof -
  have "of_char c div 16 < (16::nat)" using assms by simp
  then have "list_all (radix_digit 16)
      [CHR ''0'', CHR ''0'', hex_digit (of_char c div 16), hex_digit (of_char c mod 16)]"
    using hex_digit_ok [of "of_char c div 16"] hex_digit_ok [of "of_char c mod 16"]
    by (simp add: radix_digit_def is_digit_def)
  then show ?thesis
    using radix_val_unicode [OF assms] assms by (simp add: unicode_escape_def)
qed

lemma escape_char_short:
  "map_of short_escapes c = Some e \<Longrightarrow> escape_char e = Some c \<and> e \<noteq> CHR ''u''"
  by (drule map_of_SomeD) (auto simp: short_escapes_def escape_char_def)

lemma no_short_escape:
  "map_of short_escapes c = None \<Longrightarrow> c \<noteq> CHR 0x22 \<and> c \<noteq> CHR 0x5C"
  by (auto simp: short_escapes_def split: if_splits)

lemma parse_quote_char:
  "parse_str (quote_char c @ xs) = map_option (\<lambda>(s, r). (c # s, r)) (parse_str xs)"
proof (cases "map_of short_escapes c")
  case None
  then show ?thesis
    using no_short_escape [OF None] parse_unicode_escape [of c xs]
    by (simp add: quote_char_def)
next
  case (Some e)
  then show ?thesis using escape_char_short [OF Some] by (simp add: quote_char_def)
qed

lemma parse_quoted_body:
  "parse_str (concat (map quote_char s) @ CHR 0x22 # rest) = Some (s, rest)"
  by (induction s) (simp_all add: parse_quote_char)

theorem json_string_roundtrip: "json_parse_string (quote_json_string s) = Some s"
  by (simp add: json_parse_string_def quote_json_string_def json_ws_def parse_quoted_body)

end
