(* ===== verification/JsonParse.thy ===== *)
theory JsonParse
  imports JsonText Double
begin

text \<open>
  \<open>JSON.parse\<close>, which \<open>response.json()\<close> applies to the body text (line 48). The
  parser follows the JSON grammar by recursive descent: a value, the rest of an array
  after its first element, an object member, the rest of an object after its first
  member. Each call spends one unit of fuel; \<open>PFuel\<close> is running out, kept apart from
  the syntax error \<open>PFail\<close>, and \<open>parse_total\<close> shows that fuel one more than the length
  of the text is never exhausted, so \<open>json_parse\<close> is the total parser. Numbers are
  read by the JSON number grammar and rounded to binary64; a literal beyond the
  binary64 range (which \<open>JSON.parse\<close> reads as \<open>Infinity\<close>) has no \<open>json\<close> value
  in the model and is rejected.
\<close>

datatype 'a presult = PFail | PFuel | POk 'a

fun pbind :: "'a presult \<Rightarrow> ('a \<Rightarrow> 'b presult) \<Rightarrow> 'b presult" where
  "pbind PFail f = PFail"
| "pbind PFuel f = PFuel"
| "pbind (POk x) f = f x"

text \<open>
  The JSON number grammar \<open>-?(0|[1-9][0-9]*)(.[0-9]+)?([eE][+-]?[0-9]+)?\<close>, part by
  part: each scanner returns what it read, whether its part is well formed, and the
  rest of the text.
\<close>

definition json_sign :: "string \<Rightarrow> bool \<times> string" where
  "json_sign s = (case s of c # r \<Rightarrow> if c = CHR ''-'' then (True, r) else (False, s) | [] \<Rightarrow> (False, s))"

definition json_frac :: "string \<Rightarrow> string \<times> bool \<times> string" where
  "json_frac s =
     (case s of
        d # r \<Rightarrow> if d = CHR ''.'' then (takeWhile is_digit r, takeWhile is_digit r \<noteq> [], dropWhile is_digit r)
                 else ([], True, s)
      | [] \<Rightarrow> ([], True, s))"

definition json_exp :: "string \<Rightarrow> int \<times> bool \<times> string" where
  "json_exp s =
     (case s of
        e # r \<Rightarrow>
          if e = CHR ''e'' \<or> e = CHR ''E'' then
            (let (sg, t) = (case r of
                              x # t \<Rightarrow> if x = CHR ''-'' then (-1, t)
                                       else if x = CHR ''+'' then (1, t) else (1, r)
                            | [] \<Rightarrow> (1, r));
                 ds = takeWhile is_digit t
             in (sg * int (digits_val ds), ds \<noteq> [], dropWhile is_digit t))
          else (0, True, s)
      | [] \<Rightarrow> (0, True, s))"

definition json_number :: "string \<Rightarrow> (rat \<times> string) option" where
  "json_number s =
     (let (neg, s1) = json_sign s;
          ip = takeWhile is_digit s1;
          (fp, ok1, r2) = json_frac (dropWhile is_digit s1);
          (ex, ok2, r3) = json_exp r2
      in if ip = [] \<or> (hd ip = CHR ''0'' \<and> 1 < length ip) \<or> \<not> ok1 \<or> \<not> ok2 then None
         else Some ((if neg then -1 else 1) *
                      scale10 (of_nat (digits_val (ip @ fp)) / 10 ^ length fp) ex, r3))"

definition skip_ws :: "string \<Rightarrow> string" where
  "skip_ws s = dropWhile json_ws s"

fun parse_value :: "nat \<Rightarrow> string \<Rightarrow> (json \<times> string) presult"
  and parse_elems :: "nat \<Rightarrow> string \<Rightarrow> (json list \<times> string) presult"
  and parse_member :: "nat \<Rightarrow> string \<Rightarrow> ((string \<times> json) \<times> string) presult"
  and parse_members :: "nat \<Rightarrow> string \<Rightarrow> ((string \<times> json) list \<times> string) presult" where
  "parse_value 0 s = PFuel"
| "parse_value (Suc n) s =
     (case skip_ws s of
        [] \<Rightarrow> PFail
      | c # cs \<Rightarrow>
          if c = CHR ''n'' then (if take 3 cs = ''ull'' then POk (JNull, drop 3 cs) else PFail)
          else if c = CHR ''t'' then (if take 3 cs = ''rue'' then POk (JBool True, drop 3 cs) else PFail)
          else if c = CHR ''f'' then (if take 4 cs = ''alse'' then POk (JBool False, drop 4 cs) else PFail)
          else if c = CHR 0x22 then
            (case parse_str cs of None \<Rightarrow> PFail | Some (t, r) \<Rightarrow> POk (JString t, r))
          else if c = CHR ''['' then
            (case skip_ws cs of
               d # r \<Rightarrow>
                 if d = CHR '']'' then POk (JArray [], r)
                 else pbind (parse_value n cs) (\<lambda>(v, r). pbind (parse_elems n r)
                        (\<lambda>(vs, r'). POk (JArray (v # vs), r')))
             | [] \<Rightarrow> PFail)
          else if c = CHR ''{'' then
            (case skip_ws cs of
               d # r \<Rightarrow>
                 if d = CHR ''}'' then POk (JObject [], r)
                 else pbind (parse_member n cs) (\<lambda>(kv, r). pbind (parse_members n r)
                        (\<lambda>(kvs, r'). POk (JObject (kv # kvs), r')))
             | [] \<Rightarrow> PFail)
          else if c = CHR ''-'' \<or> is_digit c then
            (case json_number (c # cs) of
               None \<Rightarrow> PFail
             | Some (q, r) \<Rightarrow> (case to_double q of Num x \<Rightarrow> POk (JNumber x, r) | _ \<Rightarrow> PFail))
          else PFail)"
| "parse_elems 0 s = PFuel"
| "parse_elems (Suc n) s =
     (case skip_ws s of
        [] \<Rightarrow> PFail
      | c # cs \<Rightarrow>
          if c = CHR '']'' then POk ([], cs)
          else if c = CHR '','' then
            pbind (parse_value n cs) (\<lambda>(v, r). pbind (parse_elems n r) (\<lambda>(vs, r'). POk (v # vs, r')))
          else PFail)"
| "parse_member 0 s = PFuel"
| "parse_member (Suc n) s =
     (case skip_ws s of
        [] \<Rightarrow> PFail
      | c # cs \<Rightarrow>
          if c = CHR 0x22 then
            (case parse_str cs of
               None \<Rightarrow> PFail
             | Some (k, r) \<Rightarrow>
                 (case skip_ws r of
                    d # r' \<Rightarrow> if d = CHR '':'' then pbind (parse_value n r') (\<lambda>(v, r''). POk ((k, v), r''))
                              else PFail
                  | [] \<Rightarrow> PFail))
          else PFail)"
| "parse_members 0 s = PFuel"
| "parse_members (Suc n) s =
     (case skip_ws s of
        [] \<Rightarrow> PFail
      | c # cs \<Rightarrow>
          if c = CHR ''}'' then POk ([], cs)
          else if c = CHR '','' then
            pbind (parse_member n cs) (\<lambda>(kv, r). pbind (parse_members n r) (\<lambda>(kvs, r'). POk (kv # kvs, r')))
          else PFail)"

text \<open>\<open>JSON.parse(text)\<close>: a value, then nothing but white space.\<close>

definition json_parse :: "string \<Rightarrow> json option" where
  "json_parse t =
     (case parse_value (Suc (length t)) t of
        POk (v, r) \<Rightarrow> if list_all json_ws r then Some v else None
      | _ \<Rightarrow> None)"

text \<open>
  A result that is not out of fuel and, when it succeeds, leaves a rest shorter than
  \<open>l\<close>; \<open>parse_ok n\<close> says that fuel \<open>n\<close> gives such results on every text
  shorter than \<open>n\<close>.
\<close>

definition ok_res :: "nat \<Rightarrow> ('a \<times> string) presult \<Rightarrow> bool" where
  "ok_res l r = (case r of PFail \<Rightarrow> True | PFuel \<Rightarrow> False | POk (x, rest) \<Rightarrow> length rest < l)"

definition parse_ok :: "nat \<Rightarrow> bool" where
  "parse_ok n \<longleftrightarrow> (\<forall>s. length s < n \<longrightarrow>
     ok_res (length s) (parse_value n s) \<and> ok_res (length s) (parse_elems n s) \<and>
     ok_res (length s) (parse_member n s) \<and> ok_res (length s) (parse_members n s))"

lemma ok_res_simps [simp]:
  "ok_res l PFail" "\<not> ok_res l PFuel" "ok_res l (POk (x, r)) \<longleftrightarrow> length r < l"
  by (simp_all add: ok_res_def)

lemma ok_pbind:
  assumes "ok_res l x" "\<And>v r. x = POk (v, r) \<Longrightarrow> ok_res l (f (v, r))"
  shows "ok_res l (pbind x f)"
  using assms by (cases x) (auto simp: ok_res_def)

lemma ok_res_mono: "ok_res l x \<Longrightarrow> l \<le> l' \<Longrightarrow> ok_res l' x"
  by (auto simp: ok_res_def split: presult.splits)

lemma skip_ws_Cons: "skip_ws s = c # cs \<Longrightarrow> length cs < length s"
  using length_dropWhile_le [of json_ws s] by (simp add: skip_ws_def)

lemma drop_while_shorter:
  "takeWhile P xs \<noteq> [] \<Longrightarrow> length (dropWhile P xs) < length xs"
  by (cases xs) (auto simp: le_imp_less_Suc length_dropWhile_le split: if_splits)

lemma parse_str_shorter: "parse_str s = Some (t, r) \<Longrightarrow> length r < length s"
proof (induction s arbitrary: t rule: parse_str.induct)
  case (2 c cs)
  then show ?case
    by (auto simp: Let_def split: if_splits list.splits option.splits)
       (fastforce dest: 2(1) 2(2) 2(3))+
qed simp

lemma json_sign_len: "json_sign s = (neg, t) \<Longrightarrow> length t \<le> length s"
  by (auto simp: json_sign_def split: list.splits if_splits)

lemma json_frac_len: "json_frac s = (f, ok, t) \<Longrightarrow> length t \<le> length s"
  by (auto simp: json_frac_def le_SucI length_dropWhile_le split: list.splits if_splits)

lemma json_exp_len: "json_exp s = (x, ok, t) \<Longrightarrow> length t \<le> length s"
  by (auto simp: json_exp_def Let_def le_SucI length_dropWhile_le
      intro: order_trans [OF length_dropWhile_le] split: list.splits if_splits)

lemma json_number_shorter:
  assumes "json_number s = Some (q, r)"
  shows "length r < length s"
proof -
  obtain neg s1 where sg: "json_sign s = (neg, s1)" by (cases "json_sign s")
  obtain fp ok1 r2 where fr: "json_frac (dropWhile is_digit s1) = (fp, ok1, r2)"
    by (cases "json_frac (dropWhile is_digit s1)") auto
  obtain ex ok2 r3 where ep: "json_exp r2 = (ex, ok2, r3)" by (cases "json_exp r2") auto
  from assms have ip: "takeWhile is_digit s1 \<noteq> []" and r: "r = r3"
    by (auto simp: json_number_def sg fr ep Let_def split: if_splits)
  have "length r3 \<le> length r2" by (rule json_exp_len [OF ep])
  also have "\<dots> \<le> length (dropWhile is_digit s1)" by (rule json_frac_len [OF fr])
  also have "\<dots> < length s1" by (rule drop_while_shorter [OF ip])
  also have "\<dots> \<le> length s" by (rule json_sign_len [OF sg])
  finally show ?thesis by (simp add: r)
qed

lemma ok_seq:
  assumes "ok_res l1 x" "l1 \<le> l" "\<And>v r. x = POk (v, r) \<Longrightarrow> length r < l1 \<Longrightarrow> ok_res l (f (v, r))"
  shows "ok_res l (pbind x f)"
  using assms by (cases x) (auto simp: ok_res_def)

lemma parse_okD:
  assumes "parse_ok n" "length t < n"
  shows "ok_res (length t) (parse_value n t)" "ok_res (length t) (parse_elems n t)"
    "ok_res (length t) (parse_member n t)" "ok_res (length t) (parse_members n t)"
  using assms by (simp_all add: parse_ok_def)

lemma ok_res_if [simp]: "ok_res l (if P then A else B) = (if P then ok_res l A else ok_res l B)"
  by simp

lemma value_ok:
  assumes ok: "parse_ok n" and len: "length s \<le> n"
  shows "ok_res (length s) (parse_value (Suc n) s)"
proof (cases "skip_ws s")
  case Nil
  then show ?thesis by simp
next
  case (Cons c cs)
  have cs: "length cs < length s" by (rule skip_ws_Cons [OF Cons])
  with len have cn: "length cs < n" by linarith
  have arr: "ok_res (length s) (pbind (parse_value n cs) (\<lambda>(v, r). pbind (parse_elems n r)
               (\<lambda>(vs, r'). POk (JArray (v # vs), r'))))"
    by (rule ok_seq [OF parse_okD(1) [OF ok cn]])
       (use cs cn in \<open>auto intro!: ok_seq [OF parse_okD(2) [OF ok]]\<close>)
  have arr': "ok_res (length s) (case skip_ws cs of
       d # r \<Rightarrow> if d = CHR '']'' then POk (JArray [], r) else pbind (parse_value n cs) (\<lambda>(v, r).
         pbind (parse_elems n r) (\<lambda>(vs, r'). POk (JArray (v # vs), r')))
     | [] \<Rightarrow> PFail)"
    using arr cs skip_ws_Cons [of cs] by (auto split: list.splits)
  have obj: "ok_res (length s) (pbind (parse_member n cs) (\<lambda>(kv, r). pbind (parse_members n r)
               (\<lambda>(kvs, r'). POk (JObject (kv # kvs), r'))))"
    by (rule ok_seq [OF parse_okD(3) [OF ok cn]])
       (use cs cn in \<open>auto intro!: ok_seq [OF parse_okD(4) [OF ok]]\<close>)
  have obj': "ok_res (length s) (case skip_ws cs of
       d # r \<Rightarrow> if d = CHR ''}'' then POk (JObject [], r) else pbind (parse_member n cs) (\<lambda>(kv, r).
         pbind (parse_members n r) (\<lambda>(kvs, r'). POk (JObject (kv # kvs), r')))
     | [] \<Rightarrow> PFail)"
    using obj cs skip_ws_Cons [of cs] by (auto split: list.splits)
  have str: "ok_res (length s) (case parse_str cs of None \<Rightarrow> PFail | Some (t, r) \<Rightarrow> POk (JString t, r))"
    using parse_str_shorter [of cs] cs by (auto split: option.splits)
  have num: "ok_res (length s) (case json_number (c # cs) of
       None \<Rightarrow> PFail
     | Some (q, r) \<Rightarrow> (case to_double q of Num x \<Rightarrow> POk (JNumber x, r) | _ \<Rightarrow> PFail))"
    using json_number_shorter [of "c # cs"] cs by (auto split: option.splits jsnum.splits)
  have kw: "length (drop k cs) < length s" for k using cs by simp
  show ?thesis
    unfolding parse_value.simps Cons list.case
    using arr' obj' str num kw by simp
qed

lemma elems_ok:
  assumes ok: "parse_ok n" and len: "length s \<le> n"
  shows "ok_res (length s) (parse_elems (Suc n) s)"
proof (cases "skip_ws s")
  case Nil
  then show ?thesis by simp
next
  case (Cons c cs)
  have cs: "length cs < length s" by (rule skip_ws_Cons [OF Cons])
  with len have cn: "length cs < n" by linarith
  have "ok_res (length s) (pbind (parse_value n cs) (\<lambda>(v, r). pbind (parse_elems n r)
          (\<lambda>(vs, r'). POk (v # vs, r'))))"
    by (rule ok_seq [OF parse_okD(1) [OF ok cn]])
       (use cs cn in \<open>auto intro!: ok_seq [OF parse_okD(2) [OF ok]]\<close>)
  then show ?thesis unfolding parse_elems.simps Cons list.case using cs by simp
qed

lemma member_ok:
  assumes ok: "parse_ok n" and len: "length s \<le> n"
  shows "ok_res (length s) (parse_member (Suc n) s)"
proof (cases "skip_ws s")
  case Nil
  then show ?thesis by simp
next
  case (Cons c cs)
  have cs: "length cs < length s" by (rule skip_ws_Cons [OF Cons])
  have key: "ok_res (length s) (case skip_ws r of
      d # r' \<Rightarrow> if d = CHR '':'' then pbind (parse_value n r') (\<lambda>(v, r''). POk ((k, v), r'')) else PFail
    | [] \<Rightarrow> PFail)" if "parse_str cs = Some (k, r)" for k r
  proof (cases "skip_ws r")
    case (Cons d r')
    have "length r' < length s"
      using skip_ws_Cons [OF Cons] parse_str_shorter [OF that] cs by linarith
    then have "ok_res (length s) (pbind (parse_value n r') (\<lambda>(v, r''). POk ((k, v), r'')))"
      using len by (intro ok_seq [OF parse_okD(1) [OF ok]]) auto
    then show ?thesis using Cons by simp
  qed simp
  show ?thesis
    unfolding parse_member.simps Cons list.case using key by (simp split: option.splits)
qed

lemma members_ok:
  assumes ok: "parse_ok n" and len: "length s \<le> n"
  shows "ok_res (length s) (parse_members (Suc n) s)"
proof (cases "skip_ws s")
  case Nil
  then show ?thesis by simp
next
  case (Cons c cs)
  have cs: "length cs < length s" by (rule skip_ws_Cons [OF Cons])
  with len have cn: "length cs < n" by linarith
  have "ok_res (length s) (pbind (parse_member n cs) (\<lambda>(kv, r). pbind (parse_members n r)
          (\<lambda>(kvs, r'). POk (kv # kvs, r'))))"
    by (rule ok_seq [OF parse_okD(3) [OF ok cn]])
       (use cs cn in \<open>auto intro!: ok_seq [OF parse_okD(4) [OF ok]]\<close>)
  then show ?thesis unfolding parse_members.simps Cons list.case using cs by simp
qed

lemma parse_ok_all: "parse_ok n"
proof (induction n)
  case 0
  then show ?case by (simp add: parse_ok_def)
next
  case (Suc n)
  show ?case
    unfolding parse_ok_def
  proof (intro allI impI conjI)
    fix s :: string
    assume "length s < Suc n"
    then have l: "length s \<le> n" by simp
    show "ok_res (length s) (parse_value (Suc n) s)" by (rule value_ok [OF Suc.IH l])
    show "ok_res (length s) (parse_elems (Suc n) s)" by (rule elems_ok [OF Suc.IH l])
    show "ok_res (length s) (parse_member (Suc n) s)" by (rule member_ok [OF Suc.IH l])
    show "ok_res (length s) (parse_members (Suc n) s)" by (rule members_ok [OF Suc.IH l])
  qed
qed

lemma parse_message_object:
  "parse_value (Suc (Suc (Suc k)))
     (''{'' @ quote_json_string ''message'' @ '':'' @ quote_json_string m @ ''}'') =
   POk (JObject [(''message'', JString m)], [])"
  by (simp add: skip_ws_def json_ws_def quote_json_string_def parse_quoted_body
      quote_char_def short_escapes_def)

lemma json_parse_message:
  "json_parse (''{'' @ quote_json_string ''message'' @ '':'' @ quote_json_string m @ ''}'') =
   Some (JObject [(''message'', JString m)])"
proof -
  let ?t = "''{'' @ quote_json_string ''message'' @ '':'' @ quote_json_string m @ ''}''"
  obtain k where "length ?t = Suc (Suc k)"
    by (simp add: quote_json_string_def)
  then show ?thesis
    using parse_message_object [of k m] by (simp add: json_parse_def)
qed

text \<open>
  With fuel beyond the length of the text the parser never runs out, and a value it
  reads leaves a strictly shorter rest, so the fuel of \<open>json_parse\<close> never cuts a
  parse short.
\<close>

lemma json_parse_terminates:
  "length t < n \<Longrightarrow>
   parse_value n t \<noteq> PFuel \<and> (\<forall>v r. parse_value n t = POk (v, r) \<longrightarrow> length r < length t)"
  using parse_okD(1) [OF parse_ok_all, of t n] by (auto simp: ok_res_def split: presult.splits)

end
