(* ===== verification/Schema.thy ===== *)
theory Schema
  imports RequestDouble
begin

text \<open>
  The payload contract of the specification (section 3, and the API of section 6):
  the request body is an object with the eight members, in this order, of types
  string, number, \<open>0|1\<close>, \<open>0|1\<close>, string, number, number, number. A \<open>json_type\<close> is
  a JSON type of that contract; \<open>conforms\<close> checks a value against an object schema.
  The theorem of this theory says when the binary64 payload of a valid form
  serialises to a conforming body.
\<close>

datatype json_type = TString | TNumber | TOneOf "json list"

fun has_type :: "json_type \<Rightarrow> json \<Rightarrow> bool" where
  "has_type TString j = (case j of JString s \<Rightarrow> True | _ \<Rightarrow> False)"
| "has_type TNumber j = (case j of JNumber q \<Rightarrow> True | _ \<Rightarrow> False)"
| "has_type (TOneOf vs) j = (j \<in> set vs)"

definition conforms :: "(string \<times> json_type) list \<Rightarrow> json \<Rightarrow> bool" where
  "conforms sch j =
     (case j of
        JObject kvs \<Rightarrow> map fst kvs = map fst sch \<and> list_all2 (\<lambda>kv kt. has_type (snd kt) (snd kv)) kvs sch
      | _ \<Rightarrow> False)"

definition request_schema :: "(string \<times> json_type) list" where
  "request_schema =
     [(''gender'', TString), (''age'', TNumber),
      (''hypertension'', TOneOf [JNumber 0, JNumber 1]),
      (''heart_disease'', TOneOf [JNumber 0, JNumber 1]),
      (''smoking_history'', TString), (''bmi'', TNumber),
      (''HbA1c_level'', TNumber), (''blood_glucose_level'', TNumber)]"

lemma number_json_typed [simp]:
  "(case number_json x of JNumber q \<Rightarrow> True | _ \<Rightarrow> False) \<longleftrightarrow> js_is_finite x"
  by (cases x) simp_all

lemma flag_json: "x \<in> {Num 0, Num 1} \<Longrightarrow> number_json x \<in> {JNumber 0, JNumber 1}"
  by auto

text \<open>
  C24. The body of every request sent from a valid form has the types the
  specification promises exactly when its four computed numbers are finite: the
  strings and the \<open>0|1\<close> flags always conform, and a number that overflowed (an entry
  beyond the binary64 range) or a non-finite \<open>bmi\<close> (a height that reads as zero) is
  serialised as \<open>null\<close>, which is not a number.
\<close>

theorem request_conforms:
  assumes "form_valid v" "inputs_ok v"
  shows "conforms request_schema (request_json (build_request_dbl v)) \<longleftrightarrow>
         js_is_finite (age (build_request_dbl v)) \<and> js_is_finite (bmi (build_request_dbl v)) \<and>
         js_is_finite (HbA1c_level (build_request_dbl v)) \<and>
         js_is_finite (blood_glucose_level (build_request_dbl v))"
proof -
  have "request_ok_dbl (build_request_dbl v)" by (rule build_request_dbl_ok [OF assms])
  then have ok: "number_json (hypertension (build_request_dbl v)) \<in> {JNumber 0, JNumber 1}"
    "number_json (heart_disease (build_request_dbl v)) \<in> {JNumber 0, JNumber 1}"
    by (auto simp: request_ok_dbl_def)
  show ?thesis
    using ok by (auto simp: conforms_def request_schema_def request_json_def)
qed

theorem request_conforms_witness:
  "form_valid (sample_values(Height := ''0,75'')) \<and> inputs_ok (sample_values(Height := ''0,75'')) \<and>
   \<not> js_is_finite (bmi (build_request_dbl (sample_values(Height := ''0,75'')))) \<and>
   \<not> conforms request_schema (request_json (build_request_dbl (sample_values(Height := ''0,75''))))"
proof -
  have v': "form_valid (sample_values(Height := ''0,75''))"
    by (simp add: form_valid_def all_fields_def validate_field_def pattern_eval sample_values_def
        default_values_def)
  have i': "inputs_ok (sample_values(Height := ''0,75''))"
    by (simp add: inputs_ok_def all_fields_def sample_values_def default_values_def)
  have z: "parseFloat ((sample_values(Height := ''0,75'')) Height) = Num 0"
    by (simp add: parseFloat_def scan_decimal_def js_space_def is_digit_def digits_val_def
        digit_val_def scale10_def scan_exponent_def)
  have c: "CHR '','' \<notin> set (sample_values Weight)" by (simp add: sample_values_def)
  have "parseFloat_dbl (sample_values Weight) = to_double (decimal_value (sample_values Weight))"
    by (rule parse_dbl_validated [OF sample_values_valid _ c]) simp
  then have w: "parseFloat_dbl ((sample_values(Height := ''0,75'')) Weight) = Num 70"
    using to_double_exact [of 35 1] by (simp add: sample_eval)
  have b: "\<not> js_is_finite (bmi (build_request_dbl (sample_values(Height := ''0,75''))))"
    using z w by (simp add: build_request_dbl_def compute_bmi_dbl_def dbl_mul_def dbl_div_def
        parseFloat_dbl_def to_double_def)
  show ?thesis using request_conforms [OF v' i'] v' i' b by simp
qed

end
