(* ===== verification/NumText.thy ===== *)
theory NumText
  imports JsonParse
begin

text \<open>
  The text of a number in the request body: \<open>JSON.stringify\<close> writes a finite number
  with \<open>Number::toString\<close> (ECMAScript 6.1.6.1.20). For a positive double \<open>x\<close> it
  takes the fewest decimal digits \<open>k\<close>, and digits \<open>s\<close> with exponent \<open>n\<close>, such that
  \<open>s * 10^(n - k)\<close> rounds to \<open>x\<close> (of two such \<open>s\<close> the nearer to \<open>x\<close>, of two
  equally near the even one), and lays them out in one of five forms by the size of
  \<open>n\<close>.
\<close>

definition digit_char :: "nat \<Rightarrow> char" where
  "digit_char d = ''0123456789'' ! d"

fun nat_digits :: "nat \<Rightarrow> string" where
  "nat_digits n = (if n < 10 then [digit_char n] else nat_digits (n div 10) @ [digit_char (n mod 10)])"

declare nat_digits.simps [simp del]

text \<open>
  The layout of \<open>Number::toString\<close> for digits \<open>s\<close> (without leading zero) and
  decimal exponent \<open>n\<close>, \<open>k\<close> being the number of digits: an integer padded with
  zeros, a decimal point inside the digits, a fraction \<open>0.0...\<close>, or exponent form.
\<close>

definition num_format :: "nat \<Rightarrow> int \<Rightarrow> string" where
  "num_format s n =
     (let ds = nat_digits s; k = int (length ds) in
      if k \<le> n \<and> n \<le> 21 then ds @ replicate (nat (n - k)) CHR ''0''
      else if 0 < n \<and> n \<le> 21 then take (nat n) ds @ CHR ''.'' # drop (nat n) ds
      else if -6 < n \<and> n \<le> 0 then CHR ''0'' # CHR ''.'' # replicate (nat (- n)) CHR ''0'' @ ds
      else
        let es = CHR ''e'' # (if 0 \<le> n - 1 then CHR ''+'' else CHR ''-'') # nat_digits (nat \<bar>n - 1\<bar>)
        in if k = 1 then ds @ es else take 1 ds @ CHR ''.'' # drop 1 ds @ es)"

text \<open>A rest of the text at which a number ends.\<close>

definition num_end :: "string \<Rightarrow> bool" where
  "num_end r \<longleftrightarrow>
     (case r of [] \<Rightarrow> True | c # t \<Rightarrow> \<not> is_digit c \<and> c \<noteq> CHR ''.'' \<and> c \<noteq> CHR ''e'' \<and> c \<noteq> CHR ''E'')"

text \<open>
  The choice of digits. \<open>cand_val\<close> is the number \<open>s * 10^e\<close> a candidate denotes. For
  \<open>k\<close> digits, with \<open>p = floor_log 10 x\<close>, the \<open>k\<close>-digit numbers nearest to \<open>x\<close> are the
  floor and the ceiling of \<open>x / 10^(p + 1 - k)\<close>; those that round to \<open>x\<close> are kept and
  the nearer chosen, the even one on a tie. \<open>shortest\<close> tries \<open>k = 1, 2, ...\<close> and stops
  at the first \<open>k\<close> that has a candidate; \<open>digit_bound\<close> is the \<open>k\<close> at which the
  floor is \<open>x\<close> itself, since every double is a multiple of \<open>2^-1074\<close>.
  \<open>strip_zeros\<close> writes the ceiling \<open>10\<close> of a one-digit search as the digit \<open>1\<close>.
\<close>

definition cand_val :: "nat \<times> int \<Rightarrow> rat" where
  "cand_val c = of_nat (fst c) * power_int 10 (snd c)"

definition rounds_to :: "rat \<Rightarrow> nat \<times> int \<Rightarrow> bool" where
  "rounds_to x c \<longleftrightarrow> to_double (cand_val c) = Num x"

definition digit_cands :: "rat \<Rightarrow> nat \<Rightarrow> (nat \<times> int) list" where
  "digit_cands x k =
     (let e = floor_log 10 x + 1 - int k; f = nat \<lfloor>x / power_int 10 e\<rfloor> in [(f, e), (Suc f, e)])"

definition nearest :: "rat \<Rightarrow> (nat \<times> int) list \<Rightarrow> (nat \<times> int) option" where
  "nearest x cs =
     (case cs of
        [] \<Rightarrow> None
      | [c] \<Rightarrow> Some c
      | c1 # c2 # _ \<Rightarrow>
          (let d1 = \<bar>x - cand_val c1\<bar>; d2 = \<bar>cand_val c2 - x\<bar>
           in if d1 < d2 then Some c1 else if d2 < d1 then Some c2
              else if even (fst c1) then Some c1 else Some c2))"

fun shortest :: "rat \<Rightarrow> nat \<Rightarrow> nat \<Rightarrow> (nat \<times> int) option" where
  "shortest x k 0 = None"
| "shortest x k (Suc fuel) =
     (case nearest x (filter (rounds_to x) (digit_cands x k)) of
        Some c \<Rightarrow> Some c
      | None \<Rightarrow> shortest x (Suc k) fuel)"

fun strip_zeros :: "nat \<Rightarrow> int \<Rightarrow> nat \<times> int" where
  "strip_zeros s e = (if 0 < s \<and> s mod 10 = 0 then strip_zeros (s div 10) (e + 1) else (s, e))"

declare strip_zeros.simps [simp del]

definition digit_bound :: "rat \<Rightarrow> nat" where
  "digit_bound x = nat (floor_log 10 x + 1075)"

text \<open>\<open>Number::toString\<close> on a finite double: \<open>0\<close>, a minus sign, or the digits.\<close>

definition pos_text :: "rat \<Rightarrow> string" where
  "pos_text x =
     (case shortest x 1 (digit_bound x) of
        None \<Rightarrow> []
      | Some (s, e) \<Rightarrow> (let (s', e') = strip_zeros s e in num_format s' (e' + int (length (nat_digits s')))))"

definition num_text :: "rat \<Rightarrow> string" where
  "num_text x = (if x = 0 then ''0'' else if x < 0 then CHR ''-'' # pos_text (- x) else pos_text x)"

lemma digit_char_ok: "d < 10 \<Longrightarrow> is_digit (digit_char d) \<and> digit_val (digit_char d) = d"
proof -
  have "\<forall>d \<in> set [0..<10]. is_digit (digit_char d) \<and> digit_val (digit_char d) = d"
    by (simp add: upt_rec digit_char_def is_digit_def digit_val_def)
  then show "d < 10 \<Longrightarrow> ?thesis" by simp
qed

lemma nat_digits_ok: "all_digits (nat_digits n) \<and> digits_val (nat_digits n) = n"
proof (induction n rule: nat_digits.induct)
  case (1 n)
  show ?case
  proof (cases "n < 10")
    case True
    then show ?thesis using digit_char_ok [of n]
      by (simp add: nat_digits.simps digits_val_def)
  next
    case False
    then show ?thesis using 1 digit_char_ok [of "n mod 10"]
      by (simp add: nat_digits.simps)
  qed
qed

lemma nat_digits_ne [simp]: "nat_digits n \<noteq> []"
  by (subst nat_digits.simps) simp

lemma nat_digits_hd: "0 < n \<Longrightarrow> hd (nat_digits n) \<noteq> CHR ''0''"
proof (induction n rule: nat_digits.induct)
  case (1 n)
  show ?case
  proof (cases "n < 10")
    case True
    have "\<forall>d \<in> set [1..<10]. digit_char d \<noteq> CHR ''0''" by (simp add: upt_rec digit_char_def)
    then show ?thesis using True 1(2) by (simp add: nat_digits.simps)
  next
    case False
    then show ?thesis using 1 by (simp add: nat_digits.simps)
  qed
qed

lemma zeros_ok: "all_digits (replicate m CHR ''0'') \<and> digits_val (replicate m CHR ''0'') = 0"
  by (induction m) (simp_all add: digits_val_Cons is_digit_def digit_val_def)

lemma scale10_powi: "scale10 q e = q * power_int 10 e"
proof (cases "0 \<le> e")
  case True
  then show ?thesis by (simp add: scale10_def power_int_nonneg_exp)
next
  case False
  have p: "power_int (10::rat) (- e) = 10 ^ nat (- e)" using False by (intro power_int_nonneg_exp) simp
  have "power_int (10::rat) e = 1 / power_int 10 (- e)" by (metis minus_minus power_int_minus_divide)
  then show ?thesis using False p by (simp add: scale10_def)
qed

lemma num_end_digits:
  "num_end r \<Longrightarrow> takeWhile is_digit r = [] \<and> dropWhile is_digit r = r"
  by (cases r) (simp_all add: num_end_def)

lemma json_frac_end: "num_end r \<Longrightarrow> json_frac r = ([], True, r)"
  by (cases r) (simp_all add: json_frac_def num_end_def)

lemma json_exp_end: "num_end r \<Longrightarrow> json_exp r = (0, True, r)"
  by (cases r) (simp_all add: json_exp_def num_end_def)

lemma json_frac_digits:
  "all_digits fs \<Longrightarrow> fs \<noteq> [] \<Longrightarrow> \<not> is_digit (hd (t @ [CHR ''x''])) \<Longrightarrow>
   json_frac (CHR ''.'' # fs @ t) = (fs, True, t)"
  by (cases t) (simp_all add: json_frac_def digit_scan_simps)

lemma json_exp_digits:
  assumes "num_end r" "sg \<in> {CHR ''+'', CHR ''-''}"
  shows "json_exp (CHR ''e'' # sg # nat_digits m @ r) =
         ((if sg = CHR ''-'' then -1 else 1) * int m, True, r)"
  using assms nat_digits_ok [of m] num_end_digits [OF assms(1)]
  by (auto simp: json_exp_def digit_scan_simps)

lemma json_frac_other: "c \<noteq> CHR ''.'' \<Longrightarrow> json_frac (c # t) = ([], True, c # t)"
  by (simp add: json_frac_def)

lemma dropWhile_no_take: "takeWhile P t = [] \<Longrightarrow> dropWhile P t = t"
  by (cases t) (simp_all split: if_splits)

lemma pow10_shift: "of_nat s / 10 ^ m * power_int (10::rat) e = of_nat s * power_int 10 (e - int m)"
  by (simp add: power_int_diff)

lemma json_number_parts:
  assumes "all_digits ip" "ip \<noteq> []" "hd ip \<noteq> CHR ''0'' \<or> length ip = 1"
    and "takeWhile is_digit t = []" "json_frac t = (fp, True, r2)" "json_exp r2 = (ex, True, r3)"
  shows "json_number (ip @ t) =
         Some (of_nat (digits_val (ip @ fp)) / 10 ^ length fp * power_int 10 ex, r3)"
proof -
  obtain c ip' where ip: "ip = c # ip'" using assms(2) by (cases ip) auto
  have "c \<noteq> CHR ''-''" using assms(1) ip by (auto simp: is_digit_def)
  then have "json_sign (ip @ t) = (False, ip @ t)" by (simp add: json_sign_def ip)
  moreover have "takeWhile is_digit (ip @ t) = ip" "dropWhile is_digit (ip @ t) = t"
    using assms(1,4) dropWhile_no_take [OF assms(4)] by (simp_all add: digit_scan_simps)
  ultimately show ?thesis
    using assms(2,3,5,6) by (auto simp: json_number_def Let_def scale10_powi)
qed

lemma all_digits_take_drop [simp]:
  "all_digits ds \<Longrightarrow> all_digits (take i ds) \<and> all_digits (drop i ds)"
  by (auto simp: all_digits_def list_all_iff dest: in_set_takeD in_set_dropD)

lemma exp_sign_value:
  "(if (if 0 \<le> n - 1 then CHR ''+'' else CHR ''-'') = CHR ''-'' then -1 else 1) * int (nat \<bar>n - 1\<bar>) =
   n - 1"
  by auto

text \<open>Every layout of \<open>num_format\<close> reads back, as a JSON number, as \<open>s * 10^(n - k)\<close>.\<close>

lemma json_number_format:
  assumes s0: "0 < s" and r: "num_end r"
  shows "json_number (num_format s n @ r) =
         Some (of_nat s * power_int 10 (n - int (length (nat_digits s))), r)"
proof -
  define ds where "ds = nat_digits s"
  define k where "k = int (length ds)"
  have ds: "all_digits ds" "digits_val ds = s" "ds \<noteq> []" "hd ds \<noteq> CHR ''0''"
    using nat_digits_ok [of s] nat_digits_hd [OF s0] by (simp_all add: ds_def)
  have k1: "1 \<le> k" using ds(3) by (simp add: k_def Suc_le_eq)
  have rt: "takeWhile is_digit r = []" "json_frac r = ([], True, r)" "json_exp r = (0, True, r)"
    using num_end_digits [OF r] json_frac_end [OF r] json_exp_end [OF r] by simp_all
  have rx: "\<not> is_digit (hd (t @ [CHR ''x'']))" if "t = r \<or> (\<exists>u. t = CHR ''e'' # u)" for t
    using that r by (cases r) (auto simp: num_end_def is_digit_def)
  have goal: "of_nat s * power_int 10 (n - int (length (nat_digits s))) = of_nat s * power_int (10::rat) (n - k)"
    by (simp add: k_def ds_def)
  define es where "es = CHR ''e'' # (if 0 \<le> n - 1 then CHR ''+'' else CHR ''-'') # nat_digits (nat \<bar>n - 1\<bar>)"
  have es: "json_exp (es @ r) = (n - 1, True, r)" "takeWhile is_digit (es @ r) = []"
    "json_frac (es @ r) = ([], True, es @ r)"
    using json_exp_digits [OF r, of "if 0 \<le> n - 1 then CHR ''+'' else CHR ''-''" "nat \<bar>n - 1\<bar>"]
    by (simp_all add: es_def exp_sign_value json_frac_other)
  consider (whole) "k \<le> n \<and> n \<le> 21" | (point) "\<not> (k \<le> n \<and> n \<le> 21)" "0 < n \<and> n \<le> 21"
    | (small) "\<not> (k \<le> n \<and> n \<le> 21)" "\<not> (0 < n \<and> n \<le> 21)" "-6 < n \<and> n \<le> 0"
    | (expo) "\<not> (k \<le> n \<and> n \<le> 21)" "\<not> (0 < n \<and> n \<le> 21)" "\<not> (-6 < n \<and> n \<le> 0)"
    by blast
  then show ?thesis
  proof cases
    case whole
    define m where "m = nat (n - k)"
    have tx: "num_format s n @ r = (ds @ replicate m CHR ''0'') @ r"
      using whole by (simp add: num_format_def Let_def m_def flip: ds_def k_def)
    have "json_number ((ds @ replicate m CHR ''0'') @ r) =
        Some (of_nat (digits_val ((ds @ replicate m CHR ''0'') @ [])) / 10 ^ length ([] :: string) * power_int 10 0, r)"
      by (rule json_number_parts) (use ds zeros_ok [of m] rt in auto)
    moreover have "digits_val (ds @ replicate m CHR ''0'') = s * 10 ^ m"
      using zeros_ok [of m] ds(2) by (simp add: digits_val_append)
    moreover have "power_int (10::rat) (n - k) = 10 ^ m"
      using whole by (simp add: m_def power_int_nonneg_exp)
    ultimately show ?thesis unfolding goal using tx by simp
  next
    case point
    have nk: "nat n < length ds" using point by (simp add: k_def nat_less_iff)
    have tx: "num_format s n @ r = take (nat n) ds @ (CHR ''.'' # drop (nat n) ds @ r)"
      using point by (simp add: num_format_def Let_def flip: ds_def k_def)
    have "json_number (take (nat n) ds @ (CHR ''.'' # drop (nat n) ds @ r)) =
        Some (of_nat (digits_val (take (nat n) ds @ drop (nat n) ds)) / 10 ^ length (drop (nat n) ds) *
              power_int 10 0, r)"
    proof (rule json_number_parts)
      show "json_frac (CHR ''.'' # drop (nat n) ds @ r) = (drop (nat n) ds, True, r)"
        using ds(1) nk rx [of r] by (intro json_frac_digits) simp_all
    qed (use ds point nk rt in \<open>auto simp: hd_take\<close>)
    moreover have "of_nat s / 10 ^ length (drop (nat n) ds) = of_nat s * power_int (10::rat) (n - k)"
      using pow10_shift [of s "length (drop (nat n) ds)" 0] point nk by (simp add: k_def)
    ultimately show ?thesis unfolding goal using tx ds(2) by simp
  next
    case small
    define z where "z = replicate (nat (- n)) CHR ''0''"
    have tx: "num_format s n @ r = [CHR ''0''] @ (CHR ''.'' # (z @ ds) @ r)"
      using small by (simp add: num_format_def Let_def z_def flip: ds_def k_def)
    have "json_number ([CHR ''0''] @ (CHR ''.'' # (z @ ds) @ r)) =
        Some (of_nat (digits_val ([CHR ''0''] @ z @ ds)) / 10 ^ length (z @ ds) * power_int 10 0, r)"
    proof (rule json_number_parts)
      show "json_frac (CHR ''.'' # (z @ ds) @ r) = (z @ ds, True, r)"
        using ds(1,3) zeros_ok [of "nat (- n)"] rx [of r] by (intro json_frac_digits) (simp_all add: z_def)
    qed (use rt in \<open>simp_all add: is_digit_def\<close>)
    moreover have "digits_val ([CHR ''0''] @ z @ ds) = s"
      using zeros_ok [of "nat (- n)"] ds(2) by (simp add: digits_val_append digits_val_Cons z_def digit_val_def)
    moreover have "of_nat s / 10 ^ length (z @ ds) = of_nat s * power_int (10::rat) (n - k)"
      using pow10_shift [of s "length (z @ ds)" 0] small by (simp add: z_def k_def)
    ultimately show ?thesis unfolding goal using tx by simp
  next
    case expo
    have fmt: "num_format s n = (if k = 1 then ds @ es else take 1 ds @ CHR ''.'' # drop 1 ds @ es)"
    proof -
      have c: "(k \<le> n \<and> n \<le> 21) = False" "(0 < n \<and> n \<le> 21) = False"
        "(-6 < n \<and> n \<le> 0) = False"
        using expo by simp_all
      show ?thesis
        unfolding num_format_def Let_def ds_def [symmetric] k_def [symmetric] c if_False
        by (simp add: es_def)
    qed
    show ?thesis
    proof (cases "k = 1")
      case True
      have tx: "num_format s n @ r = ds @ (es @ r)"
        using fmt True by simp
      have "json_number (ds @ (es @ r)) =
          Some (of_nat (digits_val (ds @ [])) / 10 ^ length ([] :: string) * power_int 10 (n - 1), r)"
        by (rule json_number_parts) (use ds es in auto)
      then show ?thesis unfolding goal using tx True ds(2) by simp
    next
      case False
      have k2: "1 < length ds" using False k1 by (simp add: k_def)
      have tx: "num_format s n @ r = take 1 ds @ (CHR ''.'' # drop 1 ds @ es @ r)"
        using fmt False by simp
      have "json_number (take 1 ds @ (CHR ''.'' # drop 1 ds @ es @ r)) =
          Some (of_nat (digits_val (take 1 ds @ drop 1 ds)) / 10 ^ length (drop 1 ds) *
                power_int 10 (n - 1), r)"
      proof (rule json_number_parts)
        show "json_frac (CHR ''.'' # drop 1 ds @ es @ r) = (drop 1 ds, True, es @ r)"
          using ds(1) k2 rx [of "es @ r"] by (intro json_frac_digits) (simp_all add: es_def)
      qed (use ds k2 es in auto)
      moreover have "of_nat s / 10 ^ length (drop 1 ds) * power_int 10 (n - 1) =
          of_nat s * power_int (10::rat) (n - k)"
        using pow10_shift [of s "length (drop 1 ds)" "n - 1"] k2 by (simp add: k_def of_nat_diff)
      ultimately show ?thesis unfolding goal using tx ds(2) by simp
    qed
  qed
qed


subsection \<open>The digit search finds digits that round to the number\<close>

lemma rounds_to_pos: "0 < x \<Longrightarrow> rounds_to x c \<Longrightarrow> 0 < fst c"
  by (cases "fst c = 0") (auto simp: rounds_to_def cand_val_def to_double_def)

lemma nearest_in: "nearest x cs = Some c \<Longrightarrow> c \<in> set cs"
  by (auto simp: nearest_def Let_def split: list.splits if_splits)

lemma nearest_ne: "cs \<noteq> [] \<Longrightarrow> nearest x cs \<noteq> None"
  by (auto simp: nearest_def Let_def split: list.splits)

lemma shortest_sound: "shortest x k fuel = Some c \<Longrightarrow> rounds_to x c"
  by (induction x k fuel rule: shortest.induct) (auto split: option.splits dest: nearest_in)

lemma shortest_found:
  "k \<le> j \<Longrightarrow> j < k + fuel \<Longrightarrow> filter (rounds_to x) (digit_cands x j) \<noteq> [] \<Longrightarrow>
   shortest x k fuel \<noteq> None"
proof (induction fuel arbitrary: k)
  case 0
  then show ?case by simp
next
  case (Suc fuel)
  show ?case
  proof (cases "k = j")
    case True
    then show ?thesis using nearest_ne [OF Suc.prems(3), of x] by (auto split: option.splits)
  next
    case False
    then have "shortest x (Suc k) fuel \<noteq> None" using Suc by simp
    then show ?thesis by (simp split: option.splits)
  qed
qed

lemma strip_zeros_val:
  "strip_zeros s e = (s', e') \<Longrightarrow> 0 < s \<Longrightarrow> cand_val (s', e') = cand_val (s, e) \<and> 0 < s'"
proof (induction s e rule: strip_zeros.induct)
  case (1 s e)
  show ?case
  proof (cases "s mod 10 = 0")
    case True
    have s: "s = 10 * (s div 10)" using True by presburger
    then have "0 < s div 10" using 1(3) by linarith
    moreover have "cand_val (s div 10, e + 1) = cand_val (s, e)"
      by (subst (2) s) (simp add: cand_val_def power_int_add)
    ultimately show ?thesis using 1 True by (simp add: strip_zeros.simps [of s e])
  next
    case False
    then show ?thesis using 1 by (simp add: strip_zeros.simps [of s e])
  qed
qed

lemma pow_minus_nat: "power_int (b::rat) (- int N) = 1 / b ^ N"
  by (simp add: power_int_minus_divide)

lemma grid_pos: "x = of_int m * power_int (2::rat) (- int N) \<Longrightarrow> 0 < x \<Longrightarrow> 0 < m"
  using zero_less_mult_pos2 [of "of_int m" "power_int (2::rat) (- int N)"] by simp

lemma floor_log_ge_grid:
  assumes "x = of_int m * power_int 2 (- int N)" "0 < x"
  shows "- int N \<le> floor_log 10 x"
proof -
  have m0: "1 \<le> m" using grid_pos [OF assms] by simp
  have "(1::rat) / 10 ^ N \<le> 1 / 2 ^ N" by (intro divide_left_mono power_mono) simp_all
  also have "\<dots> \<le> of_int m / 2 ^ N" using m0 by (intro divide_right_mono) simp_all
  also have "\<dots> = x" by (simp add: assms(1) pow_minus_nat)
  also have "x < power_int (of_nat 10) (floor_log 10 x + 1)"
    using floor_log_bounds [OF assms(2), of 10] by simp
  finally have "power_int (of_nat 10) (- int N) < power_int (of_nat 10 :: rat) (floor_log 10 x + 1)"
    by (simp add: pow_minus_nat)
  then show ?thesis by (subst (asm) powb_less_iff) simp_all
qed

lemma exact_cand_grid:
  assumes "x = of_int m * power_int 2 (- int N)" "0 < x" "to_double x = Num x"
    and "floor_log 10 x + 1 - int j = - int N"
  shows "rounds_to x (hd (digit_cands x j))"
proof -
  have m0: "0 < m" using grid_pos [OF assms(1,2)] .
  have "x / power_int 10 (- int N) = of_int m / 2 ^ N * 10 ^ N" by (simp add: assms(1) pow_minus_nat)
  also have "\<dots> = of_int (m * 5 ^ N)"
  proof -
    have "(10::rat) ^ N = 2 ^ N * 5 ^ N" by (simp add: power_mult_distrib [symmetric])
    then show ?thesis by simp
  qed
  finally have q: "x / power_int 10 (- int N) = of_int (m * 5 ^ N)" .
  have "cand_val (nat (m * 5 ^ N), - int N) = x"
    using q m0 by (simp add: cand_val_def field_simps)
  moreover have "\<lfloor>x / power_int 10 (- int N)\<rfloor> = m * 5 ^ N"
    unfolding q by (rule floor_of_int)
  ultimately show ?thesis using assms(3)
    by (simp only: digit_cands_def Let_def assms(4) rounds_to_def list.sel)
qed

lemma double_grid:
  assumes "to_double x = Num x"
  shows "\<exists>m. x = of_int m * power_int 2 (- int 1074)"
  using to_double_repr [OF assms] by simp

lemma double_floor_log:
  assumes "to_double x = Num x" "0 < x"
  shows "- int 1074 \<le> floor_log 10 x"
  using double_grid [OF assms(1)] floor_log_ge_grid assms(2) by blast

text \<open>At \<open>k = digit_bound x\<close> the scale is \<open>10^-1074\<close>, and the floor is exact.\<close>

lemma exact_cand:
  assumes "to_double x = Num x" "0 < x"
  shows "rounds_to x (hd (digit_cands x (digit_bound x)))"
proof -
  have "floor_log 10 x + 1 - int (digit_bound x) = - int 1074"
    using double_floor_log [OF assms] by (simp add: digit_bound_def)
  then show ?thesis using double_grid [OF assms(1)] exact_cand_grid assms by blast
qed

lemma shortest_some:
  assumes "to_double x = Num x" "0 < x"
  shows "shortest x 1 (digit_bound x) \<noteq> None"
proof -
  have j: "1 \<le> digit_bound x" using double_floor_log [OF assms] by (simp add: digit_bound_def)
  have "hd (digit_cands x (digit_bound x)) \<in> set (filter (rounds_to x) (digit_cands x (digit_bound x)))"
    using exact_cand [OF assms] by (simp add: digit_cands_def Let_def)
  then show ?thesis
    using j by (intro shortest_found [of 1 "digit_bound x"]) (auto simp: filter_empty_conv)
qed

text \<open>
  The digit search terminates with an answer: for every positive double the fuel
  \<open>digit_bound x\<close> is enough, and the digits found denote a number that rounds back
  to the double.
\<close>

lemma shortest_total:
  assumes "to_double x = Num x" "0 < x"
  shows "\<exists>s e. shortest x 1 (digit_bound x) = Some (s, e) \<and> rounds_to x (s, e) \<and> 0 < s"
proof -
  obtain s e where se: "shortest x 1 (digit_bound x) = Some (s, e)" using shortest_some [OF assms] by auto
  moreover have "rounds_to x (s, e)" using se by (rule shortest_sound)
  ultimately show ?thesis using rounds_to_pos [OF assms(2)] by fastforce
qed

subsection \<open>The text of a double reads back as that double\<close>

lemma num_format_hd: "0 < s \<Longrightarrow> num_format s n \<noteq> [] \<and> is_digit (hd (num_format s n))"
proof -
  obtain d ds' where d: "nat_digits s = d # ds'" by (cases "nat_digits s") auto
  have "is_digit d" using nat_digits_ok [of s] by (simp add: d all_digits_def)
  then show ?thesis by (auto simp: num_format_def Let_def d take_Cons' is_digit_def)
qed

lemma json_number_minus:
  "t \<noteq> [] \<Longrightarrow> is_digit (hd t) \<Longrightarrow>
   json_number (CHR ''-'' # t) = map_option (\<lambda>(q, r). (- q, r)) (json_number t)"
  by (cases t) (auto simp: json_number_def json_sign_def is_digit_def split: prod.splits)

lemma json_number_zero: "num_end r \<Longrightarrow> json_number (''0'' @ r) = Some (0, r)"
  using json_number_parts [of "''0''" r "[]" r 0 r] num_end_digits json_frac_end json_exp_end
  by (simp add: all_digits_def is_digit_def digits_val_def digit_val_def)

lemma pos_text_reads:
  assumes "to_double x = Num x" "0 < x" "num_end r"
  shows "\<exists>q. json_number (pos_text x @ r) = Some (q, r) \<and> to_double q = Num x \<and>
             pos_text x \<noteq> [] \<and> is_digit (hd (pos_text x))"
proof -
  obtain s e where se: "shortest x 1 (digit_bound x) = Some (s, e)" "rounds_to x (s, e)" "0 < s"
    using shortest_total [OF assms(1,2)] by blast
  obtain s' e' where st: "strip_zeros s e = (s', e')" by fastforce
  note sv = strip_zeros_val [OF st se(3)]
  have ptx: "pos_text x = num_format s' (e' + int (length (nat_digits s')))"
    using se(1) st by (simp add: pos_text_def)
  have "json_number (pos_text x @ r) = Some (cand_val (s', e'), r)"
    unfolding ptx using json_number_format [OF conjunct2 [OF sv] assms(3)] by (simp add: cand_val_def)
  moreover have "to_double (cand_val (s', e')) = Num x" using se(2) sv by (simp add: rounds_to_def)
  ultimately show ?thesis using num_format_hd [OF conjunct2 [OF sv]] ptx by simp
qed


lemma num_text_reads:
  assumes "to_double x = Num x" "num_end r"
  shows "\<exists>c t q. num_text x = c # t \<and> (c = CHR ''-'' \<or> is_digit c) \<and>
           json_number (num_text x @ r) = Some (q, r) \<and> to_double q = Num x"
proof -
  consider "x = 0" | "x < 0" | "0 < x" by linarith
  then show ?thesis
  proof cases
    case 1
    then show ?thesis using json_number_zero [OF assms(2)]
      by (simp add: num_text_def to_double_def is_digit_def)
  next
    case 2
    have "to_double (- x) = Num (- x)" using to_double_minus [of x] assms(1) by simp
    then obtain q where q: "json_number (pos_text (- x) @ r) = Some (q, r)" "to_double q = Num (- x)"
      "pos_text (- x) \<noteq> []" "is_digit (hd (pos_text (- x)))"
      using pos_text_reads [OF _ _ assms(2), of "- x"] 2 by auto
    have "json_number (num_text x @ r) = Some (- q, r)"
      using 2 q json_number_minus [of "pos_text (- x) @ r"] by (simp add: num_text_def)
    moreover have "to_double (- q) = Num x" using to_double_minus [of q] q(2) by simp
    ultimately show ?thesis using 2 by (simp add: num_text_def)
  next
    case 3
    then obtain q where q: "json_number (pos_text x @ r) = Some (q, r)" "to_double q = Num x"
      "pos_text x \<noteq> []" "is_digit (hd (pos_text x))"
      using pos_text_reads [OF assms(1) _ assms(2)] by auto
    then show ?thesis using 3 by (cases "pos_text x") (auto simp: num_text_def)
  qed
qed

end
