(* ===== verification/JsonStringify.thy ===== *)
theory JsonStringify
  imports NumText
begin

text \<open>
  \<open>JSON.stringify\<close> on a JSON value (\<open>SerializeJSONProperty\<close> without indentation):
  \<open>null\<close>, \<open>true\<close>, \<open>false\<close>, a number by \<open>Number::toString\<close>, a string by
  \<open>QuoteJSONString\<close>, an array as its elements separated by commas in brackets, an
  object as its members \<open>"key":value\<close> separated by commas in braces, in order.
  \<open>dbl_json\<close> says every number of a value is a double, as every number of a
  JavaScript value is.
\<close>

text \<open>The members of an array or object, separated by commas.\<close>

fun commas :: "string list \<Rightarrow> string" where
  "commas [] = []"
| "commas [x] = x"
| "commas (x # y # zs) = x @ CHR '','' # commas (y # zs)"

fun json_text :: "json \<Rightarrow> string" where
  "json_text JNull = ''null''"
| "json_text (JBool b) = (if b then ''true'' else ''false'')"
| "json_text (JNumber q) = num_text q"
| "json_text (JString s) = quote_json_string s"
| "json_text (JArray vs) = CHR ''['' # commas (map json_text vs) @ '']''"
| "json_text (JObject kvs) =
     CHR ''{'' # commas (map (\<lambda>(k, v). quote_json_string k @ CHR '':'' # json_text v) kvs) @ ''}''"

fun dbl_json :: "json \<Rightarrow> bool" where
  "dbl_json (JNumber q) \<longleftrightarrow> to_double q = Num q"
| "dbl_json (JArray vs) \<longleftrightarrow> list_all dbl_json vs"
| "dbl_json (JObject kvs) \<longleftrightarrow> list_all (\<lambda>(k, v). dbl_json v) kvs"
| "dbl_json _ \<longleftrightarrow> True"


subsection \<open>Reading the text back\<close>

lemma commas_Cons: "commas (x # xs) = x @ concat (map (\<lambda>y. CHR '','' # y) xs)"
  by (induction xs arbitrary: x) auto

lemma sep_pairs: "(\<lambda>x. c # (case x of (k, v) \<Rightarrow> f k v)) = (\<lambda>(k, v). c # f k v)"
  by auto

lemma skip_ws_start: "\<not> json_ws c \<Longrightarrow> skip_ws (c # t) = c # t"
  by (simp add: skip_ws_def)

lemma num_end_close [simp]: "num_end (CHR '']'' # r)" "num_end (CHR ''}'' # r)"
  by (simp_all add: num_end_def is_digit_def)

lemma num_end_sep [simp]:
  "num_end (c # r) \<Longrightarrow> num_end (concat (map (\<lambda>y. CHR '','' # f y) xs) @ c # r)"
  by (cases xs) (simp_all add: num_end_def is_digit_def)

lemma num_end_sep2 [simp]:
  "num_end (c # r) \<Longrightarrow> num_end (concat (map (\<lambda>(k, v). CHR '','' # f k v) xs) @ c # r)"
  by (cases xs) (auto simp: num_end_def is_digit_def)

lemma json_text_start:
  "dbl_json j \<Longrightarrow> \<exists>c t. json_text j = c # t \<and> \<not> json_ws c \<and> c \<noteq> CHR '']'' \<and> c \<noteq> CHR ''}''"
proof (cases j)
  case (JNumber q)
  assume "dbl_json j"
  then obtain c t q' where "num_text q = c # t" "c = CHR ''-'' \<or> is_digit c"
    using num_text_reads [of q "[]"] JNumber by (auto simp: num_end_def)
  then show ?thesis using JNumber by (auto simp: json_ws_def is_digit_def)
qed (auto simp: json_ws_def quote_json_string_def)

lemma parse_member_text:
  "parse_value n (json_text v @ r) = POk (v, r) \<Longrightarrow>
   parse_member (Suc n) (quote_json_string k @ CHR '':'' # json_text v @ r) = POk ((k, v), r)"
  by (simp add: quote_json_string_def skip_ws_def json_ws_def parse_quoted_body)

lemma parse_elems_text:
  assumes "\<And>v r n. v \<in> set vs \<Longrightarrow> num_end r \<Longrightarrow> length (json_text v) < n \<Longrightarrow>
             parse_value n (json_text v @ r) = POk (v, r)"
    and "length (concat (map (\<lambda>v. CHR '','' # json_text v) vs)) < n"
  shows "parse_elems n (concat (map (\<lambda>v. CHR '','' # json_text v) vs) @ CHR '']'' # r) = POk (vs, r)"
  using assms
proof (induction vs arbitrary: n)
  case Nil
  then obtain n' where "n = Suc n'" by (cases n) auto
  then show ?case by (simp add: skip_ws_def json_ws_def)
next
  case (Cons v vs)
  then obtain n' where n: "n = Suc n'" by (cases n) auto
  let ?rest = "concat (map (\<lambda>v. CHR '','' # json_text v) vs) @ CHR '']'' # r"
  have "parse_value n' (json_text v @ ?rest) = POk (v, ?rest)"
    using Cons.prems n by (intro Cons.prems(1)) simp_all
  moreover have "parse_elems n' ?rest = POk (vs, r)"
    using Cons.prems n by (intro Cons.IH) auto
  ultimately show ?case by (simp add: n skip_ws_def json_ws_def)
qed

lemma parse_members_text:
  assumes "\<And>k v r n. (k, v) \<in> set kvs \<Longrightarrow> num_end r \<Longrightarrow> length (json_text v) < n \<Longrightarrow>
             parse_value n (json_text v @ r) = POk (v, r)"
    and "length (concat (map (\<lambda>(k, v). CHR '','' # quote_json_string k @ CHR '':'' # json_text v) kvs)) < n"
  shows "parse_members n (concat (map (\<lambda>(k, v). CHR '','' # quote_json_string k @ CHR '':'' # json_text v) kvs)
           @ CHR ''}'' # r) = POk (kvs, r)"
  using assms
proof (induction kvs arbitrary: n)
  case Nil
  then obtain n' where "n = Suc n'" by (cases n) auto
  then show ?case by (simp add: skip_ws_def json_ws_def)
next
  case (Cons kv kvs)
  obtain k v where kv: "kv = (k, v)" by fastforce
  from Cons.prems obtain n' where n: "n = Suc (Suc n')"
    by (cases n; cases "n - 1") (auto simp: kv quote_json_string_def)
  let ?rest = "concat (map (\<lambda>(k, v). CHR '','' # quote_json_string k @ CHR '':'' # json_text v) kvs)
           @ CHR ''}'' # r"
  have "parse_value n' (json_text v @ ?rest) = POk (v, ?rest)"
    using Cons.prems n kv by (intro Cons.prems(1) [of k]) auto
  then have "parse_member (Suc n') (quote_json_string k @ CHR '':'' # json_text v @ ?rest) = POk ((k, v), ?rest)"
    by (rule parse_member_text)
  moreover have "parse_members (Suc n') ?rest = POk (kvs, r)"
    using Cons.prems n kv by (intro Cons.IH) (auto simp: quote_json_string_def)
  ultimately show ?case by (simp add: n kv skip_ws_def json_ws_def)
qed


lemma parse_json_text:
  "dbl_json j \<Longrightarrow> num_end r \<Longrightarrow> length (json_text j) < n \<Longrightarrow>
   parse_value n (json_text j @ r) = POk (j, r)"
proof (induction j arbitrary: r n)
  case JNull
  then obtain n' where "n = Suc n'" by (cases n) auto
  then show ?case by (simp add: skip_ws_def json_ws_def)
next
  case (JBool b)
  then obtain n' where "n = Suc n'" by (cases n) auto
  then show ?case by (simp add: skip_ws_def json_ws_def)
next
  case (JNumber q)
  then obtain n' where n: "n = Suc n'" by (cases n) auto
  obtain c t q' where c: "num_text q = c # t" "c = CHR ''-'' \<or> is_digit c"
    "json_number (num_text q @ r) = Some (q', r)" "to_double q' = Num q"
    using num_text_reads [of q r] JNumber.prems by auto
  have "\<not> json_ws c" "c \<noteq> CHR ''n''" "c \<noteq> CHR ''t''" "c \<noteq> CHR ''f''" "c \<noteq> CHR 0x22"
    "c \<noteq> CHR ''[''" "c \<noteq> CHR ''{''"
    using c(2) by (auto simp: json_ws_def is_digit_def)
  then show ?case using c by (simp add: n skip_ws_start)
next
  case (JString s)
  then obtain n' where "n = Suc n'" by (cases n) auto
  then show ?case by (simp add: skip_ws_def json_ws_def quote_json_string_def parse_quoted_body)
next
  case (JArray vs)
  then obtain n' where n: "n = Suc n'" by (cases n) auto
  show ?case
  proof (cases vs)
    case Nil
    then show ?thesis by (simp add: n skip_ws_def json_ws_def)
  next
    case (Cons v vs')
    let ?rest = "concat (map (\<lambda>v. CHR '','' # json_text v) vs') @ CHR '']'' # r"
    have jt: "json_text (JArray vs) @ r = CHR ''['' # json_text v @ ?rest"
      by (simp add: Cons commas_Cons comp_def sep_pairs)
    have len: "length (json_text v) + length (concat (map (\<lambda>v. CHR '','' # json_text v) vs')) < n'"
      using JArray.prems(3) by (simp add: n Cons commas_Cons comp_def sep_pairs)
    obtain c t where ct: "json_text v = c # t" "\<not> json_ws c" "c \<noteq> CHR '']''"
      using json_text_start [of v] JArray.prems(1) Cons by auto
    have "parse_value n' (json_text v @ ?rest) = POk (v, ?rest)"
      using JArray Cons len by (intro JArray.IH) auto
    moreover have "parse_elems n' ?rest = POk (vs', r)"
      using JArray Cons len by (intro parse_elems_text) (auto simp: list_all_iff)
    ultimately show ?thesis
      unfolding jt using ct Cons by (simp add: n skip_ws_def json_ws_def)
  qed
next
  case (JObject kvs)
  then obtain n' where n: "n = Suc n'" by (cases n) auto
  show ?case
  proof (cases kvs)
    case Nil
    then show ?thesis by (simp add: n skip_ws_def json_ws_def)
  next
    case (Cons kv kvs')
    obtain k v where kv: "kv = (k, v)" by fastforce
    let ?rest = "concat (map (\<lambda>(k, v). CHR '','' # quote_json_string k @ CHR '':'' # json_text v) kvs')
       @ CHR ''}'' # r"
    have jt: "json_text (JObject kvs) @ r = CHR ''{'' # quote_json_string k @ CHR '':'' # json_text v @ ?rest"
      by (simp add: Cons kv commas_Cons comp_def sep_pairs)
    have len: "length (quote_json_string k) + length (json_text v) +
        length (concat (map (\<lambda>(k, v). CHR '','' # quote_json_string k @ CHR '':'' # json_text v) kvs')) < n'"
      using JObject.prems(3) by (simp add: n Cons kv commas_Cons comp_def sep_pairs)
    from len obtain n'' where n': "n' = Suc n''"
      by (cases n') (auto simp: quote_json_string_def)
    have "parse_value n'' (json_text v @ ?rest) = POk (v, ?rest)"
      using JObject Cons kv n' len by (intro JObject.IH [of kv]) (auto simp: quote_json_string_def)
    then have "parse_member n' (quote_json_string k @ CHR '':'' # json_text v @ ?rest) = POk ((k, v), ?rest)"
      unfolding n' by (rule parse_member_text)
    moreover have "parse_members n' ?rest = POk (kvs', r)"
      using JObject Cons kv len by (intro parse_members_text) (auto intro: JObject.IH simp: list_all_iff)
    ultimately show ?thesis
      unfolding jt using Cons kv by (simp add: n skip_ws_def json_ws_def quote_json_string_def)
  qed
qed


lemma commas_middle: "\<exists>pre post. commas (xs @ y # zs) = pre @ y @ post"
proof (induction xs)
  case Nil
  show ?case
    by (rule exI [of _ "[]"], rule exI [of _ "concat (map (\<lambda>y. CHR '','' # y) zs)"]) (simp add: commas_Cons)
next
  case (Cons x xs)
  then obtain pre post where "commas (xs @ y # zs) = pre @ y @ post" by blast
  moreover obtain u us where "xs @ y # zs = u # us" by (cases xs) auto
  ultimately show ?case by (metis append.assoc append_Cons commas.simps(3))
qed

text \<open>The text of an object contains the text \<open>"k":v\<close> of each of its members.\<close>

lemma json_text_member:
  "\<exists>pre post. json_text (JObject (kvs @ (k, x) # kvs')) =
     pre @ quote_json_string k @ CHR '':'' # json_text x @ post"
proof -
  obtain pre post where
    "commas (map (\<lambda>(k, v). quote_json_string k @ CHR '':'' # json_text v) kvs @
       (quote_json_string k @ CHR '':'' # json_text x) #
       map (\<lambda>(k, v). quote_json_string k @ CHR '':'' # json_text v) kvs') =
     pre @ (quote_json_string k @ CHR '':'' # json_text x) @ post"
    using commas_middle by blast
  then show ?thesis by (intro exI [of _ "CHR ''{'' # pre"] exI [of _ "post @ ''}''"]) simp
qed

text \<open>
  Round trip of \<open>JSON.stringify\<close> and \<open>JSON.parse\<close>: the text the serialiser
  writes for a JSON value whose numbers are doubles is read back by the parser as
  that same value (strings with every escape, numbers by their shortest decimal
  digits, arrays and objects at any depth).
\<close>

lemma json_roundtrip: "dbl_json j \<Longrightarrow> json_parse (json_text j) = Some j"
proof -
  assume j: "dbl_json j"
  have "parse_value (Suc (length (json_text j))) (json_text j @ []) = POk (j, [])"
    using j by (intro parse_json_text) (simp_all add: num_end_def)
  then show ?thesis by (simp add: json_parse_def)
qed

end
