(* ===== verification/RequestBody.thy ===== *)
theory RequestBody
  imports JsonStringify RequestDouble
begin

text \<open>
  The body of the prediction request, \<open>body: JSON.stringify(requestData)\<close>
  (\<open>src/src/app/index.tsx\<close>, line 44): the text of the payload that \<open>onSubmit\<close>
  builds under binary64 arithmetic (lines 22--37). Every number of that payload is
  a double, so the server's \<open>JSON.parse\<close> reads the body back as the payload itself.
\<close>

definition request_body :: "form_values \<Rightarrow> string" where
  "request_body data = json_text (request_json (build_request_dbl data))"

lemma round_num_dbl: "dbl_json (number_json (round_num x))"
proof (cases x)
  case (Num q)
  then show ?thesis using to_double_idem [of q]
    by (cases "to_double q") simp_all
qed simp_all

lemma request_dbl: "dbl_json (request_json (build_request_dbl v))"
  by (simp add: request_json_def build_request_dbl_def Let_def compute_bmi_dbl_def dbl_div_def
      parseFloat_dbl_def parseInt_dbl_def round_num_dbl)

text \<open>
  The server's \<open>JSON.parse\<close> reads the body back as the payload itself: every number
  of the payload is a double (or not finite, and written \<open>null\<close>).
\<close>

lemma request_body_parse:
  "json_parse (request_body v) = Some (request_json (build_request_dbl v))"
  unfolding request_body_def by (rule json_roundtrip [OF request_dbl])

text \<open>
  C7. What the server receives as \<open>age\<close> and \<open>HbA1c_level\<close>: the Number value of
  the typed decimal when it is written with a point; with a decimal comma,
  \<open>parseFloat\<close> stops at the comma and only the integer part is sent. An entry beyond
  the binary64 range arrives as \<open>null\<close>.
\<close>

theorem received_float_fields:
  assumes "form_valid v"
  shows "\<exists>j. json_parse (request_body v) = Some j \<and>
           get_property j ''age'' = Inr (JsonVal (number_json (to_double
             (if CHR '','' \<in> set (v Age) then of_int \<lfloor>decimal_value (v Age)\<rfloor> else decimal_value (v Age))))) \<and>
           get_property j ''HbA1c_level'' = Inr (JsonVal (number_json (to_double
             (if CHR '','' \<in> set (v HbA1cLevel) then of_int \<lfloor>decimal_value (v HbA1cLevel)\<rfloor>
              else decimal_value (v HbA1cLevel)))))"
  using assms
  by (simp add: request_body_parse request_json_def build_request_dbl_def Let_def parseFloat_dbl_def
      parseFloat_validated valid_text_field)

text \<open>
  C8. What the server receives as \<open>blood_glucose_level\<close>: the entry is read with
  \<open>parseInt\<close>, so a validated entry with a fraction arrives truncated to the Number
  value of its integer part.
\<close>

theorem received_glucose_truncated:
  assumes "form_valid v"
  shows "\<exists>j. json_parse (request_body v) = Some j \<and>
           get_property j ''blood_glucose_level'' =
             Inr (JsonVal (number_json (to_double (of_int \<lfloor>decimal_value (v BloodGlucoseLevel)\<rfloor>))))"
  using assms
  by (simp add: request_body_parse request_json_def build_request_dbl_def Let_def parseInt_dbl_def
      parseInt_literal valid_text_field)

theorem received_float_fields_witness:
  "form_valid (sample_values(Age := ''45,5'')) \<and>
   (\<exists>j. json_parse (request_body (sample_values(Age := ''45,5''))) = Some j \<and>
      get_property j ''age'' = Inr (JsonVal (JNumber 45)) \<and>
      get_property j ''HbA1c_level'' = Inr (JsonVal (JNumber (11 / 2))))"
proof -
  have v: "form_valid (sample_values(Age := ''45,5''))"
    by (simp add: form_valid_def all_fields_def validate_field_def pattern_eval sample_values_def
        default_values_def)
  have a: "\<lfloor>(455 :: rat) / 10\<rfloor> = 45" by (simp add: floor_eq_iff)
  have d: "to_double 45 = Num 45" "to_double (11 / 2) = Num (11 / 2)"
    using to_double_exact [of 45 0] to_double_exact [of 11 "-1"] by simp_all
  show ?thesis using received_float_fields [OF v] v a d by (simp add: sample_eval)
qed

theorem received_glucose_truncated_witness:
  "form_valid (sample_values(BloodGlucoseLevel := ''140.9'')) \<and>
   (\<exists>j. json_parse (request_body (sample_values(BloodGlucoseLevel := ''140.9''))) = Some j \<and>
      get_property j ''blood_glucose_level'' = Inr (JsonVal (JNumber 140)))"
proof -
  have v: "form_valid (sample_values(BloodGlucoseLevel := ''140.9''))"
    by (simp add: form_valid_def all_fields_def validate_field_def pattern_eval sample_values_def
        default_values_def)
  have f: "\<lfloor>(1409 :: rat) / 10\<rfloor> = 140" by (simp add: floor_eq_iff)
  have d: "to_double 140 = Num 140" using to_double_exact [of 35 2] by simp
  show ?thesis using received_glucose_truncated [OF v] v f d by (simp add: sample_eval)
qed

end
