(* ===== verification/Render.thy ===== *)
theory Render
  imports Screen
begin

text \<open>
  What \<open>HomeScreen\<close> returns (\<open>src/src/app/index.tsx\<close>, lines 58--247), as the list of
  the elements inside its \<open>View\<close>, top to bottom: the title, then for each field its
  label \<open>Text\<close>, the widget its \<open>Controller\<close> renders (a \<open>Picker\<close> with
  \<open>selectedValue={field.value}\<close> and its items, or a \<open>TextInput\<close> with
  \<open>value={field.value}\<close> and its placeholder) and, when \<open>errors.<field>\<close> is set, the
  error \<open>Text\<close>; then the \<open>Pressable\<close> with the text \<open>Enviar\<close>, and the result
  \<open>{message && ...}\<close> unless it renders nothing. Styles are not part of the model; the
  error and result texts are told apart from the labels by their constructors, as the
  code tells them apart by their style. Non-ASCII letters are written by their code, as
  in \<open>Form\<close>; \<open>CHR 0xEA\<close> is the e with circumflex and \<open>CHR 0xE7\<close> the c with cedilla.
\<close>

datatype element =
    EText string
  | EError string
  | EPicker field string "(string \<times> string) list"
  | EInput field string string
  | EButton string
  | EResult result_view

definition title :: string where
  "title = ''Predi'' @ [CHR 0xE7, CHR 0xE3] @ ''o de Diabetes''"

fun field_label :: "field \<Rightarrow> string" where
  "field_label Gender = ''G'' @ [CHR 0xEA] @ ''nero''"
| "field_label Age = ''Idade''"
| "field_label Hypertension = ''Hipertens'' @ [CHR 0xE3] @ ''o''"
| "field_label HeartDisease = ''Doen'' @ [CHR 0xE7] @ ''a Card'' @ [CHR 0xED] @ ''aca''"
| "field_label SmokingHistory = ''Hist'' @ [CHR 0xF3] @ ''rico de Fumo''"
| "field_label Weight = ''Peso (kg)''"
| "field_label Height = ''Altura (m)''"
| "field_label HbA1cLevel = ''N'' @ [CHR 0xED] @ ''vel de HbA1c''"
| "field_label BloodGlucoseLevel = ''N'' @ [CHR 0xED] @ ''vel de Glicose no Sangue''"

text \<open>The \<open>render\<close> prop of a field's \<open>Controller\<close>, given \<open>field.value\<close>.\<close>

definition widget_element :: "field \<Rightarrow> string \<Rightarrow> element" where
  "widget_element f v =
     (case field_widget f of Picker items \<Rightarrow> EPicker f v items | TextInput ph \<Rightarrow> EInput f v ph)"

text \<open>One field's block: label, controlled widget, error text when flagged.\<close>

definition field_elements :: "screen \<Rightarrow> field \<Rightarrow> element list" where
  "field_elements s f =
     [EText (field_label f), widget_element f (field_values s f)] @
     (if errors s f then [EError (error_text f)] else [])"

definition render_screen :: "screen \<Rightarrow> element list" where
  "render_screen s =
     EText title # concat (map (field_elements s) all_fields) @ [EButton ''Enviar''] @
     (if render_result (message s) = NoResult then [] else [EResult (render_result (message s))])"

lemma field_in_all: "f \<in> set all_fields"
  by (cases f) (simp_all add: all_fields_def)

lemma picker_rendered:
  assumes "EPicker f v items \<in> set (render_screen s)"
  shows "field_widget f = Picker items \<and> v = field_values s f"
proof -
  from assms obtain g where "EPicker f v items \<in> set (field_elements s g)"
    by (auto simp: render_screen_def split: if_splits)
  then show ?thesis
    by (auto simp: field_elements_def widget_element_def split: widget.splits if_splits)
qed

end
