(* ===== verification/Spec2Isabelle.thy ===== *)
theory Spec2Isabelle
  imports Controller JsonParse RequestDouble Schema RequestBody Render
begin

text \<open>
  \<^bold>\<open>A verification development of the diabetes-prediction screen.\<close>

  The repository is one React Native screen, \<open>HomeScreen\<close> in
  \<open>src/src/app/index.tsx\<close>. It collects nine form fields through react-hook-form
  (\<open>useForm\<close>, one \<open>Controller\<close> per field, each rendering a \<open>Picker\<close> or a
  \<open>TextInput\<close> with its validation rules), validates them when the button is pressed
  (\<open>handleSubmit(onSubmit)\<close>), computes a body-mass index, POSTs a JSON payload to
  \<open>http://127.0.0.1:5000/predict\<close>, and shows the \<open>message\<close> member of a successful
  response (\<open>useState\<close> \<open>message\<close>). Network and parse failures are logged with
  \<open>console.error\<close>. The parts interact only through the state of the screen and the two
  \<open>await\<close>s of \<open>onSubmit\<close>, which let responses arrive in any order.

  \<^bold>\<open>Theories, in import order.\<close>
  \<^item> \<open>Prelude\<close>: decimal digits and the value of a digit string, shared list lemmas
    (\<open>digit_scan_simps\<close>), the \<open>model_simps\<close> collection.
  \<^item> \<open>Regex\<close>: the regular expressions of the \<open>pattern\<close> rules and
    \<open>RegExp.prototype.test\<close> for an anchored pattern: the datatype \<open>rexp\<close>, the
    language \<open>lang\<close>, an executable Brzozowski-derivative matcher \<open>matches\<close>, and
    \<open>matches_correct\<close>: the matcher decides the language.
  \<^item> \<open>JsNum\<close>: JavaScript numbers (\<open>jsnum\<close>: exact finite values and the three
    non-finite ones), \<open>Number::multiply\<close> and \<open>Number::divide\<close> (\<open>js_mul\<close>,
    \<open>js_div\<close>), and the library parsers \<open>parseFloat\<close> and \<open>parseInt\<close>, with
    lemmas on digit strings (\<open>parseFloat_dot\<close>, \<open>parseFloat_stop\<close>,
    \<open>parseInt_unsigned\<close>).
  \<^item> \<open>Json\<close>: JSON values, \<open>SerializeJSONProperty\<close> on numbers
    (\<open>number_json\<close>), property reads on parsed values (\<open>get_property\<close>, with
    \<open>TypeError\<close> on \<open>null\<close>).
  \<^item> \<open>Double\<close>: binary64 rounding of a rational (\<open>to_double\<close>: nearest double,
    ties to even, subnormals, overflow to \<open>Infinity\<close>; the exponent from
    \<open>floor_log\<close>, the floor of a logarithm computed with \<open>floorlog\<close>). Its relative
    error is \<open>2^-53\<close> in the normal range (\<open>to_double_normal\<close>). It is exact on
    doubles (\<open>to_double_exact\<close>) and idempotent (\<open>to_double_idem\<close>). Every double is a
    multiple of \<open>2^-1074\<close> (\<open>to_double_repr\<close>). The theory also has the rounded operations
    \<open>dbl_mul\<close>, \<open>dbl_div\<close>, \<open>parseFloat_dbl\<close>, \<open>parseInt_dbl\<close>.
  \<^item> \<open>RequestDouble\<close>: \<open>build_request_dbl\<close>, lines 22--37 in binary64, with the
    error bound of its \<open>bmi\<close> (C22), the shape of every request it builds from a
    valid form (\<open>request_ok_dbl\<close>, \<open>build_request_dbl_ok\<close>). This is the payload
    the screen sends.
  \<^item> \<open>JsonText\<close>: the text of a JSON string as \<open>JSON.stringify\<close> writes it
    (\<open>quote_json_string\<close>, \<open>QuoteJSONString\<close>) and as \<open>JSON.parse\<close> reads it
    (\<open>parse_str\<close>, \<open>json_parse_string\<close>), with the round trip
    \<open>json_string_roundtrip\<close>; used for the string members of the body.
  \<^item> \<open>JsonParse\<close>: \<open>JSON.parse\<close>, which \<open>response.json()\<close> applies to the body
    text (line 48): recursive descent over values, arrays and objects (\<open>parse_value\<close>
    and its three companions), the JSON number grammar (\<open>json_number\<close>) with
    binary64 rounding, and \<open>json_parse\<close> for a whole text. Each call spends one unit of
    fuel; \<open>parse_ok_all\<close> shows fuel beyond the text length is never exhausted, which
    is why \<open>json_parse\<close> passes that much.
  \<^item> \<open>NumText\<close>: \<open>Number::toString\<close>, which \<open>JSON.stringify\<close> applies to every
    number of the body. \<open>num_format\<close> lays out digits \<open>s\<close> and exponent \<open>n\<close> in
    the five forms of the specification. \<open>shortest\<close> searches the digit count \<open>k\<close>
    upwards; at each \<open>k\<close> its candidates (\<open>digit_cands\<close>) are the floor and the
    ceiling of \<open>x / 10^(p+1-k)\<close>. Of those that round to \<open>x\<close> (\<open>rounds_to\<close>) it
    keeps the nearer, the even one on a tie (\<open>nearest\<close>). \<open>num_text\<close> adds \<open>0\<close> and
    the minus sign. Lemmas:
    \<^item> \<open>json_number_format\<close>: every layout reads back, as a JSON number, as
      \<open>s * 10^(n-k)\<close>;
    \<^item> \<open>shortest_total\<close>: the search always answers;
    \<^item> \<open>num_text_reads\<close>: the text of a double reads back as a number that rounds
      to that double.
  \<^item> \<open>JsonStringify\<close>: \<open>JSON.stringify\<close> of any JSON value (\<open>json_text\<close>:
    literals, numbers, quoted strings, arrays and objects joined by \<open>commas\<close>).
    \<open>json_roundtrip\<close> shows that \<open>json_parse\<close> reads the text back as the value
    whenever its numbers are doubles (\<open>dbl_json\<close>). The proof is an induction over
    nested values, with fuel the length of the text (\<open>parse_json_text\<close>).
  \<^item> \<open>Form\<close>: the field table of lines 7--238: \<open>field\<close>, \<open>all_fields\<close>,
    \<open>default_values\<close>, \<open>field_widget\<close> (picker items and placeholders),
    \<open>rules\<close> with \<open>decimal_pattern\<close> = \<open>/^[0-9]+([,.][0-9]+)?$/\<close>,
    \<open>error_text\<close>; react-hook-form's per-field validation \<open>validate_field\<close>,
    \<open>field_errors\<close> and \<open>form_valid\<close>. Lemmas: the language of the pattern is the
    spec's decimal literals (\<open>lang_decimal_pattern\<close>, C5), the form is valid exactly
    when every field is filled and every text field is a decimal literal (C4), a numeric
    field rejects any entry with a letter, sign or space (C6).
  \<^item> \<open>Request\<close>: lines 24--37 and 44 of \<open>onSubmit\<close>: the record
    \<open>prediction_request\<close>, \<open>compute_bmi\<close> (line 26), \<open>build_request\<close>,
    \<open>request_json\<close>. Its numbers are the exact mathematical values of the code's
    expressions, before rounding: the reference reading that \<open>RequestDouble\<close> rounds
    and bounds (C22, C25), and the reading under which a zero height yields a
    non-finite \<open>bmi\<close> (C9). The screen does not send this payload.
  \<^item> \<open>Schema\<close>: the payload types of the specification as a schema
    (\<open>json_type\<close>, \<open>has_type\<close>, \<open>conforms\<close>, \<open>request_schema\<close>) and which valid
    forms produce a conforming body (C24).
  \<^item> \<open>RequestBody\<close>: the body text of line 44, \<open>request_body\<close> = \<open>JSON.stringify\<close>
    of the binary64 payload. Every number of that payload is a double
    (\<open>request_dbl\<close>), so the body reads back as the payload
    (\<open>request_body_parse\<close>). The float fields the server receives lose their fraction
    when typed with a decimal comma (C7); \<open>blood_glucose_level\<close> arrives truncated by
    \<open>parseInt\<close> (C8).
  \<^item> \<open>Submit\<close>: lines 39--55: \<open>post_request\<close>, \<open>response_ok\<close>, and the two
    continuations of \<open>onSubmit\<close> after its \<open>await\<close>s, \<open>after_fetch\<close> and
    \<open>after_body\<close>, whose \<open>Inl\<close> results are the \<open>console.error\<close> entries.
  \<^item> \<open>Screen\<close>: the whole screen as a state machine. The record \<open>screen\<close> holds the
    react-hook-form state (\<open>field_values\<close>, \<open>errors\<close>, \<open>submitted\<close>), the
    \<open>message\<close> state, the issued requests \<open>sent\<close>, the requests suspended at an
    \<open>await\<close> (\<open>pending\<close>, by stage), and the \<open>log\<close>. \<open>screen_step\<close> handles
    one \<open>event\<close>: \<open>change_field\<close> (\<open>field.onChange\<close>), \<open>press\<close>
    (\<open>handleSubmit(onSubmit)\<close> up to the \<open>fetch\<close>), \<open>fetch_settled\<close> and
    \<open>body_settled\<close> (the continuations, for one in-flight request chosen by the
    network). \<open>reachable\<close> is the inductive closure of the steps from
    \<open>init_screen\<close> under events a user and a network can produce (\<open>event_ok\<close>: a
    picker delivers only its items). \<open>render_result\<close> and \<open>rendered_errors\<close> model
    what lines 80--245 render.
  \<^item> \<open>Controller\<close>: the form-controller contract of spec section 4.1 as an abstract,
    nondeterministic machine over the observable state (values, message, sent
    requests: record \<open>controller\<close>, relation \<open>ctrl_step\<close>, closure
    \<open>ctrl_reachable\<close>), its invariant \<open>ctrl_inv\<close>, and the forward simulation of the
    screen by it through the projection \<open>abstract_screen\<close>.
  \<^item> \<open>Render\<close>: what \<open>HomeScreen\<close> returns (lines 57--247), the list of elements of
    its \<open>View\<close> (\<open>element\<close>, \<open>render_screen\<close>):
    \<^item> the title;
    \<^item> per field (\<open>field_elements\<close>): its label (\<open>field_label\<close>), the widget its
      \<open>Controller\<close> renders with the field's current value (\<open>widget_element\<close>),
      and its error text when flagged;
    \<^item> the button, and the result \<open>render_result\<close>.

  \<open>field\<close> is an instance of \<open>enum\<close> (through \<open>all_fields\<close>), so statements that
  quantify over the nine fields evaluate.

  \<^bold>\<open>What the lemmas show.\<close>
  \<^item> Invariant (rule induction over \<open>reachable\<close>, \<open>screen_inv\<close>): every issued
    request is the binary64 payload of a valid form, with the promised member values
    (C1).
  \<^item> Validation and submission: an empty field blocks the request and shows its error
    (C2), an invalid form issues nothing (C18), a valid form issues exactly one POST of
    \<open>build_request_dbl\<close> (C3). The form is valid exactly when every field matches its
    rule (C4); the number pattern accepts exactly its language (C5) and rejects
    non-numeric text (C6). Before the first submit has finished, a change revalidates
    the field only if that submit was invalid (C15).
  \<^item> Responses: a non-2xx response or a rejected \<open>fetch\<close> leaves the message and
    only logs (C10, C11); a 2xx \<open>{"message": m}\<close> shows \<open>m\<close> (C12); the message
    changes only through a successful body (C13); a body \<open>{"message":m}\<close> shows
    exactly \<open>m\<close>, for every string \<open>m\<close> (C23).
  \<^item> Behaviours the spec does not state, proved as they are: when two bodies are in
    flight, the one of the earlier request, read last, decides the message (C14); a
    2xx body without \<open>message\<close> clears the result (C17); \<open>{"message": 0}\<close> renders
    a bare number outside a \<open>Text\<close> (C16); a height typed with a decimal comma is read
    as its integer part (C19); the float fields and the glucose level arrive
    truncated (C7, C8).
  \<^item> Refinement: every reachable screen, projected by \<open>abstract_screen\<close>, is a
    reachable state of the contract and satisfies its invariant (C20); in particular
    a result is shown only after a request was sent (C21).
  \<^item> Numbers: the binary64 \<open>bmi\<close> is within \<open>6 * 2^-53\<close> of the exact one (C22); a
    zero height makes the exact \<open>bmi\<close> non-finite (C9), and the screen then sends
    \<open>"bmi":null\<close> (C26).
  \<^item> Payload type: the body of a valid form has the specified member types exactly when
    its four float members are finite (C24).
  \<^item> Request text: the \<open>bmi\<close> the server's \<open>JSON.parse\<close> receives is within the
    bound of C22 of weight over height squared (C25).

  \<^bold>\<open>Choices and bounds.\<close> The screen computes in binary64: \<open>Double\<close> and
  \<open>RequestDouble\<close> round every finite result to the nearest double, ties to even,
  and overflow to \<open>Infinity\<close>, as JavaScript does; \<open>parseFloat\<close> is the correctly
  rounded value of its decimal prefix, which ECMAScript permits for every length of
  digits. \<open>JsNum\<close> and \<open>Request\<close> compute the same expressions exactly, with
  \<open>Infinity\<close>, \<open>-Infinity\<close> and \<open>NaN\<close>; C22 bounds the difference: for weights and
  heights between \<open>2^-200\<close> and \<open>2^200\<close> (every physical entry) the \<open>bmi\<close> of the
  two differ by at most \<open>6 * 2^-53\<close>, relative, because each of the five roundings
  (two parses, one product, one quotient, and the product's own) stays in the normal
  range there. The \<open>isSubmitted\<close> flag of react-hook-form is set after the awaited
  \<open>onSubmit\<close> finishes for a valid form (when its body, or its failed \<open>fetch\<close>,
  settles) and at once for an invalid one; \<open>Screen\<close> sets it at those points.
  \<open>Render\<close> holds the element tree as definitions, without claims. The two zeros are one value, which is exact on
  this screen because every parsed entry is non-negative
  (\<open>parseFloat_literal_nonneg\<close>). Strings are lists of UTF-16 code units, one
  \<open>char\<close> each; every string of the screen is in Latin-1.

  Two definitions take fuel, and both are proved never to run out:
  \<^item> \<open>JSON.parse\<close> (\<open>parse_value\<close>) is given one more unit than the length of the
    text. Each call spends one unit and reads at least one character
    (\<open>json_parse_terminates\<close>).
  \<^item> The digit search of \<open>Number::toString\<close> is given
    \<open>digit_bound x = floor_log 10 x + 1075\<close> steps. That is the digit count at which
    the candidate's scale is \<open>10^-1074\<close>. Every double is a multiple of \<open>2^-1074\<close>,
    so at that scale the floor is \<open>x\<close> itself and rounds to \<open>x\<close>
    (\<open>exact_cand\<close>, \<open>shortest_total\<close>).

  The search looks only at the two candidates at scale \<open>10^(p+1-k)\<close>, where
  \<open>p = floor_log 10 x\<close>. A \<open>k\<close>-digit candidate at another scale that rounds to \<open>x\<close>
  would give one of these two, or a shorter one, as a candidate that also rounds to
  \<open>x\<close>. That argument, and so the minimality of \<open>k\<close> over all scales, is not
  mechanised. The outputs agree with JavaScript on the values tried
  (\<open>22.857142857142858\<close>, \<open>1e+21\<close>, \<open>5e-324\<close>, \<open>9.5367431640625e-7\<close>).

  \<^bold>\<open>Not modelled.\<close> The styles (\<open>StyleSheet.create\<close>, lines 250--289) and the
  visual layout they produce; the element tree of the JSX is modelled (\<open>Render\<close>). In the response, a number literal beyond the binary64 range, which
  \<open>JSON.parse\<close> reads as \<open>Infinity\<close>, has no \<open>json\<close> value in the model, so
  \<open>json_parse\<close> rejects it; a \<open>\u\<close> escape above 255 is outside the model's
  characters in the same way. The sign of zero: \<open>-0\<close> is written \<open>0\<close> by
  \<open>Number::toString\<close> and never arises from the screen's non-negative entries. The
  prediction server.
  \<open>isSubmitting\<close> and the other react-hook-form state the screen never reads.
  react-hook-form, the \<open>Picker\<close> widget, \<open>fetch\<close>, \<open>parseFloat\<close>, \<open>parseInt\<close>,
  \<open>JSON\<close> and \<open>RegExp\<close> are libraries, modelled from their documented behaviour.
\<close>

text \<open>
  A reachable screen with two requests in flight: the user submits, changes the weight
  and submits again, and both responses have arrived with status 200.
\<close>

definition race_screen :: screen where
  "race_screen = run init_screen (filled_form @
     [Press, Change Weight ''90'', Press,
      FetchSettled 1 (Response 200 ''OK''), FetchSettled 0 (Response 200 ''OK'')])"

text \<open>
  C14. Responses are applied in arrival order, not submission order: whenever the
  bodies of two requests are being read, if the later request's body is read first,
  the screen ends up showing the answer to the earlier, stale, request, whatever the
  two answers are.
\<close>

theorem stale_response_wins:
  assumes "(i, AwaitBody) \<in> set (pending s)" "(j, AwaitBody) \<in> set (pending s)" "i < j"
  shows "message (body_settled (body_settled s j (Some (JObject [(''message'', JString mj)])))
                   i (Some (JObject [(''message'', JString mi)]))) = JsonVal (JString mi)"
proof -
  have "(i, AwaitBody) \<in> set (pending (body_settled s j (Some (JObject [(''message'', JString mj)]))))"
    using assms by (simp add: body_settled_def drop_pending_def)
  then show ?thesis by (simp add: body_settled_def)
qed

theorem stale_response_wins_witness:
  "reachable race_screen \<and> (0, AwaitBody) \<in> set (pending race_screen) \<and>
   (1, AwaitBody) \<in> set (pending race_screen) \<and> (0::nat) < 1 \<and>
   message (body_settled (body_settled race_screen 1 (Some (JObject [(''message'', JString ''B'')])))
     0 (Some (JObject [(''message'', JString ''A'')]))) = JsonVal (JString ''A'')"
proof -
  have ok: "list_all event_ok (filled_form @
     [Press, Change Weight ''90'', Press,
      FetchSettled 1 (Response 200 ''OK''), FetchSettled 0 (Response 200 ''OK'')])"
    by (simp add: filled_form_def)
  have r: "reachable race_screen"
    unfolding race_screen_def by (rule reachable_run [OF reachable.init ok])
  have p: "pending race_screen = [(0, AwaitBody), (1, AwaitBody)]"
    by (simp add: race_screen_def filled_form_def init_screen_def change_field_def press_def
        fetch_settled_def response_ok_def form_valid_def all_fields_def validate_field_def pattern_eval)
  have i: "(0, AwaitBody) \<in> set (pending race_screen)" "(1, AwaitBody) \<in> set (pending race_screen)"
    by (simp_all add: p)
  show ?thesis using stale_response_wins [OF i] r i by simp
qed

text \<open>
  C19. A height typed with a decimal comma passes validation, but \<open>parseFloat\<close> stops
  at the comma: the \<open>bmi\<close> the screen computes uses the integer part of the height,
  not the typed value, for every weight.
\<close>

theorem comma_height_misread:
  assumes "form_valid v" "CHR '','' \<in> set (v Height)"
  shows "bmi (build_request_dbl v) =
         compute_bmi_dbl (parseFloat_dbl (v Weight)) (to_double (of_int \<lfloor>decimal_value (v Height)\<rfloor>))"
  using assms
  by (simp add: build_request_dbl_def Let_def parseFloat_dbl_def parseFloat_validated valid_text_field)

theorem comma_height_misread_witness:
  "form_valid (sample_values(Height := ''1,75'')) \<and> CHR '','' \<in> set ''1,75'' \<and>
   decimal_value ''1,75'' = 7 / 4 \<and> bmi (build_request_dbl (sample_values(Height := ''1,75''))) = Num 70"
proof -
  have v: "form_valid (sample_values(Height := ''1,75''))"
    by (simp add: form_valid_def all_fields_def validate_field_def pattern_eval sample_values_def
        default_values_def)
  have c: "CHR '','' \<in> set ((sample_values(Height := ''1,75'')) Height)" by simp
  have d: "decimal_value ''1,75'' = 7 / 4"
    by (simp add: decimal_value_def is_digit_def digits_val_def digit_val_def)
  have f: "\<lfloor>(7 / 4 :: rat)\<rfloor> = 1" by (simp add: floor_eq_iff)
  have cw: "CHR '','' \<notin> set (sample_values Weight)" by (simp add: sample_values_def)
  have "parseFloat_dbl (sample_values Weight) = to_double (decimal_value (sample_values Weight))"
    by (rule parse_dbl_validated [OF sample_values_valid _ cw]) simp
  then have w: "parseFloat_dbl (sample_values Weight) = Num 70"
    using to_double_exact [of 35 1] by (simp add: sample_eval)
  have one: "to_double 1 = Num 1" using to_double_exact [of 1 0] by simp
  have "bmi (build_request_dbl (sample_values(Height := ''1,75''))) = Num 70"
    using comma_height_misread [OF v c] d f w one to_double_exact [of 35 1]
    by (simp add: compute_bmi_dbl_def dbl_mul_def dbl_div_def fun_upd_def)
  then show ?thesis using v d by simp
qed

text \<open>Witness of C6: \<open>7a\<close> in the weight field is rejected.\<close>

theorem non_numeric_rejected_witness:
  "text_field Weight \<and> CHR ''a'' \<in> set ''7a'' \<and> \<not> is_digit CHR ''a'' \<and>
   CHR ''a'' \<notin> set '',.'' \<and> \<not> validate_field Weight ''7a''"
proof -
  have h: "text_field Weight" "CHR ''a'' \<in> set ''7a''" "\<not> is_digit CHR ''a''"
    "CHR ''a'' \<notin> set '',.''"
    by (simp_all add: is_digit_def)
  show ?thesis using non_numeric_rejected [OF h] h by simp
qed

text \<open>Witness of C4: the filled-in sample form is valid, so its weight is a literal.\<close>

theorem form_valid_spec_witness:
  "form_valid sample_values \<and> text_field Weight \<and> decimal_literal (sample_values Weight)"
  using form_valid_spec [of sample_values] sample_values_valid by simp

text \<open>
  C23. Whatever message the server chooses, a successful response whose body is the
  JSON text \<open>{"message":m}\<close> (as \<open>JSON.stringify\<close> writes it) makes the screen show
  exactly \<open>m\<close>: \<open>response.json()\<close> parses the text and \<open>setMessage\<close> stores the
  member.
\<close>

theorem server_message_shown:
  assumes "(n, AwaitBody) \<in> set (pending s)"
  shows "message (screen_step s (BodySettled n
           (json_parse (''{'' @ quote_json_string ''message'' @ '':'' @ quote_json_string m @ ''}'')))) =
         JsonVal (JString m)"
  using assms json_parse_message [of m] by (simp add: body_settled_def)

theorem server_message_shown_witness:
  "(0, AwaitBody) \<in> set (pending fetched_screen) \<and>
   message (screen_step fetched_screen (BodySettled 0
     (json_parse (''{'' @ quote_json_string ''message'' @ '':'' @ quote_json_string ''Low risk'' @ ''}'')))) =
   JsonVal (JString ''Low risk'')"
proof -
  have p: "(0, AwaitBody) \<in> set (pending fetched_screen)" by (simp add: fetched_screen_eq)
  show ?thesis using server_message_shown [OF p, of "''Low risk''"] p by simp
qed


text \<open>
  C25. What the prediction server receives as \<open>bmi\<close>: for validated entries written
  with a decimal point and between \<open>2^-200\<close> and \<open>2^200\<close>, the request body parses, its
  \<open>bmi\<close> member is a number, and that number is within \<open>6 * 2^-53\<close>, relative, of
  \<open>weight / height^2\<close> for the numbers the user typed.
\<close>

theorem received_bmi_close:
  assumes "form_valid v" "CHR '','' \<notin> set (v Weight)" "CHR '','' \<notin> set (v Height)"
    and "1 / 2 ^ 200 \<le> decimal_value (v Weight)" "decimal_value (v Weight) \<le> 2 ^ 200"
    and "1 / 2 ^ 200 \<le> decimal_value (v Height)" "decimal_value (v Height) \<le> 2 ^ 200"
  shows "\<exists>j B. json_parse (request_body v) = Some j \<and> get_property j ''bmi'' = Inr (JsonVal (JNumber B)) \<and>
           \<bar>B - decimal_value (v Weight) / decimal_value (v Height) ^ 2\<bar> \<le>
             6 / 2 ^ 53 * (decimal_value (v Weight) / decimal_value (v Height) ^ 2)"
proof -
  let ?w = "decimal_value (v Weight)" and ?h = "decimal_value (v Height)"
  let ?j = "request_json (build_request_dbl v)"
  have p: "json_parse (request_body v) = Some ?j"
    unfolding request_body_def by (rule json_roundtrip [OF request_dbl])
  have "bmi (build_request_dbl v) = compute_bmi_dbl (to_double ?w) (to_double ?h)"
    using assms(1-3) by (simp add: build_request_dbl_def parse_dbl_validated)
  then obtain B where B: "bmi (build_request_dbl v) = Num B" "\<bar>B - ?w / (?h * ?h)\<bar> \<le> 6 / 2 ^ 53 * (?w / (?h * ?h))"
    using bmi_dbl_close [OF assms(4-7)] by auto
  have "get_property ?j ''bmi'' = Inr (JsonVal (JNumber B))" by (simp add: request_json_def B(1))
  then show ?thesis using p B(2) by (auto simp: power2_eq_square)
qed

theorem received_bmi_close_witness:
  "form_valid sample_values \<and> CHR '','' \<notin> set (sample_values Weight) \<and>
   CHR '','' \<notin> set (sample_values Height) \<and>
   1 / 2 ^ 200 \<le> decimal_value (sample_values Weight) \<and> decimal_value (sample_values Weight) \<le> 2 ^ 200 \<and>
   1 / 2 ^ 200 \<le> decimal_value (sample_values Height) \<and> decimal_value (sample_values Height) \<le> 2 ^ 200 \<and>
   (\<exists>j B. json_parse (request_body sample_values) = Some j \<and>
      get_property j ''bmi'' = Inr (JsonVal (JNumber B)) \<and> \<bar>B - 160 / 7\<bar> \<le> 6 / 2 ^ 53 * (160 / 7))"
proof -
  have c: "CHR '','' \<notin> set (sample_values Weight)" "CHR '','' \<notin> set (sample_values Height)"
    by (simp_all add: sample_values_def)
  have w: "decimal_value (sample_values Weight) = 70" "decimal_value (sample_values Height) = 7 / 4"
    by (simp_all add: sample_eval)
  have r: "1 / 2 ^ 200 \<le> decimal_value (sample_values Weight)"
    "decimal_value (sample_values Weight) \<le> 2 ^ 200"
    "1 / 2 ^ 200 \<le> decimal_value (sample_values Height)"
    "decimal_value (sample_values Height) \<le> 2 ^ 200"
    by (simp_all add: w)
  show ?thesis
    using received_bmi_close [OF sample_values_valid c r] sample_values_valid c r w
    by (simp add: power2_eq_square)
qed


text \<open>
  C26. A height that reads as zero is not guarded: pressing the button on a valid
  form still issues the POST, and its body carries \<open>"bmi":null\<close>, since
  \<open>weight / 0\<close> is \<open>Infinity\<close>, \<open>-Infinity\<close> or \<open>NaN\<close> and \<open>JSON.stringify\<close>
  writes a non-finite number as \<open>null\<close>.
\<close>

theorem zero_height_sends_null:
  assumes "form_valid (field_values s)" "parseFloat_dbl (field_values s Height) = Num 0"
  shows "sent (press s) = sent s @ [build_request_dbl (field_values s)] \<and>
         (\<exists>pre post. request_body (field_values s) = pre @ quote_json_string ''bmi'' @ '':null'' @ post)"
proof -
  let ?v = "field_values s"
  have b: "number_json (bmi (build_request_dbl ?v)) = JNull"
    using assms(2) by (cases "parseFloat_dbl (?v Weight)")
      (simp_all add: build_request_dbl_def Let_def compute_bmi_dbl_def dbl_mul_def dbl_div_def to_double_def)
  let ?r = "build_request_dbl ?v"
  let ?A = "[(''gender'', JString (gender ?r)), (''age'', number_json (age ?r)),
              (''hypertension'', number_json (hypertension ?r)),
              (''heart_disease'', number_json (heart_disease ?r)),
              (''smoking_history'', JString (smoking_history ?r))]"
  let ?B = "[(''HbA1c_level'', number_json (HbA1c_level ?r)),
              (''blood_glucose_level'', number_json (blood_glucose_level ?r))]"
  have eq: "request_json ?r = JObject (?A @ (''bmi'', JNull) # ?B)"
    by (simp add: request_json_def b)
  obtain pre post where
    "json_text (JObject (?A @ (''bmi'', JNull) # ?B)) = pre @ quote_json_string ''bmi'' @ CHR '':'' # json_text JNull @ post"
    using json_text_member by blast
  then have "request_body ?v = pre @ quote_json_string ''bmi'' @ CHR '':'' # json_text JNull @ post"
    unfolding request_body_def eq .
  moreover have "sent (press s) = sent s @ [?r]" using assms(1) by (simp add: press_def)
  ultimately show ?thesis by auto
qed

theorem zero_height_sends_null_witness:
  "form_valid (field_values (init_screen\<lparr>field_values := sample_values(Height := ''0'')\<rparr>)) \<and>
   parseFloat_dbl (field_values (init_screen\<lparr>field_values := sample_values(Height := ''0'')\<rparr>) Height) = Num 0 \<and>
   sent (press (init_screen\<lparr>field_values := sample_values(Height := ''0'')\<rparr>)) =
     [build_request_dbl (sample_values(Height := ''0''))] \<and>
   (\<exists>pre post. request_body (sample_values(Height := ''0'')) = pre @ quote_json_string ''bmi'' @ '':null'' @ post)"
proof -
  let ?s = "init_screen\<lparr>field_values := sample_values(Height := ''0'')\<rparr>"
  have v: "form_valid (field_values ?s)"
    by (simp add: form_valid_def all_fields_def validate_field_def pattern_eval sample_values_def
        default_values_def)
  have h: "parseFloat_dbl (field_values ?s Height) = Num 0"
    by (simp add: parseFloat_dbl_def to_double_def) code_simp
  show ?thesis using zero_height_sends_null [OF v h] v h by (simp add: init_screen_def)
qed

end
